(* ===== verification/MG_Prelude.thy ===== *)
theory MG_Prelude
  imports Main "HOL-Library.Multiset"
begin

text \<open>
  Shared vocabulary of the development: the JavaScript notions the components of the
  music library front end rely on (nullable strings and their truthiness, the \<open>??\<close>
  operator, thrown values and the text \<open>console.error\<close> prints for them, settled
  promises and \<open>Promise.all\<close>), the stable descending sort that stands for the
  database's \<open>orderBy: { createdAt: "desc" }\<close>, and list lemmas on removing the
  \<open>k\<close>-th element, which the client machine uses for its in-flight requests.
  The theorem collections \<open>mg_defs\<close> (unfoldings of the handlers), \<open>mg_view\<close>
  (unfoldings of the render functions) and \<open>mg_frame\<close> (fields an operation leaves
  alone) are filled by the component theories.
\<close>

section \<open>Theorem collections\<close>

named_theorems mg_defs "unfoldings of the non-recursive handlers and operations"
named_theorems mg_view "unfoldings of the render functions"
named_theorems mg_frame "fields that an operation leaves unchanged"

section \<open>Nullable strings, truthiness and the nullish operator\<close>

type_synonym nstring = "string option"

fun truthy :: "nstring \<Rightarrow> bool" where
  "truthy None = False"
| "truthy (Some s) = (s \<noteq> [])"

definition nullish :: "'a option \<Rightarrow> 'a \<Rightarrow> 'a" where
  "nullish a d = (case a of None \<Rightarrow> d | Some v \<Rightarrow> v)"

lemma nullish_simps [simp]:
  "nullish None d = d"
  "nullish (Some v) d = v"
  by (simp_all add: nullish_def)

lemma truthy_iff: "truthy a \<longleftrightarrow> (\<exists>s. a = Some s \<and> s \<noteq> [])"
  by (cases a) auto

lemma truthy_imp_Some: "truthy a \<Longrightarrow> a \<noteq> None"
  by (cases a) auto

section \<open>Thrown values and settled promises\<close>

datatype thrown = ErrorObj string | NonError string

fun error_text :: "thrown \<Rightarrow> string" where
  "error_text (ErrorObj msg) = msg"
| "error_text (NonError s) = s"

type_synonym 'a settled = "thrown + 'a"

fun promise_all :: "'a settled list \<Rightarrow> 'a list settled" where
  "promise_all [] = Inr []"
| "promise_all (Inl e # ps) = Inl e"
| "promise_all (Inr v # ps) =
     (case promise_all ps of Inl e \<Rightarrow> Inl e | Inr vs \<Rightarrow> Inr (v # vs))"

lemma promise_all_Inr_iff: "promise_all ps = Inr vs \<longleftrightarrow> ps = map Inr vs"
proof (induction ps arbitrary: vs)
  case Nil
  show ?case by auto
next
  case (Cons p ps)
  note IH = Cons.IH
  show ?case
  proof (cases p)
    case (Inl e)
    then show ?thesis by auto
  next
    case (Inr v)
    show ?thesis
    proof (cases vs)
      case Nil
      with Inr show ?thesis by (auto split: sum.splits)
    next
      case (Cons w ws)
      with Inr IH [of ws] show ?thesis by (auto split: sum.splits)
    qed
  qed
qed

lemma promise_all_map_Inr [simp]: "promise_all (map Inr vs) = Inr vs"
  by (simp add: promise_all_Inr_iff)

lemma promise_all_Inl_iff: "(\<exists>e. promise_all ps = Inl e) \<longleftrightarrow> (\<exists>e. Inl e \<in> set ps)"
  by (induction ps rule: promise_all.induct) (auto split: sum.splits)

lemma promise_all_Inl_mem: "promise_all ps = Inl e \<Longrightarrow> Inl e \<in> set ps"
  by (induction ps rule: promise_all.induct) (auto split: sum.splits)

lemma promise_all_length: "promise_all ps = Inr vs \<Longrightarrow> length vs = length ps"
  by (auto simp: promise_all_Inr_iff)

lemma promise_all_append:
  "promise_all (ps @ qs) =
     (case promise_all ps of Inl e \<Rightarrow> Inl e
      | Inr vs \<Rightarrow> (case promise_all qs of Inl e \<Rightarrow> Inl e | Inr ws \<Rightarrow> Inr (vs @ ws)))"
  by (induction ps rule: promise_all.induct) (auto split: sum.splits)

section \<open>Stable descending order\<close>

definition order_by_desc :: "('a \<Rightarrow> 'k::linorder) \<Rightarrow> 'a list \<Rightarrow> 'a list" where
  "order_by_desc f xs = rev (sort_key f (rev xs))"

abbreviation descending :: "('a \<Rightarrow> 'k::linorder) \<Rightarrow> 'a list \<Rightarrow> bool" where
  "descending f xs \<equiv> sorted_wrt (\<lambda>a b. f b \<le> f a) xs"

lemma set_order_by_desc [simp]: "set (order_by_desc f xs) = set xs"
  by (simp add: order_by_desc_def)

lemma length_order_by_desc [simp]: "length (order_by_desc f xs) = length xs"
  by (simp add: order_by_desc_def)

lemma mset_order_by_desc [simp]: "mset (order_by_desc f xs) = mset xs"
  by (simp add: order_by_desc_def)

lemma order_by_desc_Nil [simp]: "order_by_desc f [] = []"
  by (simp add: order_by_desc_def)

lemma descending_order_by_desc: "descending f (order_by_desc f xs)"
  using sorted_sort_key [of f "rev xs"]
  by (simp add: order_by_desc_def sorted_wrt_rev sorted_map)

lemma order_by_desc_stable:
  "filter (\<lambda>y. f y = k) (order_by_desc f xs) = filter (\<lambda>y. f y = k) xs"
  by (simp add: order_by_desc_def sort_key_stable flip: rev_filter)

lemma filter_order_by_desc:
  "filter P (order_by_desc f xs) = order_by_desc f (filter P xs)"
  by (simp add: order_by_desc_def filter_sort flip: rev_filter)

lemma order_by_desc_id:
  assumes "descending f xs"
  shows "order_by_desc f xs = xs"
proof -
  from assms have "sorted (map f (rev xs))"
    by (simp add: sorted_map sorted_wrt_rev)
  then have "sort_key f (rev xs) = rev xs"
    by (rule sort_key_id_if_sorted)
  then show ?thesis
    by (simp add: order_by_desc_def)
qed

lemma order_by_desc_idem [simp]:
  "order_by_desc f (order_by_desc f xs) = order_by_desc f xs"
  by (rule order_by_desc_id) (rule descending_order_by_desc)

lemma order_by_desc_unique:
  assumes "mset ys = mset xs"
    and "\<And>k. filter (\<lambda>x. f x = k) ys = filter (\<lambda>x. f x = k) xs"
    and "descending f ys"
  shows "order_by_desc f xs = ys"
proof -
  have "sort_key f (rev xs) = rev ys"
  proof (rule properties_for_sort_key)
    show "mset (rev ys) = mset (rev xs)"
      using assms(1) by simp
    have "(\<lambda>x. f k = f x) = (\<lambda>x. f x = f k)" for k
      by auto
    then show "filter (\<lambda>x. f k = f x) (rev ys) = filter (\<lambda>x. f k = f x) (rev xs)" for k
      using assms(2) [of "f k"] by (simp flip: rev_filter)
    show "sorted (map f (rev ys))"
      using assms(3) by (simp add: sorted_map sorted_wrt_rev)
  qed
  then show ?thesis
    by (simp add: order_by_desc_def)
qed

text \<open>
  What a descending order determines whatever it does with ties: the keys of the
  result, and the result itself when no two elements have the same key.
\<close>

lemma list_eq_if_mset_eq_short:
  assumes "mset ys = mset xs" and "length xs \<le> 1"
  shows "ys = xs"
  using assms by (cases xs; cases ys) (auto simp: length_Suc_conv)

lemma filter_key_short:
  assumes "distinct (map f xs)"
  shows "length (filter (\<lambda>x. f x = k) xs) \<le> 1"
  using assms by (induction xs) (auto simp: filter_empty_conv intro: rev_image_eqI)

lemma filter_key_eq_if_distinct:
  assumes "mset ys = mset xs" and "distinct (map f xs)"
  shows "filter (\<lambda>x. f x = k) ys = filter (\<lambda>x. f x = k) xs"
  using assms
  by (intro list_eq_if_mset_eq_short filter_key_short) simp_all

lemma descending_keys_unique:
  assumes "mset ys = mset xs" and "descending f xs" and "descending f ys"
  shows "map f ys = map f xs"
proof -
  have "sort (rev (map f xs)) = rev (map f ys)"
    using assms
    by (intro properties_for_sort) (simp_all add: sorted_wrt_rev sorted_wrt_map flip: rev_map)
  moreover have "sort (rev (map f xs)) = rev (map f xs)"
    using assms
    by (intro properties_for_sort) (simp_all add: sorted_wrt_rev sorted_wrt_map flip: rev_map)
  ultimately show ?thesis by simp
qed

section \<open>Removing the k-th element of a list\<close>

definition remove_nth :: "nat \<Rightarrow> 'a list \<Rightarrow> 'a list" where
  "remove_nth k xs = take k xs @ drop (Suc k) xs"

lemma remove_nth_Nil [simp]: "remove_nth k [] = []"
  by (simp add: remove_nth_def)

lemma remove_nth_0 [simp]: "remove_nth 0 (x # xs) = xs"
  by (simp add: remove_nth_def)

lemma remove_nth_Suc [simp]: "remove_nth (Suc k) (x # xs) = x # remove_nth k xs"
  by (simp add: remove_nth_def)

lemma length_remove_nth [simp]:
  "k < length xs \<Longrightarrow> length (remove_nth k xs) = length xs - 1"
  by (simp add: remove_nth_def)

lemma remove_nth_beyond [simp]: "length xs \<le> k \<Longrightarrow> remove_nth k xs = xs"
  by (simp add: remove_nth_def)

lemma set_remove_nth_subset: "set (remove_nth k xs) \<subseteq> set xs"
  unfolding remove_nth_def using set_take_subset [of k xs] set_drop_subset [of "Suc k" xs]
  by auto

lemma mset_remove_nth:
  "k < length xs \<Longrightarrow> mset (remove_nth k xs) + {#xs ! k#} = mset xs"
proof (induction xs arbitrary: k)
  case Nil
  then show ?case by simp
next
  case (Cons x xs)
  then show ?case by (cases k) auto
qed

lemma nth_remove_nth:
  "j < length xs \<Longrightarrow> j \<noteq> k \<Longrightarrow> remove_nth k xs ! (if j < k then j else j - 1) = xs ! j"
  by (auto simp: remove_nth_def nth_append min_def)

lemma length_remove_nth_less:
  "j < length xs \<Longrightarrow> j \<noteq> k \<Longrightarrow> (if j < k then j else j - 1) < length (remove_nth k xs)"
  by (cases "k < length xs") auto

lemma filter_nth_pos: "k < length xs \<Longrightarrow> P (xs ! k) \<Longrightarrow> 0 < length (filter P xs)"
  by (auto simp: filter_empty_conv)

lemma filter_remove_nth_length:
  "k < length xs \<Longrightarrow>
     length (filter P (remove_nth k xs)) =
       length (filter P xs) - (if P (xs ! k) then 1 else 0)"
proof (induction xs arbitrary: k)
  case Nil
  then show ?case by simp
next
  case (Cons x xs)
  then show ?case
    using filter_nth_pos [of _ xs P] by (cases k) auto
qed

lemma filter_remove_nth_Nil:
  "filter P xs = [] \<Longrightarrow> filter P (remove_nth k xs) = []"
  using set_remove_nth_subset [of k xs] by (auto simp: filter_empty_conv)

lemma filter_remove_nth_other:
  "\<not> P (xs ! k) \<Longrightarrow> filter P (remove_nth k xs) = filter P xs"
proof (cases "k < length xs")
  case True
  then have "xs = take k xs @ xs ! k # drop (Suc k) xs"
    by (simp add: id_take_nth_drop)
  then have "filter P xs = filter P (take k xs @ xs ! k # drop (Suc k) xs)"
    by simp
  moreover assume "\<not> P (xs ! k)"
  ultimately show ?thesis
    by (simp add: remove_nth_def)
qed simp

lemma filter_single_nth:
  assumes "length (filter P xs) = 1" and "k < length xs" and "P (xs ! k)"
  shows "filter P xs = [xs ! k]"
proof -
  from assms(1) obtain y where y: "filter P xs = [y]"
    by (cases "filter P xs") auto
  from assms(2,3) have "xs ! k \<in> set (filter P xs)"
    by simp
  with y show ?thesis by simp
qed

lemma remove_nth_unique:
  assumes "length (filter P xs) = 1" and "k < length xs" and "P (xs ! k)"
  shows "remove_nth k xs = filter (\<lambda>x. \<not> P x) xs"
proof -
  have xs: "xs = take k xs @ xs ! k # drop (Suc k) xs"
    using assms(2) by (simp add: id_take_nth_drop)
  have "length (filter P (remove_nth k xs)) = 0"
    using assms by (simp add: filter_remove_nth_length)
  then have none: "\<forall>x \<in> set (remove_nth k xs). \<not> P x"
    by (simp add: filter_empty_conv)
  have "filter (\<lambda>x. \<not> P x) xs
          = filter (\<lambda>x. \<not> P x) (take k xs @ xs ! k # drop (Suc k) xs)"
    using xs by simp
  also have "\<dots> = filter (\<lambda>x. \<not> P x) (remove_nth k xs)"
    using assms(3) by (simp add: remove_nth_def)
  also have "\<dots> = remove_nth k xs"
    using none by (simp add: filter_id_conv)
  finally show ?thesis by simp
qed

section \<open>Association lists built from a list\<close>

lemma map_of_map_filter:
  "map_of (map (\<lambda>x. (f x, g x)) xs) k =
     (case filter (\<lambda>x. f x = k) xs of [] \<Rightarrow> None | x # ys \<Rightarrow> Some (g x))"
  by (induction xs) auto

lemma map_of_map_None_iff:
  "map_of (map (\<lambda>x. (f x, g x)) xs) k = None \<longleftrightarrow> filter (\<lambda>x. f x = k) xs = []"
  by (simp add: map_of_map_filter split: list.splits)

lemma map_of_filter_fst_same [simp]: "map_of (filter (\<lambda>p. fst p \<noteq> k) xs) k = None"
  by (auto simp: map_of_eq_None_iff)

lemma map_of_filter_fst_other:
  "k' \<noteq> k \<Longrightarrow> map_of (filter (\<lambda>p. fst p \<noteq> k) xs) k' = map_of xs k'"
  by (induction xs) auto

section \<open>Lists related element by element\<close>

lemma list_all2_map_right:
  "list_all2 P xs (map f xs) \<longleftrightarrow> list_all (\<lambda>x. P x (f x)) xs"
  by (induction xs) simp_all

lemma list_all2_mem_right:
  "list_all2 P xs ys \<Longrightarrow> y \<in> set ys \<Longrightarrow> \<exists>x \<in> set xs. P x y"
  by (induction xs ys rule: list_all2_induct) auto

section \<open>Lists of pairs updated in their second component\<close>

lemma map_fst_update [simp]:
  "i < length xs \<Longrightarrow> fst (xs ! i) = p \<Longrightarrow> map fst (xs[i := (p, c)]) = map fst xs"
  by (simp add: map_update list_update_same_conv)

end
