(* ===== verification/Song_Model.thy ===== *)
theory Song_Model
  imports MG_Prelude
begin

text \<open>
  The data the components exchange. \<open>song_row\<close> is a row of the song table as
  \<open>home-songs-fetcher.tsx\<close> reads it (the fields it projects, with the joined
  \<open>user\<close> selection); \<open>SongCardProps\<close> is the interface of that name in
  \<open>song-card.tsx\<close>, the view-level song that the grid, its cards and the detail
  dialog receive; \<open>Track\<close> is the object both play handlers hand to \<open>setTrack\<close>;
  \<open>session\<close> is what the session provider returns. Dates are \<open>int\<close> time
  values (milliseconds), identifiers and keys are strings, \<open>string | null\<close> is
  \<open>nstring\<close>. The source's field \<open>id\<close> is \<open>song_id\<close> here (and \<open>db_id\<close>,
  \<open>track_id\<close>), because \<open>id\<close> is HOL's identity function; the rows' fields carry
  the prefix \<open>db_\<close> and the track's the prefix \<open>track_\<close> where the name is shared
  with \<open>SongCardProps\<close>.
\<close>

section \<open>Session and database rows\<close>

record session =
  user_id :: string

record user_sel =
  name :: nstring

record song_row =
  db_id :: string
  db_title :: nstring
  db_createdAt :: int
  db_instrumental :: bool
  db_prompt :: nstring
  db_lyrics :: nstring
  db_describedLyrics :: nstring
  db_fullDescribedSong :: nstring
  db_thumbnailS3Key :: nstring
  db_status :: nstring
  db_userId :: string
  db_published :: bool
  db_user :: "user_sel option"

section \<open>View-level songs and tracks\<close>

record SongCardProps =
  song_id :: string
  title :: nstring
  createdAt :: int
  instrumental :: bool
  prompt :: nstring
  lyrics :: nstring
  describedLyrics :: nstring
  fullDescribedSong :: nstring
  thumbnailUrl :: nstring
  playUrl :: nstring
  status :: nstring
  createdByUserName :: nstring
  published :: bool
  isOwnSong :: "bool option"

record Track =
  track_id :: string
  track_title :: nstring
  url :: nstring
  artwork :: nstring
  track_prompt :: nstring
  track_createdByUserName :: nstring

text \<open>
  The object literal of both \<open>handlePlayPause\<close> handlers: the track of a song and a
  resolved play URL.
\<close>

definition mkTrack :: "SongCardProps \<Rightarrow> string \<Rightarrow> Track" where
  "mkTrack song playUrl' =
     \<lparr>track_id = song_id song,
      track_title = title song,
      url = Some playUrl',
      artwork = thumbnailUrl song,
      track_prompt = prompt song,
      track_createdByUserName = createdByUserName song\<rparr>"

lemma mkTrack_sel [simp]:
  "track_id (mkTrack song u) = song_id song"
  "track_title (mkTrack song u) = title song"
  "url (mkTrack song u) = Some u"
  "artwork (mkTrack song u) = thumbnailUrl song"
  "track_prompt (mkTrack song u) = prompt song"
  "track_createdByUserName (mkTrack song u) = createdByUserName song"
  by (simp_all add: mkTrack_def)

lemma mkTrack_inject: "mkTrack song u = mkTrack song u' \<longleftrightarrow> u = u'"
  by (auto simp: mkTrack_def)

section \<open>A song to try the components on\<close>

definition demo_song :: "string \<Rightarrow> SongCardProps" where
  "demo_song i =
     \<lparr>song_id = i, title = Some (''Song '' @ i), createdAt = 0, instrumental = False,
      prompt = None, lyrics = None, describedLyrics = None, fullDescribedSong = None,
      thumbnailUrl = None, playUrl = None, status = None, createdByUserName = Some ''Ann'',
      published = True, isOwnSong = Some False\<rparr>"

lemma demo_song_sel [simp]:
  "song_id (demo_song i) = i"
  "title (demo_song i) = Some (''Song '' @ i)"
  "thumbnailUrl (demo_song i) = None"
  "prompt (demo_song i) = None"
  "lyrics (demo_song i) = None"
  "createdByUserName (demo_song i) = Some ''Ann''"
  "instrumental (demo_song i) = False"
  "published (demo_song i) = True"
  "isOwnSong (demo_song i) = Some False"
  by (simp_all add: demo_song_def)

lemma demo_song_inject [simp]: "demo_song i = demo_song j \<longleftrightarrow> i = j"
  by (auto simp: demo_song_def)

end
