(* ===== verification/Visibility.thy ===== *)
theory Visibility
  imports Song_Model
begin

text \<open>
  The query of \<open>HomeSongsFetcher\<close> (\<open>home-songs-fetcher.tsx\<close>, the call of
  \<open>db.song.findMany\<close>): its \<open>where\<close> clause with the two \<open>OR\<close> branches as the
  code writes them, and the query itself over a table given as the list of its rows,
  ordered by \<open>createdAt\<close> descending. The code gives the database no second sort
  key, so the order among rows of one creation time is the database's; \<open>findMany\<close>
  takes the one the specification asks for (the table's own order, \<open>order_by_desc\<close>),
  and \<open>query_result\<close> is the contract every answer of the database meets, with
  any order of ties. \<open>visible\<close> is the visibility rule of the specification and
  \<open>VisibilityFilter\<close> its filter; the lemmas show that the clause is that rule, that
  the query returns exactly the visible rows, each as often as the table holds it, most
  recent first, that every answer to the query is the list of the specification up to
  the order of ties, and what a viewer can and cannot see.
\<close>

section \<open>The where clause and the query\<close>

definition own_songs :: "string \<Rightarrow> song_row \<Rightarrow> bool" where
  "own_songs uid s \<longleftrightarrow> db_userId s = uid"

definition others_published :: "string \<Rightarrow> song_row \<Rightarrow> bool" where
  "others_published uid s \<longleftrightarrow> db_published s = True \<and> db_userId s \<noteq> uid"

definition where_clause :: "string \<Rightarrow> song_row \<Rightarrow> bool" where
  "where_clause uid s \<longleftrightarrow> own_songs uid s \<or> others_published uid s"

definition findMany :: "string \<Rightarrow> song_row list \<Rightarrow> song_row list" where
  "findMany uid table = order_by_desc db_createdAt (filter (where_clause uid) table)"

lemmas where_defs = where_clause_def own_songs_def others_published_def

section \<open>The visibility rule of the specification\<close>

definition visible :: "string \<Rightarrow> song_row \<Rightarrow> bool" where
  "visible viewer s \<longleftrightarrow> db_userId s = viewer \<or> db_published s"

text \<open>
  The filter of the specification: the visible songs, most recent first, in a stable
  order, so that songs of one creation time stay in the order they came in.
\<close>

definition VisibilityFilter :: "string \<Rightarrow> song_row list \<Rightarrow> song_row list" where
  "VisibilityFilter viewer songs = order_by_desc db_createdAt (filter (visible viewer) songs)"

section \<open>A table to try the query on\<close>

definition row :: "string \<Rightarrow> string \<Rightarrow> bool \<Rightarrow> int \<Rightarrow> song_row" where
  "row i owner pub t =
     \<lparr>db_id = i, db_title = None, db_createdAt = t, db_instrumental = False,
      db_prompt = None, db_lyrics = None, db_describedLyrics = None,
      db_fullDescribedSong = None, db_thumbnailS3Key = None, db_status = None,
      db_userId = owner, db_published = pub, db_user = None\<rparr>"

definition scenario_table :: "song_row list" where
  "scenario_table =
     [row ''S1'' ''A'' False 10, row ''S2'' ''A'' True 20,
      row ''S3'' ''B'' True 30, row ''S4'' ''B'' False 40]"

lemma row_sel [simp]:
  "db_id (row i owner pub t) = i"
  "db_userId (row i owner pub t) = owner"
  "db_published (row i owner pub t) = pub"
  "db_createdAt (row i owner pub t) = t"
  "db_thumbnailS3Key (row i owner pub t) = None"
  by (simp_all add: row_def)

section \<open>The clause is the rule\<close>

text \<open>
  C1. The \<open>where\<close> clause of the query (own songs, or published songs of another
  user) selects exactly the rows the visibility rule allows: those the viewer owns
  and those that are published.
\<close>

theorem where_clause_visible: "where_clause uid s \<longleftrightarrow> visible uid s"
  by (auto simp: where_defs visible_def)

lemma filter_where_clause [simp]: "filter (where_clause uid) = filter (visible uid)"
  by (rule ext, rule filter_cong) (auto simp: where_defs visible_def)

lemma own_song_visible: "db_userId s = uid \<Longrightarrow> where_clause uid s"
  by (simp add: where_defs)

lemma foreign_visible_iff:
  "db_userId s \<noteq> uid \<Longrightarrow> where_clause uid s \<longleftrightarrow> db_published s"
  by (simp add: where_defs)

section \<open>What the query returns\<close>

lemma findMany_filter: "findMany uid table = order_by_desc db_createdAt (filter (visible uid) table)"
  by (simp add: findMany_def)

lemma findMany_Nil [simp]: "findMany uid [] = []"
  by (simp add: findMany_def)

text \<open>
  C2. The query returns exactly the visible rows of the table, each with the
  multiplicity it has in the table: nothing visible is lost or duplicated and
  nothing hidden is returned.
\<close>

theorem findMany_mset: "mset (findMany uid table) = filter_mset (visible uid) (mset table)"
  by (simp add: findMany_filter)

lemma findMany_set: "set (findMany uid table) = {s \<in> set table. visible uid s}"
  by (simp add: findMany_filter)

lemma findMany_length: "length (findMany uid table) = length (filter (visible uid) table)"
  by (simp add: findMany_filter)

text \<open>
  C14. The result of the query is ordered by creation time, most recent first.
\<close>

theorem findMany_descending: "descending db_createdAt (findMany uid table)"
  by (simp add: findMany_def descending_order_by_desc)

text \<open>
  The order among rows of one creation time is a choice of this model, not of the
  code: \<open>findMany\<close> keeps them in the order the table holds them. The next two
  lemmas are about that choice.
\<close>

lemma findMany_stable:
  "filter (\<lambda>s. db_createdAt s = t) (findMany uid table) =
     filter (\<lambda>s. db_createdAt s = t) (filter (visible uid) table)"
  by (simp add: findMany_filter order_by_desc_stable)

text \<open>
  A list that holds the visible rows with their multiplicities, is ordered by creation
  time, most recent first, and keeps the rows of one creation time in the order of the
  table is the list \<open>findMany\<close> returns.
\<close>

lemma findMany_unique:
  assumes "mset ys = filter_mset (visible uid) (mset table)"
    and "descending db_createdAt ys"
    and "\<And>t. filter (\<lambda>s. db_createdAt s = t) ys
               = filter (\<lambda>s. db_createdAt s = t) (filter (visible uid) table)"
  shows "ys = findMany uid table"
  using order_by_desc_unique [of ys "filter (visible uid) table" db_createdAt] assms
  by (simp add: findMany_filter)

lemma findMany_unique_example:
  "mset [row ''S3'' ''B'' True 30, row ''S2'' ''A'' True 20, row ''S1'' ''A'' False 10]
     = filter_mset (visible ''A'') (mset scenario_table)
   \<and> descending db_createdAt
       [row ''S3'' ''B'' True 30, row ''S2'' ''A'' True 20, row ''S1'' ''A'' False 10]
   \<and> [row ''S3'' ''B'' True 30, row ''S2'' ''A'' True 20, row ''S1'' ''A'' False 10]
       = findMany ''A'' scenario_table"
proof -
  let ?ys = "[row ''S3'' ''B'' True 30, row ''S2'' ''A'' True 20, row ''S1'' ''A'' False 10]"
  have m: "mset ?ys = filter_mset (visible ''A'') (mset scenario_table)"
    by (simp add: scenario_table_def visible_def)
  have d: "descending db_createdAt ?ys"
    by simp
  have f: "filter (\<lambda>s. db_createdAt s = t) ?ys
             = filter (\<lambda>s. db_createdAt s = t) (filter (visible ''A'') scenario_table)" for t
    by (simp add: scenario_table_def visible_def)
  from m d findMany_unique [OF m d f] show ?thesis by simp
qed

lemma findMany_idem: "findMany uid (findMany uid table) = findMany uid table"
  by (simp add: findMany_filter filter_order_by_desc)

lemma findMany_sorted_table:
  "descending db_createdAt table \<Longrightarrow> findMany uid table = filter (visible uid) table"
  by (simp add: findMany_filter order_by_desc_id sorted_wrt_filter)

section \<open>What the query asks of the database\<close>

text \<open>
  The call of \<open>db.song.findMany\<close> gives the database a \<open>where\<close> clause and
  one sort key. \<open>query_result\<close> holds of every list the database may answer with:
  the rows that satisfy the clause, each as often as the table has it, in an order
  that is descending in the creation time. How rows of one creation time are ordered
  is left to the database.
\<close>

definition query_result :: "string \<Rightarrow> song_row list \<Rightarrow> song_row list \<Rightarrow> bool" where
  "query_result uid table ys \<longleftrightarrow>
     mset ys = mset (filter (where_clause uid) table) \<and> descending db_createdAt ys"

lemma findMany_VisibilityFilter: "findMany uid table = VisibilityFilter uid table"
  by (simp add: findMany_filter VisibilityFilter_def)

lemma findMany_query_result: "query_result uid table (findMany uid table)"
  by (simp add: query_result_def findMany_filter descending_order_by_desc)

text \<open>
  C15. Whatever the database does with ties, its answer to the query of the code is
  the list the filter of the specification asks for, up to the order among songs of
  one creation time: it holds the same songs as often and the same creation times in
  the same positions, and when the visible songs have different creation times it is
  that list.
\<close>

theorem query_result_determined:
  assumes "query_result uid table ys"
  shows "mset ys = mset (VisibilityFilter uid table)
         \<and> map db_createdAt ys = map db_createdAt (VisibilityFilter uid table)
         \<and> (distinct (map db_createdAt (filter (visible uid) table)) \<longrightarrow>
              ys = VisibilityFilter uid table)"
proof -
  from assms have m: "mset ys = mset (filter (visible uid) table)"
    and d: "descending db_createdAt ys"
    by (simp_all add: query_result_def)
  have "map db_createdAt ys = map db_createdAt (VisibilityFilter uid table)"
    using m d
    by (intro descending_keys_unique)
       (simp_all add: VisibilityFilter_def descending_order_by_desc)
  moreover have "ys = VisibilityFilter uid table"
    if "distinct (map db_createdAt (filter (visible uid) table))"
    using order_by_desc_unique [OF m filter_key_eq_if_distinct [OF m that] d]
    by (simp add: VisibilityFilter_def)
  ultimately show ?thesis
    using m by (simp add: VisibilityFilter_def)
qed

theorem query_result_determined_witness:
  "query_result ''A'' scenario_table
     [row ''S3'' ''B'' True 30, row ''S2'' ''A'' True 20, row ''S1'' ''A'' False 10]
   \<and> distinct (map db_createdAt (filter (visible ''A'') scenario_table))
   \<and> VisibilityFilter ''A'' scenario_table
       = [row ''S3'' ''B'' True 30, row ''S2'' ''A'' True 20, row ''S1'' ''A'' False 10]"
proof -
  let ?ys = "[row ''S3'' ''B'' True 30, row ''S2'' ''A'' True 20, row ''S1'' ''A'' False 10]"
  have q: "query_result ''A'' scenario_table ?ys"
    by (simp add: query_result_def scenario_table_def visible_def)
  have d: "distinct (map db_createdAt (filter (visible ''A'') scenario_table))"
    by (simp add: scenario_table_def visible_def)
  from q d query_result_determined [OF q] show ?thesis
    by simp
qed

text \<open>
  With a tie the query has more than one answer, and only one of them is the list of
  the specification: two songs of one creation time may come in either order.
\<close>

definition tied_table :: "song_row list" where
  "tied_table = [row ''S1'' ''A'' True 10, row ''S2'' ''A'' True 10]"

lemma ties_leave_a_choice:
  "query_result ''A'' tied_table [row ''S1'' ''A'' True 10, row ''S2'' ''A'' True 10]
   \<and> query_result ''A'' tied_table [row ''S2'' ''A'' True 10, row ''S1'' ''A'' True 10]
   \<and> VisibilityFilter ''A'' tied_table = [row ''S1'' ''A'' True 10, row ''S2'' ''A'' True 10]"
  by (simp add: query_result_def tied_table_def visible_def VisibilityFilter_def
        order_by_desc_def row_def)

section \<open>What a viewer sees\<close>

text \<open>
  C3. A row of another user that is not published is never returned, whatever the
  table holds: a foreign row in the result is a published one.
\<close>

theorem findMany_no_leak:
  assumes "s \<in> set (findMany uid table)" and "db_userId s \<noteq> uid"
  shows "db_published s"
  using assms by (auto simp: findMany_set visible_def)

theorem findMany_no_leak_witness:
  "row ''S3'' ''B'' True 30 \<in> set (findMany ''A'' scenario_table)
   \<and> db_userId (row ''S3'' ''B'' True 30) \<noteq> ''A''
   \<and> db_published (row ''S3'' ''B'' True 30)"
proof -
  have m: "row ''S3'' ''B'' True 30 \<in> set (findMany ''A'' scenario_table)"
    by (simp add: findMany_set scenario_table_def visible_def)
  have o: "db_userId (row ''S3'' ''B'' True 30) \<noteq> ''A''"
    by simp
  from m o findMany_no_leak [OF m o] show ?thesis by simp
qed

text \<open>
  The viewer's own rows are all returned, published or not.
\<close>

lemma findMany_own:
  assumes "s \<in> set table" and "db_userId s = uid"
  shows "s \<in> set (findMany uid table)"
  using assms by (simp add: findMany_set visible_def)

lemma findMany_own_example:
  "row ''S1'' ''A'' False 10 \<in> set scenario_table
   \<and> db_userId (row ''S1'' ''A'' False 10) = ''A''
   \<and> row ''S1'' ''A'' False 10 \<in> set (findMany ''A'' scenario_table)"
proof -
  have m: "row ''S1'' ''A'' False 10 \<in> set scenario_table"
    by (simp add: scenario_table_def)
  have o: "db_userId (row ''S1'' ''A'' False 10) = ''A''"
    by simp
  from m o findMany_own [OF m o] show ?thesis by simp
qed

text \<open>
  The scenario of the specification: A owns S1 (unpublished) and S2 (published),
  B owns S3 (published) and S4 (unpublished). A sees S3, S2, S1 and B sees S4, S3, S2,
  most recent first.
\<close>

lemma findMany_scenario:
  "map db_id (findMany ''A'' scenario_table) = [''S3'', ''S2'', ''S1'']
   \<and> map db_id (findMany ''B'' scenario_table) = [''S4'', ''S3'', ''S2'']"
  by (simp add: findMany_def scenario_table_def visible_def order_by_desc_def)

end
