(* ===== verification/Projector.thy ===== *)
theory Projector
  imports Visibility
begin

text \<open>
  The server component \<open>HomeSongsFetcher\<close> (\<open>home-songs-fetcher.tsx\<close>) after its
  query: the thumbnail of a row (\<open>resolve_thumbnail\<close>, the conditional around
  \<open>getPreSignedUrl\<close>), the object literal built for a row (\<open>project\<close>), the
  asynchronous callback of \<open>songs.map\<close> (\<open>song_with_thumbnail\<close>), the
  \<open>Promise.all\<close> over the rows (\<open>songsWithThumbnails\<close>) and the component
  itself, which redirects without a session, rejects when the query or a signer call
  rejects and otherwise renders the grid with the projected songs.

  What the component awaits is its environment \<open>server_env\<close>: the outcome of
  \<open>getSession\<close>, the outcome of the query's table read, and the signer, a function
  from a storage key to the outcome of signing it (one outcome per key during one
  render). The code has no \<open>try\<close> around its awaits, so a rejection of any of them
  is the rejection of the component: \<open>Rejected\<close>.

  The last section has \<open>conforms\<close>, the view-level song of the specification as a
  relation between a row and the props made of it, lifted to lists with
  \<open>list_all2\<close>.
\<close>

section \<open>Thumbnails and the projection of a row\<close>

type_synonym signer = "string \<Rightarrow> string settled"

definition resolve_thumbnail :: "signer \<Rightarrow> song_row \<Rightarrow> nstring settled" where
  "resolve_thumbnail sign song =
     (case db_thumbnailS3Key song of
        None \<Rightarrow> Inr None
      | Some key \<Rightarrow>
          if truthy (Some key) then map_sum id Some (sign key) else Inr None)"

definition project :: "string \<Rightarrow> song_row \<Rightarrow> nstring \<Rightarrow> SongCardProps" where
  "project uid song thumbnailUrl' =
     \<lparr>song_id = db_id song,
      title = db_title song,
      createdAt = db_createdAt song,
      instrumental = db_instrumental song,
      prompt = db_prompt song,
      lyrics = db_lyrics song,
      describedLyrics = db_describedLyrics song,
      fullDescribedSong = db_fullDescribedSong song,
      thumbnailUrl = thumbnailUrl',
      playUrl = None,
      status = db_status song,
      createdByUserName = (case db_user song of None \<Rightarrow> None | Some u \<Rightarrow> name u),
      published = db_published song,
      isOwnSong = Some (db_userId song = uid)\<rparr>"

definition song_with_thumbnail :: "signer \<Rightarrow> string \<Rightarrow> song_row \<Rightarrow> SongCardProps settled" where
  "song_with_thumbnail sign uid song =
     map_sum id (project uid song) (resolve_thumbnail sign song)"

definition songsWithThumbnails ::
  "signer \<Rightarrow> string \<Rightarrow> song_row list \<Rightarrow> SongCardProps list settled" where
  "songsWithThumbnails sign uid songs = promise_all (map (song_with_thumbnail sign uid) songs)"

section \<open>The component\<close>

datatype 'a response = Redirect string | Rejected thrown | Rendered 'a

record server_env =
  getSession :: "session option settled"
  song_table :: "song_row list settled"
  getPreSignedUrl :: signer

definition HomeSongsFetcher :: "server_env \<Rightarrow> SongCardProps list response" where
  "HomeSongsFetcher env =
     (case getSession env of
        Inl e \<Rightarrow> Rejected e
      | Inr None \<Rightarrow> Redirect ''/auth/sign-in''
      | Inr (Some session) \<Rightarrow>
          (case song_table env of
             Inl e \<Rightarrow> Rejected e
           | Inr table \<Rightarrow>
               (case songsWithThumbnails (getPreSignedUrl env) (user_id session)
                       (findMany (user_id session) table) of
                  Inl e \<Rightarrow> Rejected e
                | Inr songs \<Rightarrow> Rendered songs)))"

declare resolve_thumbnail_def [mg_defs] song_with_thumbnail_def [mg_defs]
  songsWithThumbnails_def [mg_defs]

section \<open>Rows whose thumbnail resolves\<close>

text \<open>
  \<open>signed_ok sign song\<close>: the row needs no signature or its key signs;
  \<open>thumbnail_of sign song\<close> is the thumbnail it then gets.
\<close>

definition signed_ok :: "signer \<Rightarrow> song_row \<Rightarrow> bool" where
  "signed_ok sign song \<longleftrightarrow> \<not> isl (resolve_thumbnail sign song)"

definition thumbnail_of :: "signer \<Rightarrow> song_row \<Rightarrow> nstring" where
  "thumbnail_of sign song =
     (case resolve_thumbnail sign song of Inl e \<Rightarrow> None | Inr t \<Rightarrow> t)"

lemma project_sel [simp]:
  "song_id (project uid song t) = db_id song"
  "title (project uid song t) = db_title song"
  "createdAt (project uid song t) = db_createdAt song"
  "prompt (project uid song t) = db_prompt song"
  "thumbnailUrl (project uid song t) = t"
  "playUrl (project uid song t) = None"
  "published (project uid song t) = db_published song"
  "isOwnSong (project uid song t) = Some (db_userId song = uid)"
  by (simp_all add: project_def)

lemma resolve_thumbnail_no_key:
  "\<not> truthy (db_thumbnailS3Key song) \<Longrightarrow> resolve_thumbnail sign song = Inr None"
  by (auto simp: resolve_thumbnail_def split: option.splits)

lemma resolve_thumbnail_key:
  "db_thumbnailS3Key song = Some key \<Longrightarrow> key \<noteq> [] \<Longrightarrow>
     resolve_thumbnail sign song = map_sum id Some (sign key)"
  by (simp add: resolve_thumbnail_def)

lemma resolve_thumbnail_cong:
  assumes "\<And>key. db_thumbnailS3Key song = Some key \<Longrightarrow> key \<noteq> [] \<Longrightarrow> sign key = sign' key"
  shows "resolve_thumbnail sign song = resolve_thumbnail sign' song"
  using assms by (auto simp: resolve_thumbnail_def split: option.splits)

lemma song_with_thumbnail_Inr_iff:
  "song_with_thumbnail sign uid song = Inr p \<longleftrightarrow>
     signed_ok sign song \<and> p = project uid song (thumbnail_of sign song)"
  by (cases "resolve_thumbnail sign song")
     (auto simp: song_with_thumbnail_def signed_ok_def thumbnail_of_def)

lemma song_with_thumbnail_Inl_iff:
  "(\<exists>e. song_with_thumbnail sign uid song = Inl e) \<longleftrightarrow> \<not> signed_ok sign song"
  by (cases "resolve_thumbnail sign song")
     (auto simp: song_with_thumbnail_def signed_ok_def)

lemma songsWithThumbnails_Inr_iff:
  "songsWithThumbnails sign uid songs = Inr ps \<longleftrightarrow>
     list_all (signed_ok sign) songs \<and>
     ps = map (\<lambda>song. project uid song (thumbnail_of sign song)) songs"
proof (induction songs arbitrary: ps)
  case Nil
  show ?case by (auto simp: songsWithThumbnails_def)
next
  case (Cons song songs)
  show ?case
  proof (cases "song_with_thumbnail sign uid song")
    case (Inl e)
    then have "\<not> signed_ok sign song"
      using song_with_thumbnail_Inl_iff by blast
    with Inl show ?thesis by (simp add: songsWithThumbnails_def)
  next
    case (Inr p)
    then have p: "signed_ok sign song" "p = project uid song (thumbnail_of sign song)"
      by (simp_all add: song_with_thumbnail_Inr_iff)
    show ?thesis
    proof (cases "songsWithThumbnails sign uid songs")
      case (Inl e)
      with Cons.IH have "\<not> list_all (signed_ok sign) songs" by auto
      with Inl Inr show ?thesis by (simp add: songsWithThumbnails_def)
    next
      case Inr': (Inr qs)
      with Cons.IH [of qs] Inr p show ?thesis
        by (auto simp: songsWithThumbnails_def)
    qed
  qed
qed

lemma songsWithThumbnails_ok:
  "list_all (signed_ok sign) songs \<Longrightarrow>
     songsWithThumbnails sign uid songs =
       Inr (map (\<lambda>song. project uid song (thumbnail_of sign song)) songs)"
  by (simp add: songsWithThumbnails_Inr_iff)

lemma songsWithThumbnails_Inl_iff:
  "(\<exists>e. songsWithThumbnails sign uid songs = Inl e) \<longleftrightarrow> \<not> list_all (signed_ok sign) songs"
proof
  assume "\<exists>e. songsWithThumbnails sign uid songs = Inl e"
  then obtain e where e: "songsWithThumbnails sign uid songs = Inl e" ..
  show "\<not> list_all (signed_ok sign) songs"
  proof
    assume "list_all (signed_ok sign) songs"
    from songsWithThumbnails_ok [OF this, of uid] e show False by simp
  qed
next
  assume "\<not> list_all (signed_ok sign) songs"
  then show "\<exists>e. songsWithThumbnails sign uid songs = Inl e"
    by (cases "songsWithThumbnails sign uid songs") (auto simp: songsWithThumbnails_Inr_iff)
qed

lemma songsWithThumbnails_rejection:
  assumes "songsWithThumbnails sign uid songs = Inl e"
  shows "\<exists>song \<in> set songs. resolve_thumbnail sign song = Inl e"
proof -
  from assms have "Inl e \<in> set (map (song_with_thumbnail sign uid) songs)"
    unfolding songsWithThumbnails_def by (rule promise_all_Inl_mem)
  then obtain song where "song \<in> set songs" "song_with_thumbnail sign uid song = Inl e"
    by auto
  then show ?thesis
    by (cases "resolve_thumbnail sign song") (auto simp: song_with_thumbnail_def)
qed

lemma HomeSongsFetcher_Rendered_iff:
  "HomeSongsFetcher env = Rendered ps \<longleftrightarrow>
     (\<exists>session table.
        getSession env = Inr (Some session) \<and> song_table env = Inr table \<and>
        songsWithThumbnails (getPreSignedUrl env) (user_id session)
          (findMany (user_id session) table) = Inr ps)"
  by (auto simp: HomeSongsFetcher_def split: sum.splits option.splits)

section \<open>A view-level song that conforms to its row\<close>

text \<open>
  \<open>conforms uid song p\<close>: \<open>p\<close> is a view-level song of the row \<open>song\<close> for the
  viewer \<open>uid\<close> as the specification describes one: the fields of the row carried
  over, no play URL yet, the owner's name, the own-song flag of this viewer, and a
  thumbnail exactly when the row has a non-empty storage key.
\<close>

definition conforms :: "string \<Rightarrow> song_row \<Rightarrow> SongCardProps \<Rightarrow> bool" where
  "conforms uid song p \<longleftrightarrow>
     song_id p = db_id song \<and> title p = db_title song \<and> createdAt p = db_createdAt song
     \<and> instrumental p = db_instrumental song \<and> prompt p = db_prompt song
     \<and> lyrics p = db_lyrics song \<and> describedLyrics p = db_describedLyrics song
     \<and> fullDescribedSong p = db_fullDescribedSong song \<and> status p = db_status song
     \<and> published p = db_published song \<and> playUrl p = None
     \<and> createdByUserName p = (case db_user song of None \<Rightarrow> None | Some u \<Rightarrow> name u)
     \<and> isOwnSong p = Some (db_userId song = uid)
     \<and> (thumbnailUrl p = None) = (\<not> truthy (db_thumbnailS3Key song))"

lemma thumbnail_of_None_iff:
  assumes "signed_ok sign song"
  shows "thumbnail_of sign song = None \<longleftrightarrow> \<not> truthy (db_thumbnailS3Key song)"
proof (cases "truthy (db_thumbnailS3Key song)")
  case False
  then show ?thesis
    by (simp add: thumbnail_of_def resolve_thumbnail_no_key)
next
  case True
  then obtain key where "db_thumbnailS3Key song = Some key" "key \<noteq> []"
    by (auto simp: truthy_iff)
  with assms True show ?thesis
    by (cases "sign key") (simp_all add: thumbnail_of_def signed_ok_def resolve_thumbnail_key)
qed

lemma project_conforms:
  "signed_ok sign song \<Longrightarrow> conforms uid song (project uid song (thumbnail_of sign song))"
  by (simp add: conforms_def project_def thumbnail_of_None_iff)

lemma songsWithThumbnails_conform:
  assumes "songsWithThumbnails sign uid songs = Inr ps"
  shows "list_all2 (conforms uid) songs ps"
  using assms
  by (auto simp: songsWithThumbnails_Inr_iff list_all2_map_right list_all_iff
      intro: project_conforms)

section \<open>Examples: rows with keys, signers, environments\<close>

definition keyed_row :: "string \<Rightarrow> string \<Rightarrow> bool \<Rightarrow> int \<Rightarrow> string \<Rightarrow> song_row" where
  "keyed_row i owner pub t key = (row i owner pub t)\<lparr>db_thumbnailS3Key := Some key\<rparr>"

definition signer_down :: signer where
  "signer_down key = Inl (ErrorObj ''signer unavailable'')"

definition signer_up :: signer where
  "signer_up key = Inr (''https://cdn/'' @ key)"

definition signer_flaky :: signer where
  "signer_flaky key = (if key = ''bad'' then Inl (ErrorObj ''denied'') else signer_up key)"

definition env_of :: "session option \<Rightarrow> song_row list \<Rightarrow> signer \<Rightarrow> server_env" where
  "env_of s table sign = \<lparr>getSession = Inr s, song_table = Inr table, getPreSignedUrl = sign\<rparr>"

lemma keyed_row_sel [simp]:
  "db_id (keyed_row i owner pub t key) = i"
  "db_userId (keyed_row i owner pub t key) = owner"
  "db_published (keyed_row i owner pub t key) = pub"
  "db_createdAt (keyed_row i owner pub t key) = t"
  "db_thumbnailS3Key (keyed_row i owner pub t key) = Some key"
  by (simp_all add: keyed_row_def)

lemma env_of_sel [simp]:
  "getSession (env_of s table sign) = Inr s"
  "song_table (env_of s table sign) = Inr table"
  "getPreSignedUrl (env_of s table sign) = sign"
  by (simp_all add: env_of_def)

lemmas example_defs = signer_down_def signer_up_def signer_flaky_def scenario_table_def

section \<open>Properties of the projection\<close>

text \<open>
  When the batch resolves, it holds one view-level song per row, at the row's
  position: the identifiers of the result are the identifiers of the rows, in the
  order of the query.
\<close>

lemma songsWithThumbnails_positional:
  assumes "songsWithThumbnails sign uid songs = Inr ps"
  shows "map song_id ps = map db_id songs"
  using assms by (simp add: songsWithThumbnails_Inr_iff comp_def)

lemma songsWithThumbnails_positional_example:
  "songsWithThumbnails signer_up ''A'' [keyed_row ''S1'' ''A'' False 10 ''k1'', row ''S2'' ''B'' True 5]
     = Inr [project ''A'' (keyed_row ''S1'' ''A'' False 10 ''k1'') (Some ''https://cdn/k1''),
            project ''A'' (row ''S2'' ''B'' True 5) None]
   \<and> map song_id
        [project ''A'' (keyed_row ''S1'' ''A'' False 10 ''k1'') (Some ''https://cdn/k1''),
         project ''A'' (row ''S2'' ''B'' True 5) None]
     = map db_id [keyed_row ''S1'' ''A'' False 10 ''k1'', row ''S2'' ''B'' True 5]"
proof -
  have r: "songsWithThumbnails signer_up ''A''
             [keyed_row ''S1'' ''A'' False 10 ''k1'', row ''S2'' ''B'' True 5]
     = Inr [project ''A'' (keyed_row ''S1'' ''A'' False 10 ''k1'') (Some ''https://cdn/k1''),
            project ''A'' (row ''S2'' ''B'' True 5) None]"
    by (simp add: mg_defs example_defs)
  from r songsWithThumbnails_positional [OF r] show ?thesis by simp
qed

text \<open>
  The flag \<open>isOwnSong\<close> of a projected song says whether the viewer owns the
  row, and its play URL is never resolved by the projection.
\<close>

lemma project_isOwnSong:
  "isOwnSong (project uid song t) = Some (db_userId song = uid) \<and> playUrl (project uid song t) = None"
  by (simp add: project_def)

text \<open>
  A row without a storage key (absent or empty) gets no thumbnail and the signer
  is not consulted: the result is the same for every signer, also one that rejects
  every key.
\<close>

lemma no_key_no_signer:
  assumes "\<not> truthy (db_thumbnailS3Key song)"
  shows "song_with_thumbnail sign uid song = Inr (project uid song None)"
  using assms by (simp add: song_with_thumbnail_def resolve_thumbnail_no_key)

lemma no_key_no_signer_example:
  "\<not> truthy (db_thumbnailS3Key (row ''S1'' ''A'' False 10))
   \<and> song_with_thumbnail signer_down ''A'' (row ''S1'' ''A'' False 10)
       = Inr (project ''A'' (row ''S1'' ''A'' False 10) None)"
proof -
  have k: "\<not> truthy (db_thumbnailS3Key (row ''S1'' ''A'' False 10))"
    by simp
  from k no_key_no_signer [OF k] show ?thesis by simp
qed

text \<open>
  The batch depends on the signer only through the keys of its rows: two signers
  that agree on the non-empty keys of the rows give the same batch.
\<close>

lemma songsWithThumbnails_keys_only:
  assumes "\<And>song key. song \<in> set songs \<Longrightarrow> db_thumbnailS3Key song = Some key \<Longrightarrow>
             key \<noteq> [] \<Longrightarrow> sign key = sign' key"
  shows "songsWithThumbnails sign uid songs = songsWithThumbnails sign' uid songs"
proof -
  have "song_with_thumbnail sign uid song = song_with_thumbnail sign' uid song"
    if "song \<in> set songs" for song
    using that assms resolve_thumbnail_cong [of song sign sign']
    by (simp add: song_with_thumbnail_def)
  then show ?thesis
    by (simp add: songsWithThumbnails_def cong: map_cong)
qed

lemma songsWithThumbnails_keys_only_example:
  "songsWithThumbnails signer_flaky ''A'' [keyed_row ''S1'' ''A'' False 10 ''k1'']
     = songsWithThumbnails signer_up ''A'' [keyed_row ''S1'' ''A'' False 10 ''k1'']"
  by (rule songsWithThumbnails_keys_only) (auto simp: signer_flaky_def)

text \<open>
  C13. One thumbnail that fails to sign rejects the whole batch: the code awaits the
  signer inside \<open>Promise.all\<close> without catching, so the failure is not degraded to
  a missing thumbnail and the sibling rows are lost with it.
\<close>

theorem one_failure_rejects_batch:
  assumes "song \<in> set songs" and "db_thumbnailS3Key song = Some key" and "key \<noteq> []"
    and "sign key = Inl e"
  shows "\<exists>e'. songsWithThumbnails sign uid songs = Inl e'"
proof -
  from assms(2-4) have "\<not> signed_ok sign song"
    by (simp add: signed_ok_def resolve_thumbnail_key)
  with assms(1) have "\<not> list_all (signed_ok sign) songs"
    by (auto simp: list_all_iff)
  then show ?thesis
    by (simp add: songsWithThumbnails_Inl_iff)
qed

theorem one_failure_rejects_batch_witness:
  "keyed_row ''S2'' ''A'' True 20 ''bad''
     \<in> set [keyed_row ''S1'' ''A'' False 10 ''k1'', keyed_row ''S2'' ''A'' True 20 ''bad'']
   \<and> db_thumbnailS3Key (keyed_row ''S2'' ''A'' True 20 ''bad'') = Some ''bad''
   \<and> ''bad'' \<noteq> []
   \<and> signer_flaky ''bad'' = Inl (ErrorObj ''denied'')
   \<and> (\<exists>e'. songsWithThumbnails signer_flaky ''A''
          [keyed_row ''S1'' ''A'' False 10 ''k1'', keyed_row ''S2'' ''A'' True 20 ''bad''] = Inl e')"
proof -
  have m: "keyed_row ''S2'' ''A'' True 20 ''bad''
     \<in> set [keyed_row ''S1'' ''A'' False 10 ''k1'', keyed_row ''S2'' ''A'' True 20 ''bad'']"
    by simp
  have k: "db_thumbnailS3Key (keyed_row ''S2'' ''A'' True 20 ''bad'') = Some ''bad''"
    by simp
  have n: "''bad'' \<noteq> []" by simp
  have f: "signer_flaky ''bad'' = Inl (ErrorObj ''denied'')"
    by (simp add: signer_flaky_def)
  from m k n f one_failure_rejects_batch [where sign = signer_flaky and uid = "''A''", OF m k n f]
  show ?thesis by blast
qed

text \<open>
  The rejection the batch reports is the rejection of the signer for one of the
  rows: no error is invented.
\<close>

lemma batch_rejection_is_a_signer_rejection:
  assumes "songsWithThumbnails sign uid songs = Inl e"
  shows "\<exists>song \<in> set songs. \<exists>key. db_thumbnailS3Key song = Some key \<and> sign key = Inl e"
proof -
  from assms obtain song where "song \<in> set songs" "resolve_thumbnail sign song = Inl e"
    using songsWithThumbnails_rejection by blast
  then show ?thesis
    by (cases "db_thumbnailS3Key song")
       (auto simp: resolve_thumbnail_def map_sum_def split: if_splits sum.splits)
qed

lemma batch_rejection_is_a_signer_rejection_example:
  "songsWithThumbnails signer_flaky ''A'' [keyed_row ''S2'' ''A'' True 20 ''bad'']
     = Inl (ErrorObj ''denied'')
   \<and> (\<exists>song \<in> set [keyed_row ''S2'' ''A'' True 20 ''bad''].
         \<exists>key. db_thumbnailS3Key song = Some key \<and> signer_flaky key = Inl (ErrorObj ''denied''))"
proof -
  have r: "songsWithThumbnails signer_flaky ''A'' [keyed_row ''S2'' ''A'' True 20 ''bad'']
     = Inl (ErrorObj ''denied'')"
    by (simp add: mg_defs example_defs)
  from r batch_rejection_is_a_signer_rejection [OF r] show ?thesis by blast
qed

section \<open>Properties of the component\<close>

text \<open>
  Without a session the component redirects to the sign-in page and nothing of
  the table or the signer reaches its result.
\<close>

lemma HomeSongsFetcher_no_session:
  assumes "getSession env = Inr None"
  shows "HomeSongsFetcher env = Redirect ''/auth/sign-in''"
  using assms by (simp add: HomeSongsFetcher_def)

lemma HomeSongsFetcher_no_session_example:
  "getSession (env_of None scenario_table signer_up) = Inr None
   \<and> HomeSongsFetcher (env_of None scenario_table signer_up) = Redirect ''/auth/sign-in''"
proof -
  have s: "getSession (env_of None scenario_table signer_up) = Inr None"
    by simp
  from s HomeSongsFetcher_no_session [OF s] show ?thesis by simp
qed

text \<open>
  C31. What the component renders: with a session, a table and every needed thumbnail
  signed, it renders the projection of the rows the query returns for the session's
  user, in the query's order, each with its signed thumbnail.
\<close>

theorem HomeSongsFetcher_renders_query:
  assumes "getSession env = Inr (Some s)" and "song_table env = Inr table"
    and "list_all (signed_ok (getPreSignedUrl env)) (findMany (user_id s) table)"
  shows "HomeSongsFetcher env =
           Rendered (map (\<lambda>song. project (user_id s) song (thumbnail_of (getPreSignedUrl env) song))
                       (findMany (user_id s) table))"
  using assms by (simp add: HomeSongsFetcher_def songsWithThumbnails_ok)

theorem HomeSongsFetcher_renders_query_witness:
  "map song_id
     (case HomeSongsFetcher (env_of (Some \<lparr>user_id = ''A''\<rparr>) scenario_table signer_down) of
        Rendered ps \<Rightarrow> ps | _ \<Rightarrow> [])
   = [''S3'', ''S2'', ''S1'']"
proof -
  let ?env = "env_of (Some \<lparr>user_id = ''A''\<rparr>) scenario_table signer_down"
  have q: "findMany ''A'' scenario_table
             = [row ''S3'' ''B'' True 30, row ''S2'' ''A'' True 20, row ''S1'' ''A'' False 10]"
    by (simp add: findMany_def scenario_table_def visible_def order_by_desc_def)
  have ok: "list_all (signed_ok (getPreSignedUrl ?env))
              (findMany (user_id \<lparr>user_id = ''A''\<rparr>) scenario_table)"
    by (simp add: q signed_ok_def resolve_thumbnail_no_key)
  from HomeSongsFetcher_renders_query [of ?env "\<lparr>user_id = ''A''\<rparr>" scenario_table, OF _ _ ok]
  show ?thesis by (simp add: q)
qed

end
