(* ===== verification/Home_Page.thy ===== *)
theory Home_Page
  imports Projector
begin

text \<open>
  The page \<open>HomePage\<close> (\<open>app/(main)/page.tsx\<close>) and the two buttons beside the
  library, \<open>Upgrade\<close> (\<open>sidebar/upgrade.tsx\<close>) and \<open>CreateSong\<close>
  (\<open>create.tsx\<close>).

  The page asks for the session itself, redirects without one and otherwise renders
  its heading around \<open>HomeSongsFetcher\<close>, which asks for the session again. The two
  calls are two reads of the environment: \<open>page_session\<close> is the outcome of the
  page's call and the \<open>server_env\<close> holds the outcome of the fetcher's.

  \<open>Upgrade\<close> has one asynchronous handler, written like the card's in the part up
  to its \<open>await\<close> (the products it passes to \<open>checkout\<close>) and the part after it
  (the \<open>catch\<close>). \<open>CreateSong\<close> hands the server action \<open>queueSong\<close> to its button
  as the click handler; the action itself is not part of these sources.
\<close>

section \<open>The page\<close>

record page_view =
  pv_heading :: string
  pv_text :: string
  pv_songs :: "SongCardProps list"

definition HomePage :: "session option settled \<Rightarrow> server_env \<Rightarrow> page_view response" where
  "HomePage page_session env =
     (case page_session of
        Inl e \<Rightarrow> Rejected e
      | Inr None \<Rightarrow> Redirect ''/auth/sign-in''
      | Inr (Some session) \<Rightarrow>
          (case HomeSongsFetcher env of
             Redirect path \<Rightarrow> Redirect path
           | Rejected e \<Rightarrow> Rejected e
           | Rendered songs \<Rightarrow>
               Rendered \<lparr>pv_heading = ''Discover Music'',
                         pv_text = ''Explore amazing songs created by our community'',
                         pv_songs = songs\<rparr>))"

section \<open>The upgrade button\<close>

definition upgrade_products :: "string list" where
  "upgrade_products =
     [''a209b547-608c-44e7-9178-4976a73c7135'',
      ''11bce5cb-bfda-4c8f-afcc-4a512e2d7361'',
      ''7ddf3794-111c-45ba-bd4c-36935d8ed81b'']"

definition upgrade_call :: "string list" where
  "upgrade_call = upgrade_products"

definition upgrade_resume :: "unit settled \<Rightarrow> (string \<times> string) list \<Rightarrow> (string \<times> string) list" where
  "upgrade_resume outcome console =
     (case outcome of
        Inr u \<Rightarrow> console
      | Inl e \<Rightarrow> console @ [(''Failed to start checkout:'', error_text e)])"

record button_view =
  bv_label :: string
  bv_variant :: string
  bv_size :: string

definition Upgrade :: button_view where
  "Upgrade = \<lparr>bv_label = ''Upgrade'', bv_variant = ''outline'', bv_size = ''sm''\<rparr>"

section \<open>The generation button\<close>

datatype server_action = QueueSong

record action_button =
  ab_label :: string
  ab_onClick :: server_action

definition CreateSong :: action_button where
  "CreateSong = \<lparr>ab_label = ''Generate Song'', ab_onClick = QueueSong\<rparr>"

section \<open>Facts about the page\<close>

lemma HomePage_Rendered_iff:
  "HomePage page_session env = Rendered v \<longleftrightarrow>
     (\<exists>session songs. page_session = Inr (Some session) \<and> HomeSongsFetcher env = Rendered songs
        \<and> v = \<lparr>pv_heading = ''Discover Music'',
                 pv_text = ''Explore amazing songs created by our community'',
                 pv_songs = songs\<rparr>)"
proof (cases page_session)
  case (Inl e)
  then show ?thesis by (simp add: HomePage_def)
next
  case (Inr so)
  then show ?thesis
    by (cases so; cases "HomeSongsFetcher env") (auto simp: HomePage_def)
qed

lemma HomeSongsFetcher_Redirect_iff:
  "HomeSongsFetcher env = Redirect path \<longleftrightarrow> getSession env = Inr None \<and> path = ''/auth/sign-in''"
proof (cases "getSession env")
  case (Inl e)
  then show ?thesis by (simp add: HomeSongsFetcher_def)
next
  case (Inr so)
  then show ?thesis
    by (cases so; cases "song_table env")
       (auto simp: HomeSongsFetcher_def split: sum.splits)
qed

lemma HomeSongsFetcher_Rendered_session:
  "HomeSongsFetcher env = Rendered songs \<Longrightarrow> \<exists>s. getSession env = Inr (Some s)"
  by (auto simp: HomeSongsFetcher_Rendered_iff)

lemma HomePage_no_page_session [simp]: "HomePage (Inr None) env = Redirect ''/auth/sign-in''"
  by (simp add: HomePage_def)

lemma HomePage_no_fetcher_session [simp]:
  "getSession env = Inr None \<Longrightarrow> HomePage (Inr (Some s)) env = Redirect ''/auth/sign-in''"
  by (simp add: HomePage_def HomeSongsFetcher_def)

lemma HomePage_Redirect:
  assumes "HomePage page_session env = Redirect path"
  shows "path = ''/auth/sign-in''"
proof (cases "HomeSongsFetcher env")
  case (Redirect p)
  then have "p = ''/auth/sign-in''"
    by (simp add: HomeSongsFetcher_Redirect_iff)
  with Redirect assms show ?thesis
    by (auto simp: HomePage_def split: sum.splits option.splits)
next
  case (Rejected e)
  with assms show ?thesis
    by (auto simp: HomePage_def split: sum.splits option.splits)
next
  case (Rendered songs)
  with assms show ?thesis
    by (auto simp: HomePage_def split: sum.splits option.splits)
qed

section \<open>Properties of the page and the buttons\<close>

text \<open>
  C32. The library is rendered only for a signed-in viewer: when the page renders,
  both session reads returned a session; without a session at either read the page
  redirects to the sign-in page, and it never redirects anywhere else.
\<close>

theorem HomePage_requires_session:
  "(HomePage page_session env = Rendered v \<longrightarrow>
      (\<exists>s s'. page_session = Inr (Some s) \<and> getSession env = Inr (Some s')))
   \<and> (HomePage page_session env = Redirect path \<longrightarrow> path = ''/auth/sign-in'')
   \<and> (page_session = Inr None \<longrightarrow> HomePage page_session env = Redirect ''/auth/sign-in'')
   \<and> (page_session = Inr (Some s) \<and> getSession env = Inr None \<longrightarrow>
        HomePage page_session env = Redirect ''/auth/sign-in'')"
  using HomeSongsFetcher_Rendered_session [of env]
  by (auto simp: HomePage_Rendered_iff dest: HomePage_Redirect)

theorem HomePage_requires_session_witness:
  "HomePage (Inr (Some \<lparr>user_id = ''A''\<rparr>)) (env_of None scenario_table signer_up)
     = Redirect ''/auth/sign-in''
   \<and> HomePage (Inr None) (env_of (Some \<lparr>user_id = ''A''\<rparr>) scenario_table signer_up)
     = Redirect ''/auth/sign-in''
   \<and> map song_id (case HomePage (Inr (Some \<lparr>user_id = ''A''\<rparr>))
                         (env_of (Some \<lparr>user_id = ''A''\<rparr>) scenario_table signer_up) of
                    Rendered v \<Rightarrow> pv_songs v | _ \<Rightarrow> [])
     = [''S3'', ''S2'', ''S1'']"
proof -
  have "HomePage (Inr (Some \<lparr>user_id = ''A''\<rparr>)) (env_of None scenario_table signer_up)
     = Redirect ''/auth/sign-in''"
    using HomePage_requires_session
      [of "Inr (Some \<lparr>user_id = ''A''\<rparr>)" "env_of None scenario_table signer_up" _ _ "\<lparr>user_id = ''A''\<rparr>"]
    by simp
  moreover have "HomePage (Inr None) (env_of (Some \<lparr>user_id = ''A''\<rparr>) scenario_table signer_up)
     = Redirect ''/auth/sign-in''"
    by (simp add: HomePage_def)
  moreover have "findMany ''A'' scenario_table
             = [row ''S3'' ''B'' True 30, row ''S2'' ''A'' True 20, row ''S1'' ''A'' False 10]"
    by (simp add: findMany_def scenario_table_def visible_def order_by_desc_def)
  ultimately show ?thesis
    by (simp add: HomePage_def HomeSongsFetcher_def mg_defs)
qed

text \<open>
  The checkout handler offers the three products of the source, all different, and
  contains its failure: a rejected checkout adds one line to the console and a
  resolved one adds nothing.
\<close>

lemma upgrade_contains_failure:
  "upgrade_resume (Inl e) console = console @ [(''Failed to start checkout:'', error_text e)]
   \<and> upgrade_resume (Inr u) console = console
   \<and> length upgrade_call = 3 \<and> distinct upgrade_call"
  by (simp add: upgrade_resume_def upgrade_call_def upgrade_products_def)

end
