(* ===== verification/Server_Calls.thy ===== *)
theory Server_Calls
  imports Home_Page "HOL-Library.State_Monad"
begin

text \<open>
  The server components with their calls in the order they are made. \<open>Projector\<close>
  and \<open>Home_Page\<close> give the result of \<open>HomeSongsFetcher\<close> and \<open>HomePage\<close> as a
  function of the outcomes of their awaits; here the same code is written in the state
  monad over the list of the calls made so far, so that which collaborator is
  consulted, in which order and how often is part of the model.

  \<open>await c outcome\<close> is a call of a collaborator: it is appended to the log and its
  outcome, taken from the environment, is handed to the rest of the function. The
  callback of \<open>songs.map\<close> is an \<open>async\<close> function, so every callback runs up to
  its own \<open>await\<close> when \<open>map\<close> calls it: the signer is called for the rows in their
  order, for every row with a key, whether or not an earlier signature fails.
  \<open>State_Monad.traverse_list\<close> is that traversal; \<open>promise_all\<close> then joins the
  outcomes.
\<close>

section \<open>Calls and the log\<close>

datatype server_call = GetSession | FindMany string | GetPreSignedUrl string

type_synonym 'a server = "(server_call list, 'a) state"

definition await :: "server_call \<Rightarrow> 'a \<Rightarrow> 'a server" where
  "await c outcome = do {
     State_Monad.update (\<lambda>log. log @ [c]);
     State_Monad.return outcome
   }"

section \<open>The fetcher and the page, call by call\<close>

definition resolve_thumbnail_io :: "signer \<Rightarrow> song_row \<Rightarrow> nstring settled server" where
  "resolve_thumbnail_io sign song =
     (case db_thumbnailS3Key song of
        None \<Rightarrow> State_Monad.return (Inr None)
      | Some key \<Rightarrow>
          if truthy (Some key) then do {
            u \<leftarrow> await (GetPreSignedUrl key) (sign key);
            State_Monad.return (map_sum id Some u)
          } else State_Monad.return (Inr None))"

definition song_with_thumbnail_io ::
  "signer \<Rightarrow> string \<Rightarrow> song_row \<Rightarrow> SongCardProps settled server" where
  "song_with_thumbnail_io sign uid song = do {
     thumbnailUrl' \<leftarrow> resolve_thumbnail_io sign song;
     State_Monad.return (map_sum id (project uid song) thumbnailUrl')
   }"

definition songsWithThumbnails_io ::
  "signer \<Rightarrow> string \<Rightarrow> song_row list \<Rightarrow> SongCardProps list settled server" where
  "songsWithThumbnails_io sign uid songs = do {
     promises \<leftarrow> traverse_list (song_with_thumbnail_io sign uid) songs;
     State_Monad.return (promise_all promises)
   }"

definition HomeSongsFetcher_io :: "server_env \<Rightarrow> SongCardProps list response server" where
  "HomeSongsFetcher_io env = do {
     session \<leftarrow> await GetSession (getSession env);
     case session of
       Inl e \<Rightarrow> State_Monad.return (Rejected e)
     | Inr None \<Rightarrow> State_Monad.return (Redirect ''/auth/sign-in'')
     | Inr (Some s) \<Rightarrow> do {
         songs \<leftarrow> await (FindMany (user_id s)) (song_table env);
         case songs of
           Inl e \<Rightarrow> State_Monad.return (Rejected e)
         | Inr table \<Rightarrow> do {
             songsWithThumbnails' \<leftarrow>
               songsWithThumbnails_io (getPreSignedUrl env) (user_id s)
                 (findMany (user_id s) table);
             State_Monad.return
               (case songsWithThumbnails' of
                  Inl e \<Rightarrow> Rejected e
                | Inr ps \<Rightarrow> Rendered ps)
           }
       }
   }"

definition HomePage_io :: "session option settled \<Rightarrow> server_env \<Rightarrow> page_view response server" where
  "HomePage_io page_session env = do {
     session \<leftarrow> await GetSession page_session;
     case session of
       Inl e \<Rightarrow> State_Monad.return (Rejected e)
     | Inr None \<Rightarrow> State_Monad.return (Redirect ''/auth/sign-in'')
     | Inr (Some s) \<Rightarrow> do {
         fetched \<leftarrow> HomeSongsFetcher_io env;
         State_Monad.return
           (case fetched of
              Redirect path \<Rightarrow> Redirect path
            | Rejected e \<Rightarrow> Rejected e
            | Rendered songs \<Rightarrow>
                Rendered \<lparr>pv_heading = ''Discover Music'',
                          pv_text = ''Explore amazing songs created by our community'',
                          pv_songs = songs\<rparr>)
       }
   }"

definition calls :: "'a server \<Rightarrow> server_call list" where
  "calls m = snd (run_state m [])"

definition result :: "'a server \<Rightarrow> 'a" where
  "result m = fst (run_state m [])"

section \<open>The keys that are signed\<close>

definition signed_keys :: "song_row list \<Rightarrow> string list" where
  "signed_keys songs =
     concat (map (\<lambda>song. case db_thumbnailS3Key song of
                            None \<Rightarrow> []
                          | Some key \<Rightarrow> if truthy (Some key) then [key] else []) songs)"

fun is_sign :: "server_call \<Rightarrow> bool" where
  "is_sign (GetPreSignedUrl key) = True"
| "is_sign c = False"

section \<open>Running the functions\<close>

lemma run_await [simp]: "run_state (await c outcome) log = (outcome, log @ [c])"
  by (simp add: await_def State_Monad.update_def)

lemma run_resolve_thumbnail_io:
  "run_state (resolve_thumbnail_io sign song) log
     = (resolve_thumbnail sign song, log @ map GetPreSignedUrl (signed_keys [song]))"
  by (simp add: resolve_thumbnail_io_def resolve_thumbnail_def signed_keys_def
      split: option.splits)

lemma run_song_with_thumbnail_io:
  "run_state (song_with_thumbnail_io sign uid song) log
     = (song_with_thumbnail sign uid song, log @ map GetPreSignedUrl (signed_keys [song]))"
  by (simp add: song_with_thumbnail_io_def song_with_thumbnail_def run_resolve_thumbnail_io)

lemma signed_keys_Cons:
  "signed_keys (song # songs) = signed_keys [song] @ signed_keys songs"
  by (simp add: signed_keys_def)

lemma run_traverse_list:
  assumes "\<And>x log. run_state (f x) log = (g x, log @ h x)"
  shows "run_state (traverse_list f xs) log = (map g xs, log @ concat (map h xs))"
  by (induction xs arbitrary: log) (simp_all add: assms)

lemma run_songsWithThumbnails_io:
  "run_state (songsWithThumbnails_io sign uid songs) log
     = (songsWithThumbnails sign uid songs, log @ map GetPreSignedUrl (signed_keys songs))"
proof -
  have "concat (map (\<lambda>song. map GetPreSignedUrl (signed_keys [song])) songs)
          = map GetPreSignedUrl (signed_keys songs)"
    by (induction songs) (simp_all add: signed_keys_def)
  then show ?thesis
    by (simp add: songsWithThumbnails_io_def songsWithThumbnails_def
          run_traverse_list [where g = "song_with_thumbnail sign uid"
            and h = "\<lambda>song. map GetPreSignedUrl (signed_keys [song])",
            OF run_song_with_thumbnail_io])
qed

lemma run_HomeSongsFetcher_io:
  "run_state (HomeSongsFetcher_io env) log =
     (HomeSongsFetcher env,
      log @ GetSession #
        (case getSession env of
           Inr (Some s) \<Rightarrow>
             FindMany (user_id s) #
               (case song_table env of
                  Inr table \<Rightarrow> map GetPreSignedUrl (signed_keys (findMany (user_id s) table))
                | Inl e \<Rightarrow> [])
         | Inr None \<Rightarrow> []
         | Inl e \<Rightarrow> []))"
  by (simp add: HomeSongsFetcher_io_def HomeSongsFetcher_def run_songsWithThumbnails_io
      split: sum.splits option.splits)

lemma run_HomePage_io:
  "run_state (HomePage_io page_session env) log =
     (HomePage page_session env,
      log @ GetSession #
        (case page_session of
           Inr (Some s) \<Rightarrow> snd (run_state (HomeSongsFetcher_io env) [])
         | Inr None \<Rightarrow> []
         | Inl e \<Rightarrow> []))"
  by (simp add: HomePage_io_def HomePage_def run_HomeSongsFetcher_io
      split: sum.splits option.splits)

lemma set_signed_keys:
  "set (signed_keys songs)
     = {key. key \<noteq> [] \<and> (\<exists>song \<in> set songs. db_thumbnailS3Key song = Some key)}"
  by (auto simp: signed_keys_def truthy_iff split: option.splits if_splits)

lemma length_signed_keys: "length (signed_keys songs) \<le> length songs"
  by (induction songs) (simp_all add: signed_keys_def split: option.splits)

lemma run_result_calls:
  "run_state (HomeSongsFetcher_io env) log
     = (result (HomeSongsFetcher_io env), log @ calls (HomeSongsFetcher_io env))"
  "run_state (HomePage_io page_session env) log
     = (result (HomePage_io page_session env), log @ calls (HomePage_io page_session env))"
  by (simp_all add: result_def calls_def run_HomeSongsFetcher_io run_HomePage_io)

lemma calls_HomeSongsFetcher_io:
  "calls (HomeSongsFetcher_io env) =
     GetSession #
       (case getSession env of
          Inr (Some s) \<Rightarrow>
            FindMany (user_id s) #
              (case song_table env of
                 Inr table \<Rightarrow> map GetPreSignedUrl (signed_keys (findMany (user_id s) table))
               | Inl e \<Rightarrow> [])
        | Inr None \<Rightarrow> []
        | Inl e \<Rightarrow> [])"
  by (simp add: calls_def run_HomeSongsFetcher_io)

lemma calls_HomePage_io:
  "calls (HomePage_io page_session env) =
     GetSession #
       (case page_session of
          Inr (Some s) \<Rightarrow> calls (HomeSongsFetcher_io env)
        | Inr None \<Rightarrow> []
        | Inl e \<Rightarrow> [])"
  by (simp add: calls_def run_HomePage_io split: sum.splits option.splits)

lemma sign_call_fetcher:
  assumes "GetPreSignedUrl key \<in> set (calls (HomeSongsFetcher_io env))"
  shows "\<exists>s table song. getSession env = Inr (Some s) \<and> song_table env = Inr table
           \<and> song \<in> set table \<and> visible (user_id s) song
           \<and> db_thumbnailS3Key song = Some key \<and> key \<noteq> []"
proof (cases "getSession env")
  case (Inl e)
  with assms show ?thesis
    by (simp add: calls_HomeSongsFetcher_io)
next
  case (Inr so)
  with assms show ?thesis
    by (cases so; cases "song_table env")
       (auto simp: calls_HomeSongsFetcher_io set_signed_keys findMany_set)
qed

lemma query_call_fetcher:
  assumes "FindMany uid \<in> set (calls (HomeSongsFetcher_io env))"
  shows "\<exists>s. getSession env = Inr (Some s) \<and> user_id s = uid"
proof (cases "getSession env")
  case (Inl e)
  with assms show ?thesis
    by (simp add: calls_HomeSongsFetcher_io)
next
  case (Inr so)
  with assms show ?thesis
    by (cases so) (auto simp: calls_HomeSongsFetcher_io)
qed

lemma fetcher_called:
  assumes "c \<in> set (calls (HomePage_io page_session env))" and "c \<noteq> GetSession"
  shows "(\<exists>s. page_session = Inr (Some s)) \<and> c \<in> set (calls (HomeSongsFetcher_io env))"
proof (cases page_session)
  case (Inl e)
  with assms show ?thesis
    by (simp add: calls_HomePage_io)
next
  case (Inr so)
  with assms show ?thesis
    by (cases so) (auto simp: calls_HomePage_io)
qed

section \<open>A table with storage keys to try the calls on\<close>

definition keyed_table :: "song_row list" where
  "keyed_table =
     [keyed_row ''S1'' ''A'' False 10 ''k1'', keyed_row ''S2'' ''A'' True 20 ''k2'',
      row ''S3'' ''B'' True 30, keyed_row ''S4'' ''B'' False 40 ''k4'']"

definition empty_key_row :: song_row where
  "empty_key_row = keyed_row ''S5'' ''B'' True 50 []"

lemma findMany_keyed_table:
  "findMany ''A'' keyed_table
     = [row ''S3'' ''B'' True 30, keyed_row ''S2'' ''A'' True 20 ''k2'',
        keyed_row ''S1'' ''A'' False 10 ''k1'']"
  by (simp add: findMany_def keyed_table_def visible_def order_by_desc_def)

lemma calls_keyed_table:
  "calls (HomeSongsFetcher_io (env_of (Some \<lparr>user_id = ''A''\<rparr>) keyed_table sign))
     = [GetSession, FindMany ''A'', GetPreSignedUrl ''k2'', GetPreSignedUrl ''k1'']"
  by (simp add: calls_HomeSongsFetcher_io findMany_keyed_table signed_keys_def)

section \<open>Properties of the calls\<close>

text \<open>
  The functions written call by call compute what \<open>HomeSongsFetcher\<close> and
  \<open>HomePage\<close> compute from the outcomes of their awaits, whatever was logged before
  them, and they only append to the log. The lemma ties two readings of the same
  lines together, so that the theorems on results and the theorems on calls speak of
  one run; it says nothing of the code by itself.
\<close>

lemma io_agrees_with_pure:
  "run_state (HomeSongsFetcher_io env) log
     = (HomeSongsFetcher env, log @ calls (HomeSongsFetcher_io env))
   \<and> run_state (HomePage_io page_session env) log
     = (HomePage page_session env, log @ calls (HomePage_io page_session env))"
  by (simp add: calls_def run_HomeSongsFetcher_io run_HomePage_io)

text \<open>
  C18. The order of the calls: the page reads the session; with a session the fetcher
  reads the session again, then queries the songs of its user, then asks for the
  signature of every non-empty storage key among the rows of the result, in the order
  of the result. Which signatures are requested does not depend on what the signer
  answers: a signature that fails does not keep the later ones from being requested.
\<close>

theorem calls_in_order:
  "calls (HomePage_io page_session env) =
     GetSession #
       (case page_session of
          Inr (Some s') \<Rightarrow>
            GetSession #
              (case getSession env of
                 Inr (Some s) \<Rightarrow>
                   FindMany (user_id s) #
                     (case song_table env of
                        Inr table \<Rightarrow>
                          map GetPreSignedUrl (signed_keys (findMany (user_id s) table))
                      | Inl e \<Rightarrow> [])
               | Inr None \<Rightarrow> []
               | Inl e \<Rightarrow> [])
        | Inr None \<Rightarrow> []
        | Inl e \<Rightarrow> [])
   \<and> calls (HomePage_io page_session (env\<lparr>getPreSignedUrl := sign'\<rparr>))
       = calls (HomePage_io page_session env)"
  by (simp add: calls_HomePage_io calls_HomeSongsFetcher_io split: sum.splits option.splits)

text \<open>
  C8. No call is made on behalf of a viewer who may not make it: the songs are queried
  only after both session reads returned a session, and for the user of the second;
  a signature is requested only for the non-empty storage key of a row that is visible
  to that user. A key reaches the signer only as the key of a visible row; a key that
  a hidden row shares with a visible one is signed for the visible one.
\<close>

theorem server_calls_authorised:
  "(FindMany uid \<in> set (calls (HomePage_io page_session env)) \<longrightarrow>
      (\<exists>s' s. page_session = Inr (Some s') \<and> getSession env = Inr (Some s) \<and> user_id s = uid))
   \<and> (GetPreSignedUrl key \<in> set (calls (HomePage_io page_session env)) \<longrightarrow>
      (\<exists>s table song. getSession env = Inr (Some s) \<and> song_table env = Inr table
         \<and> song \<in> set table \<and> visible (user_id s) song
         \<and> db_thumbnailS3Key song = Some key \<and> key \<noteq> []))"
  using fetcher_called [of "FindMany uid" page_session env]
    fetcher_called [of "GetPreSignedUrl key" page_session env]
    query_call_fetcher [of uid env] sign_call_fetcher [of key env]
  by auto

theorem server_calls_authorised_witness:
  "GetPreSignedUrl ''k2'' \<in> set (calls (HomePage_io (Inr (Some \<lparr>user_id = ''A''\<rparr>))
        (env_of (Some \<lparr>user_id = ''A''\<rparr>) keyed_table signer_up)))
   \<and> GetPreSignedUrl ''k4'' \<notin> set (calls (HomePage_io (Inr (Some \<lparr>user_id = ''A''\<rparr>))
        (env_of (Some \<lparr>user_id = ''A''\<rparr>) keyed_table signer_up)))
   \<and> visible ''A'' (keyed_row ''S2'' ''A'' True 20 ''k2'')
   \<and> \<not> visible ''A'' (keyed_row ''S4'' ''B'' False 40 ''k4'')"
proof -
  let ?env = "env_of (Some \<lparr>user_id = ''A''\<rparr>) keyed_table signer_up"
  let ?page = "HomePage_io (Inr (Some \<lparr>user_id = ''A''\<rparr>)) ?env"
  have c: "calls ?page = [GetSession, GetSession, FindMany ''A'',
      GetPreSignedUrl ''k2'', GetPreSignedUrl ''k1'']"
    by (simp add: calls_HomePage_io calls_keyed_table)
  then have k: "GetPreSignedUrl ''k2'' \<in> set (calls ?page)"
    by simp
  from server_calls_authorised [of "''A''" "Inr (Some \<lparr>user_id = ''A''\<rparr>)" ?env "''k2''"] k c
  show ?thesis
    by (simp add: visible_def)
qed

text \<open>
  C30. The number of calls is bounded by the table: one render of the fetcher asks for
  at most one signature per visible row, and makes at most two calls more than the
  table has rows.
\<close>

theorem signer_calls_bounded:
  assumes "getSession env = Inr (Some s)" and "song_table env = Inr table"
  shows "length (filter is_sign (calls (HomeSongsFetcher_io env)))
           \<le> length (filter (visible (user_id s)) table)
         \<and> length (calls (HomeSongsFetcher_io env)) \<le> length table + 2"
proof -
  have "length (signed_keys (findMany (user_id s) table)) \<le> length (filter (visible (user_id s)) table)"
    using length_signed_keys [of "findMany (user_id s) table"] by (simp add: findMany_length)
  moreover have "filter is_sign (map GetPreSignedUrl ks) = map GetPreSignedUrl ks" for ks
    by (induction ks) simp_all
  moreover have "length (filter (visible (user_id s)) table) \<le> length table"
    by simp
  ultimately show ?thesis
    using assms le_trans [of "length (signed_keys (findMany (user_id s) table))"
        "length (filter (visible (user_id s)) table)" "length table"]
    by (simp add: calls_HomeSongsFetcher_io)
qed

theorem signer_calls_bounded_witness:
  "length (filter is_sign
      (calls (HomeSongsFetcher_io (env_of (Some \<lparr>user_id = ''A''\<rparr>) keyed_table signer_down)))) = 2
   \<and> length (filter (visible ''A'') keyed_table) = 3
   \<and> length (calls (HomeSongsFetcher_io (env_of (Some \<lparr>user_id = ''A''\<rparr>) keyed_table signer_down)))
       \<le> length keyed_table + 2"
proof -
  let ?env = "env_of (Some \<lparr>user_id = ''A''\<rparr>) keyed_table signer_down"
  have s: "getSession ?env = Inr (Some \<lparr>user_id = ''A''\<rparr>)" and t: "song_table ?env = Inr keyed_table"
    by simp_all
  from signer_calls_bounded [OF s t] show ?thesis
    by (simp add: calls_keyed_table) (simp add: keyed_table_def visible_def)
qed

text \<open>
  C29. A row without a storage key, absent or empty, gets no thumbnail and causes no
  call: the signer is not consulted and the log is left as it was.
\<close>

theorem no_key_no_call:
  assumes "\<not> truthy (db_thumbnailS3Key song)"
  shows "run_state (song_with_thumbnail_io sign uid song) log = (Inr (project uid song None), log)"
  using assms
  by (cases "db_thumbnailS3Key song")
     (simp_all add: run_song_with_thumbnail_io song_with_thumbnail_def resolve_thumbnail_def
        signed_keys_def)

theorem no_key_no_call_witness:
  "\<not> truthy (db_thumbnailS3Key empty_key_row)
   \<and> run_state (song_with_thumbnail_io signer_down ''A'' empty_key_row) [GetSession, FindMany ''A'']
     = (Inr (project ''A'' empty_key_row None), [GetSession, FindMany ''A''])"
proof -
  have k: "\<not> truthy (db_thumbnailS3Key empty_key_row)"
    by (simp add: empty_key_row_def)
  from k no_key_no_call [OF k] show ?thesis by simp
qed

end
