(* ===== verification/Player_Store.thy ===== *)
theory Player_Store
  imports Song_Model
begin

text \<open>
  The player store \<open>usePlayerStore\<close> and the browser effects the client handlers
  have. The store's module is not part of the sources at hand; it is modelled from the
  specification's contract: one slot \<open>track\<close>, absent or a track, that \<open>setTrack\<close>
  replaces as a whole. Every component reads the same store value, so what a
  component derives from the store is a function of this record.

  \<open>browser\<close> gathers what the handlers change outside their component: the store,
  the lines written with \<open>console.error\<close> (its two arguments) and the calls of
  \<open>window.open\<close> (its two arguments), both in the order they happen.
\<close>

section \<open>The store\<close>

record player_store =
  track :: "Track option"

definition initial_store :: player_store where
  "initial_store = \<lparr>track = None\<rparr>"

definition setTrack :: "Track \<Rightarrow> player_store \<Rightarrow> player_store" where
  "setTrack t st = st\<lparr>track := Some t\<rparr>"

definition getTrack :: "player_store \<Rightarrow> Track option" where
  "getTrack st = track st"

lemma getTrack_setTrack [simp]: "getTrack (setTrack t st) = Some t"
  by (simp add: getTrack_def setTrack_def)

lemma track_setTrack [simp]: "track (setTrack t st) = Some t"
  by (simp add: setTrack_def)

lemma setTrack_setTrack [simp]: "setTrack t2 (setTrack t1 st) = setTrack t2 st"
  by (simp add: setTrack_def)

lemma getTrack_initial [simp]: "getTrack initial_store = None"
  by (simp add: getTrack_def initial_store_def)

section \<open>Effects outside the components\<close>

record browser =
  store :: player_store
  console_error :: "(string \<times> string) list"
  window_open :: "(string \<times> string) list"

definition initial_browser :: browser where
  "initial_browser = \<lparr>store = initial_store, console_error = [], window_open = []\<rparr>"

definition log_error :: "string \<Rightarrow> thrown \<Rightarrow> browser \<Rightarrow> browser" where
  "log_error what e b = b\<lparr>console_error := console_error b @ [(what, error_text e)]\<rparr>"

definition open_window :: "string \<Rightarrow> browser \<Rightarrow> browser" where
  "open_window u b = b\<lparr>window_open := window_open b @ [(u, ''_blank'')]\<rparr>"

definition play_track :: "Track \<Rightarrow> browser \<Rightarrow> browser" where
  "play_track t b = b\<lparr>store := setTrack t (store b)\<rparr>"

lemma log_error_sel [simp, mg_frame]:
  "store (log_error what e b) = store b"
  "window_open (log_error what e b) = window_open b"
  "console_error (log_error what e b) = console_error b @ [(what, error_text e)]"
  by (simp_all add: log_error_def)

lemma open_window_sel [simp, mg_frame]:
  "store (open_window u b) = store b"
  "console_error (open_window u b) = console_error b"
  "window_open (open_window u b) = window_open b @ [(u, ''_blank'')]"
  by (simp_all add: open_window_def)

lemma play_track_sel [simp, mg_frame]:
  "store (play_track t b) = setTrack t (store b)"
  "console_error (play_track t b) = console_error b"
  "window_open (play_track t b) = window_open b"
  by (simp_all add: play_track_def)

end
