(* ===== verification/Song_Card.thy ===== *)
theory Song_Card
  imports Player_Store
begin

text \<open>
  The component \<open>SongCard\<close> (\<open>song-card.tsx\<close>): its two pieces of local state,
  what it derives from the shared store (\<open>isCurrentTrack\<close>, \<open>isPlaying\<close>), its
  handlers and its render function.

  An asynchronous handler runs in two uninterrupted parts, before and after its one
  \<open>await\<close> of \<open>getPlayUrl\<close>. The first part (\<open>_call\<close>) returns the identifier it
  passes to \<open>getPlayUrl\<close>, or nothing when it returned early; the second part
  (\<open>_resume\<close>) takes the outcome of the call, a URL or a thrown value, and runs the
  \<open>try\<close> body, the \<open>catch\<close> and the \<open>finally\<close>. Other handlers may run between
  the two parts; the grid's theory interleaves them.

  The render function returns what the markup shows as a record \<open>card_view\<close>: which
  thumbnail (or the fallback), whether the overlay is visible, the play button's
  icon and whether it is disabled, the texts and the badges.
\<close>

section \<open>State and what is derived from the store\<close>

record card_state =
  isLoading :: bool
  isHovered :: bool

definition initial_card :: card_state where
  "initial_card = \<lparr>isLoading = False, isHovered = False\<rparr>"

definition isCurrentTrack :: "player_store \<Rightarrow> string \<Rightarrow> bool" where
  "isCurrentTrack st i = (case track st of None \<Rightarrow> False | Some t \<Rightarrow> track_id t = i)"

definition isPlaying :: "player_store \<Rightarrow> string \<Rightarrow> bool" where
  "isPlaying st i \<longleftrightarrow>
     isCurrentTrack st i \<and> truthy (case track st of None \<Rightarrow> None | Some t \<Rightarrow> url t)"

section \<open>Handlers\<close>

definition handlePlayPause_call :: "SongCardProps \<Rightarrow> card_state \<Rightarrow> card_state \<times> string option" where
  "handlePlayPause_call props c =
     (if isLoading c then (c, None)
      else (c\<lparr>isLoading := True\<rparr>, Some (song_id props)))"

definition handlePlayPause_resume ::
  "SongCardProps \<Rightarrow> string settled \<Rightarrow> card_state \<Rightarrow> browser \<Rightarrow> card_state \<times> browser" where
  "handlePlayPause_resume props outcome c b =
     (case outcome of
        Inr playUrl' \<Rightarrow> (c\<lparr>isLoading := False\<rparr>, play_track (mkTrack props playUrl') b)
      | Inl e \<Rightarrow> (c\<lparr>isLoading := False\<rparr>, log_error ''Failed to play track:'' e b))"

definition handleDownload_call :: "SongCardProps \<Rightarrow> string" where
  "handleDownload_call props = song_id props"

definition handleDownload_resume :: "string settled \<Rightarrow> browser \<Rightarrow> browser" where
  "handleDownload_resume outcome b =
     (case outcome of
        Inr playUrl' \<Rightarrow> open_window playUrl' b
      | Inl e \<Rightarrow> log_error ''Failed to download track:'' e b)"

definition handleCardClick :: "('p \<Rightarrow> 'p) option \<Rightarrow> 'p \<Rightarrow> 'p" where
  "handleCardClick onCardClick parent =
     (case onCardClick of None \<Rightarrow> parent | Some f \<Rightarrow> f parent)"

definition setIsHovered :: "bool \<Rightarrow> card_state \<Rightarrow> card_state" where
  "setIsHovered h c = c\<lparr>isHovered := h\<rparr>"

section \<open>Render\<close>

datatype icon = Loader2Icon | PauseIcon | PlayIcon

datatype badge = YourSongBadge | InstrumentalBadge | PublishedBadge

record card_view =
  cv_image :: nstring
  cv_alt :: string
  cv_overlay :: bool
  cv_disabled :: bool
  cv_icon :: icon
  cv_title :: string
  cv_description :: string
  cv_owner :: nstring
  cv_badges :: "badge list"

text \<open>
  The card and the dialog each have their own conditional for the icon of the play
  button. \<open>button_icon\<close> is not code: it names the function both conditionals turn
  out to compute, so that lemmas can speak of it.
\<close>

definition button_icon :: "bool \<Rightarrow> bool \<Rightarrow> icon" where
  "button_icon loading playing =
     (if loading then Loader2Icon else if playing then PauseIcon else PlayIcon)"

definition SongCard :: "player_store \<Rightarrow> card_state \<Rightarrow> SongCardProps \<Rightarrow> card_view" where
  "SongCard st c props =
     (let own = nullish (isOwnSong props) False in
      \<lparr>cv_image = (if truthy (thumbnailUrl props) then thumbnailUrl props else None),
       cv_alt = nullish (title props) ''Song thumbnail'',
       cv_overlay = (isHovered c \<or> isCurrentTrack st (song_id props)),
       cv_disabled = isLoading c,
       cv_icon =
         (if isLoading c then Loader2Icon
          else if isPlaying st (song_id props) then PauseIcon else PlayIcon),
       cv_title = nullish (title props) ''Untitled'',
       cv_description = nullish (prompt props) ''No description'',
       cv_owner = (if own then Some ''You'' else createdByUserName props),
       cv_badges =
         (if own then [YourSongBadge] else []) @
         (if instrumental props then [InstrumentalBadge] else []) @
         (if published props then [PublishedBadge] else [])\<rparr>)"

declare handlePlayPause_call_def [mg_defs] handlePlayPause_resume_def [mg_defs]
  handleDownload_call_def [mg_defs] handleDownload_resume_def [mg_defs]
  handleCardClick_def [mg_defs] setIsHovered_def [mg_defs]

declare SongCard_def [mg_view] button_icon_def [mg_view]

section \<open>Facts about the derived state\<close>

lemma isCurrentTrack_None [simp]: "track st = None \<Longrightarrow> \<not> isCurrentTrack st i"
  by (simp add: isCurrentTrack_def)

lemma isCurrentTrack_Some [simp]:
  "track st = Some t \<Longrightarrow> isCurrentTrack st i \<longleftrightarrow> track_id t = i"
  by (simp add: isCurrentTrack_def)

lemma isPlaying_None [simp]: "track st = None \<Longrightarrow> \<not> isPlaying st i"
  by (simp add: isPlaying_def)

lemma isPlaying_Some [simp]:
  "track st = Some t \<Longrightarrow> isPlaying st i \<longleftrightarrow> track_id t = i \<and> truthy (url t)"
  by (simp add: isPlaying_def)

lemma isPlaying_imp_current: "isPlaying st i \<Longrightarrow> isCurrentTrack st i"
  by (simp add: isPlaying_def)

lemma isCurrentTrack_setTrack [simp]:
  "isCurrentTrack (setTrack t st) i \<longleftrightarrow> track_id t = i"
  by (simp add: isCurrentTrack_def)

lemma isPlaying_setTrack_mkTrack [simp]:
  "isPlaying (setTrack (mkTrack props u) st) i \<longleftrightarrow> song_id props = i \<and> u \<noteq> []"
  by (simp add: isPlaying_def)

lemma isCurrentTrack_unique:
  "isCurrentTrack st i \<Longrightarrow> isCurrentTrack st j \<Longrightarrow> i = j"
  by (auto simp: isCurrentTrack_def split: option.splits)

section \<open>Facts about the handlers\<close>

lemma handlePlayPause_call_loading [simp]:
  "isLoading c \<Longrightarrow> handlePlayPause_call props c = (c, None)"
  by (simp add: handlePlayPause_call_def)

lemma handlePlayPause_call_idle [simp]:
  "\<not> isLoading c \<Longrightarrow>
     handlePlayPause_call props c = (c\<lparr>isLoading := True\<rparr>, Some (song_id props))"
  by (simp add: handlePlayPause_call_def)

lemma handlePlayPause_call_hover [simp, mg_frame]:
  "isHovered (fst (handlePlayPause_call props c)) = isHovered c"
  by (simp add: handlePlayPause_call_def)

lemma handlePlayPause_resume_Inr [simp]:
  "handlePlayPause_resume props (Inr u) c b =
     (c\<lparr>isLoading := False\<rparr>, play_track (mkTrack props u) b)"
  by (simp add: handlePlayPause_resume_def)

lemma handlePlayPause_resume_Inl [simp]:
  "handlePlayPause_resume props (Inl e) c b =
     (c\<lparr>isLoading := False\<rparr>, log_error ''Failed to play track:'' e b)"
  by (simp add: handlePlayPause_resume_def)

lemma handlePlayPause_resume_clears [simp]:
  "\<not> isLoading (fst (handlePlayPause_resume props outcome c b))"
  by (cases outcome) simp_all

lemma handlePlayPause_resume_hover [simp, mg_frame]:
  "isHovered (fst (handlePlayPause_resume props outcome c b)) = isHovered c"
  by (cases outcome) simp_all

lemma handleDownload_resume_store [simp, mg_frame]:
  "store (handleDownload_resume outcome b) = store b"
  by (cases outcome) (simp_all add: handleDownload_resume_def)

lemma handleCardClick_simps [simp]:
  "handleCardClick None parent = parent"
  "handleCardClick (Some f) parent = f parent"
  by (simp_all add: handleCardClick_def)

lemma setIsHovered_sel [simp, mg_frame]:
  "isHovered (setIsHovered h c) = h"
  "isLoading (setIsHovered h c) = isLoading c"
  by (simp_all add: setIsHovered_def)

section \<open>Properties of the card\<close>

text \<open>
  C11. A card shows itself as playing exactly when the store holds a track with the
  card's identifier and that track's URL is a non-empty string.
\<close>

theorem isPlaying_iff:
  "isPlaying st i \<longleftrightarrow>
     (\<exists>t u. getTrack st = Some t \<and> track_id t = i \<and> url t = Some u \<and> u \<noteq> [])"
  by (cases "track st") (auto simp: getTrack_def truthy_iff)

text \<open>
  The play handler is not reentrant: once it has issued a request, a second play
  intent on the same card issues none and changes nothing, until the first request
  has settled.
\<close>

lemma handlePlayPause_not_reentrant:
  "handlePlayPause_call props (fst (handlePlayPause_call props c))
     = (fst (handlePlayPause_call props c), None)
   \<and> isLoading (fst (handlePlayPause_call props c))"
  by (simp add: handlePlayPause_call_def)

text \<open>
  When the play URL resolves, the handler writes one complete track built from
  the card's song and the URL, and clears the loading flag; from then on exactly the
  cards with that song's identifier are current, and they show as playing when the
  URL is not empty.
\<close>

lemma handlePlayPause_success:
  "getTrack (store (snd (handlePlayPause_resume props (Inr u) c b))) = Some (mkTrack props u)
   \<and> \<not> isLoading (fst (handlePlayPause_resume props (Inr u) c b))
   \<and> isCurrentTrack (store (snd (handlePlayPause_resume props (Inr u) c b))) j = (song_id props = j)
   \<and> isPlaying (store (snd (handlePlayPause_resume props (Inr u) c b))) j
       = (song_id props = j \<and> u \<noteq> [])
   \<and> console_error (snd (handlePlayPause_resume props (Inr u) c b)) = console_error b"
  by simp

text \<open>
  When the play URL fails to resolve, the store is left as it was, the loading
  flag is cleared and one line is written to the console with the text of the thrown
  value.
\<close>

lemma handlePlayPause_failure:
  "store (snd (handlePlayPause_resume props (Inl e) c b)) = store b
   \<and> \<not> isLoading (fst (handlePlayPause_resume props (Inl e) c b))
   \<and> console_error (snd (handlePlayPause_resume props (Inl e) c b))
       = console_error b @ [(''Failed to play track:'', error_text e)]
   \<and> window_open (snd (handlePlayPause_resume props (Inl e) c b)) = window_open b"
  by simp

text \<open>
  A download never touches the store: a resolved URL is opened in one new window,
  a failure is written to the console, and the track stays what it was.
\<close>

lemma handleDownload_effects:
  "store (handleDownload_resume outcome b) = store b
   \<and> handleDownload_resume (Inr u) b = open_window u b
   \<and> window_open (handleDownload_resume (Inr u) b) = window_open b @ [(u, ''_blank'')]
   \<and> console_error (handleDownload_resume (Inl e) b)
       = console_error b @ [(''Failed to download track:'', error_text e)]
   \<and> window_open (handleDownload_resume (Inl e) b) = window_open b"
  by (cases outcome) (simp_all add: handleDownload_resume_def)

text \<open>
  At most one identifier is playing: two cards that both show as playing show the
  same song.
\<close>

lemma isPlaying_unique:
  assumes "isPlaying st i" and "isPlaying st j"
  shows "i = j"
  using assms by (blast intro: isCurrentTrack_unique isPlaying_imp_current)

lemma isPlaying_unique_example:
  "isPlaying (setTrack (mkTrack (demo_song ''X'') ''https://cdn/x.mp3'') initial_store) ''X''
   \<and> ''X'' = ''X''"
proof -
  have p: "isPlaying (setTrack (mkTrack (demo_song ''X'') ''https://cdn/x.mp3'') initial_store) ''X''"
    by simp
  from p isPlaying_unique [OF p p] show ?thesis by simp
qed

text \<open>
  The play button of a card: it is disabled and shows the spinner exactly while
  the card is loading; otherwise it shows the pause icon when the card's song is
  playing and the play icon when it is not. The overlay is visible when the card is
  hovered or its song is the current track.
\<close>

lemma SongCard_button:
  "cv_disabled (SongCard st c props) = isLoading c
   \<and> (cv_icon (SongCard st c props) = Loader2Icon) = isLoading c
   \<and> (cv_icon (SongCard st c props) = PauseIcon)
       = (\<not> isLoading c \<and> isPlaying st (song_id props))
   \<and> (cv_icon (SongCard st c props) = PlayIcon)
       = (\<not> isLoading c \<and> \<not> isPlaying st (song_id props))
   \<and> cv_overlay (SongCard st c props) = (isHovered c \<or> isCurrentTrack st (song_id props))"
  by (simp add: mg_view Let_def)

text \<open>
  The texts of a card: a missing title is shown as Untitled and a missing prompt
  as No description (an empty one is shown as it is); the owner line reads You for
  the viewer's own song and the creator's name otherwise, and the badge Your Song is
  shown exactly for the viewer's own songs.
\<close>

lemma SongCard_texts:
  "cv_title (SongCard st c props) = (case title props of None \<Rightarrow> ''Untitled'' | Some s \<Rightarrow> s)
   \<and> cv_description (SongCard st c props)
       = (case prompt props of None \<Rightarrow> ''No description'' | Some s \<Rightarrow> s)
   \<and> cv_owner (SongCard st c props)
       = (if isOwnSong props = Some True then Some ''You'' else createdByUserName props)
   \<and> (YourSongBadge \<in> set (cv_badges (SongCard st c props))) = (isOwnSong props = Some True)
   \<and> (InstrumentalBadge \<in> set (cv_badges (SongCard st c props))) = instrumental props
   \<and> (PublishedBadge \<in> set (cv_badges (SongCard st c props))) = published props"
  by (cases "isOwnSong props"; cases "title props"; cases "prompt props")
     (auto simp: mg_view Let_def)

end
