(* ===== verification/Song_Grid.thy ===== *)
theory Song_Grid
  imports Song_Card
begin

text \<open>
  The component \<open>SongGrid\<close> (\<open>song-grid.tsx\<close>): its state (\<open>selectedSong\<close>
  and its own loading flag, \<open>grid_isLoading\<close>), its handlers, written like the
  card's in a part before and a part after the \<open>await\<close>, what it derives from the
  store, and its render function: the empty state for an empty list of songs,
  otherwise the cards and, when a song is selected, the detail dialog. The grid's
  functions carry the prefix \<open>grid_\<close> where the card has a function of the same
  name. The mounted cards are given to the render function as the list of their
  songs and states.
\<close>

section \<open>The grid: state, handlers, derived state\<close>

record grid_state =
  selectedSong :: "SongCardProps option"
  grid_isLoading :: bool

definition initial_grid :: grid_state where
  "initial_grid = \<lparr>selectedSong = None, grid_isLoading = False\<rparr>"

definition grid_handleCardClick :: "SongCardProps \<Rightarrow> grid_state \<Rightarrow> grid_state" where
  "grid_handleCardClick song g = g\<lparr>selectedSong := Some song\<rparr>"

definition grid_handlePlayPause_call ::
  "SongCardProps \<Rightarrow> grid_state \<Rightarrow> grid_state \<times> string option" where
  "grid_handlePlayPause_call song g =
     (if grid_isLoading g then (g, None)
      else (g\<lparr>grid_isLoading := True\<rparr>, Some (song_id song)))"

definition grid_handlePlayPause_resume ::
  "SongCardProps \<Rightarrow> string settled \<Rightarrow> grid_state \<Rightarrow> browser \<Rightarrow> grid_state \<times> browser" where
  "grid_handlePlayPause_resume song outcome g b =
     (case outcome of
        Inr playUrl' \<Rightarrow> (g\<lparr>grid_isLoading := False\<rparr>, play_track (mkTrack song playUrl') b)
      | Inl e \<Rightarrow> (g\<lparr>grid_isLoading := False\<rparr>, log_error ''Failed to play track:'' e b))"

definition grid_handleDownload_call :: "SongCardProps \<Rightarrow> string" where
  "grid_handleDownload_call song = song_id song"

definition grid_handleDownload_resume :: "string settled \<Rightarrow> browser \<Rightarrow> browser" where
  "grid_handleDownload_resume outcome b =
     (case outcome of
        Inr playUrl' \<Rightarrow> open_window playUrl' b
      | Inl e \<Rightarrow> log_error ''Failed to download track:'' e b)"

definition setSelectedSong_null :: "grid_state \<Rightarrow> grid_state" where
  "setSelectedSong_null g = g\<lparr>selectedSong := None\<rparr>"

definition grid_isCurrentTrack :: "player_store \<Rightarrow> string \<Rightarrow> bool" where
  "grid_isCurrentTrack st songId =
     (case track st of None \<Rightarrow> False | Some t \<Rightarrow> track_id t = songId)"

definition grid_isPlaying :: "player_store \<Rightarrow> string \<Rightarrow> bool" where
  "grid_isPlaying st songId \<longleftrightarrow>
     grid_isCurrentTrack st songId \<and>
     truthy (case track st of None \<Rightarrow> None | Some t \<Rightarrow> url t)"

section \<open>Render\<close>

record dialog_view =
  dv_image :: nstring
  dv_alt :: string
  dv_disabled :: bool
  dv_icon :: icon
  dv_title :: string
  dv_owner :: nstring
  dv_badges :: "badge list"
  dv_description :: nstring
  dv_lyrics :: nstring

datatype grid_view = EmptyState | Library "card_view list" "dialog_view option"

definition Dialog :: "player_store \<Rightarrow> grid_state \<Rightarrow> SongCardProps \<Rightarrow> dialog_view" where
  "Dialog st g song =
     \<lparr>dv_image = (if truthy (thumbnailUrl song) then thumbnailUrl song else None),
      dv_alt = nullish (title song) ''Song thumbnail'',
      dv_disabled = grid_isLoading g,
      dv_icon =
        (if grid_isLoading g then Loader2Icon
         else if grid_isPlaying st (song_id song) then PauseIcon else PlayIcon),
      dv_title = nullish (title song) ''Untitled'',
      dv_owner = createdByUserName song,
      dv_badges =
        (if instrumental song then [InstrumentalBadge] else []) @
        (if published song then [PublishedBadge] else []),
      dv_description = (if truthy (prompt song) then prompt song else None),
      dv_lyrics = (if truthy (lyrics song) then lyrics song else None)\<rparr>"

definition SongGrid ::
  "player_store \<Rightarrow> grid_state \<Rightarrow> (SongCardProps \<times> card_state) list \<Rightarrow> grid_view" where
  "SongGrid st g mounted =
     (if length mounted = 0 then EmptyState
      else Library
             (map (\<lambda>(props, c). SongCard st c props) mounted)
             (case selectedSong g of
                None \<Rightarrow> None
              | Some song \<Rightarrow> Some (Dialog st g song)))"

declare grid_handleCardClick_def [mg_defs] grid_handlePlayPause_call_def [mg_defs]
  grid_handlePlayPause_resume_def [mg_defs] grid_handleDownload_call_def [mg_defs]
  grid_handleDownload_resume_def [mg_defs] setSelectedSong_null_def [mg_defs]

declare Dialog_def [mg_view] SongGrid_def [mg_view]

section \<open>Facts about the grid's handlers\<close>

lemma grid_isCurrentTrack_eq: "grid_isCurrentTrack = isCurrentTrack"
  by (rule ext)+ (simp add: grid_isCurrentTrack_def isCurrentTrack_def)

lemma grid_isPlaying_eq: "grid_isPlaying = isPlaying"
  by (rule ext)+ (simp add: grid_isPlaying_def isPlaying_def grid_isCurrentTrack_eq)

lemma grid_handleDownload_resume_eq: "grid_handleDownload_resume = handleDownload_resume"
  by (rule ext)+ (simp add: grid_handleDownload_resume_def handleDownload_resume_def)

lemma grid_handlePlayPause_resume_world:
  "snd (grid_handlePlayPause_resume song outcome g b) = snd (handlePlayPause_resume song outcome c b)"
  by (cases outcome) (simp_all add: grid_handlePlayPause_resume_def)

section \<open>Properties of the grid\<close>

text \<open>
  The dialog and the cards agree on what is playing: the grid's own tests for the
  current and the playing song are the card's tests, so the dialog of a song shows
  the pause icon exactly when a card of that song that is not loading does.
\<close>

lemma dialog_agrees_with_card:
  "grid_isCurrentTrack st i = isCurrentTrack st i
   \<and> grid_isPlaying st i = isPlaying st i
   \<and> dv_icon (Dialog st g song) = button_icon (grid_isLoading g) (isPlaying st (song_id song))
   \<and> cv_icon (SongCard st c song) = button_icon (isLoading c) (isPlaying st (song_id song))"
  by (simp add: grid_isCurrentTrack_eq grid_isPlaying_eq Dialog_def SongCard_def Let_def
        button_icon_def)

text \<open>
  The grid shows the empty state exactly for an empty list of songs; otherwise
  it shows one card per song, in the order of the list, and the dialog exactly when a
  song is selected.
\<close>

lemma SongGrid_shape:
  "(SongGrid st g mounted = EmptyState) = (mounted = [])
   \<and> (case SongGrid st g mounted of
         EmptyState \<Rightarrow> True
       | Library cvs d \<Rightarrow>
           map cv_title cvs = map (\<lambda>(props, c). nullish (title props) ''Untitled'') mounted
           \<and> (d = None) = (selectedSong g = None))"
  by (cases "selectedSong g")
     (auto simp: SongGrid_def SongCard_def Let_def split: prod.splits)

text \<open>
  The dialog shows the description and the lyrics of its song only when they are
  non-empty strings, and the title Untitled only when the song has no title.
\<close>

lemma Dialog_sections:
  "(dv_description (Dialog st g song) = None) = (\<not> truthy (prompt song))
   \<and> (dv_lyrics (Dialog st g song) = None) = (\<not> truthy (lyrics song))
   \<and> dv_title (Dialog st g song) = (case title song of None \<Rightarrow> ''Untitled'' | Some s \<Rightarrow> s)
   \<and> dv_disabled (Dialog st g song) = grid_isLoading g"
  by (cases "title song") (auto simp: Dialog_def dest: truthy_imp_Some)

end
