(* ===== verification/Client_Machine.thy ===== *)
theory Client_Machine
  imports Song_Grid
begin

text \<open>
  The client as a whole: the mounted cards (each with its song and its state), the
  grid, the browser effects and the play URL requests that are in flight. An
  \<open>event\<close> is a user action on a card or on the dialog, or the settling of one
  request in flight with its outcome; \<open>step\<close> runs the handler that the markup of
  \<open>song-card.tsx\<close> and \<open>song-grid.tsx\<close> binds to the event. A handler runs from
  its start to its \<open>await\<close> or from its \<open>await\<close> to its end without
  interruption, and requests settle in any order, so every interleaving of the
  handlers is a list of events; \<open>run\<close> runs one and \<open>reachable\<close> holds of the
  states that some list of events leads to from a freshly mounted grid.

  A user action on an element that is not rendered (a card beyond the list, the
  dialog while no song is selected or the list is empty) and the settling of a
  request that is not in flight are not events of the program; \<open>step\<close> leaves the
  state as it is for them. The lemmas of this theory are the characteristic
  equations of the handlers: what each does to the requests in flight, to the loading
  flags, to the selected song and to the browser.
\<close>

section \<open>Cards, grid, effects and requests in flight\<close>

datatype origin = ByCard nat | ByDialog

datatype intent = PlayIntent | DownloadIntent

record request =
  req_origin :: origin
  req_intent :: intent
  req_song :: SongCardProps
  req_arg :: string

record client =
  cards :: "(SongCardProps \<times> card_state) list"
  grid :: grid_state
  world :: browser
  pending :: "request list"

definition songs_of :: "client \<Rightarrow> SongCardProps list" where
  "songs_of s = map fst (cards s)"

definition mount :: "SongCardProps list \<Rightarrow> browser \<Rightarrow> client" where
  "mount songs b =
     \<lparr>cards = map (\<lambda>song. (song, initial_card)) songs,
      grid = initial_grid, world = b, pending = []\<rparr>"

definition dialog_song :: "client \<Rightarrow> SongCardProps option" where
  "dialog_song s = (if length (cards s) = 0 then None else selectedSong (grid s))"

definition new_request :: "origin \<Rightarrow> intent \<Rightarrow> SongCardProps \<Rightarrow> string \<Rightarrow> request" where
  "new_request who what song a =
     \<lparr>req_origin = who, req_intent = what, req_song = song, req_arg = a\<rparr>"

section \<open>The handlers as the markup binds them\<close>

definition click_play :: "nat \<Rightarrow> client \<Rightarrow> client" where
  "click_play i s =
     (if i < length (cards s) then
        (case cards s ! i of (props, c) \<Rightarrow>
           (case handlePlayPause_call props c of
              (c', None) \<Rightarrow> s\<lparr>cards := (cards s)[i := (props, c')]\<rparr>
            | (c', Some a) \<Rightarrow>
                s\<lparr>cards := (cards s)[i := (props, c')],
                  pending := pending s @ [new_request (ByCard i) PlayIntent props a]\<rparr>))
      else s)"

definition click_download :: "nat \<Rightarrow> client \<Rightarrow> client" where
  "click_download i s =
     (if i < length (cards s) then
        (case cards s ! i of (props, c) \<Rightarrow>
           s\<lparr>pending := pending s @
                [new_request (ByCard i) DownloadIntent props (handleDownload_call props)]\<rparr>)
      else s)"

definition click_card :: "nat \<Rightarrow> client \<Rightarrow> client" where
  "click_card i s =
     (if i < length (cards s) then
        (case cards s ! i of (props, c) \<Rightarrow>
           s\<lparr>grid := handleCardClick (Some (grid_handleCardClick props)) (grid s)\<rparr>)
      else s)"

definition hover :: "nat \<Rightarrow> bool \<Rightarrow> client \<Rightarrow> client" where
  "hover i h s =
     (if i < length (cards s) then
        (case cards s ! i of (props, c) \<Rightarrow>
           s\<lparr>cards := (cards s)[i := (props, setIsHovered h c)]\<rparr>)
      else s)"

definition click_dialog_play :: "client \<Rightarrow> client" where
  "click_dialog_play s =
     (case dialog_song s of
        None \<Rightarrow> s
      | Some song \<Rightarrow>
          (case grid_handlePlayPause_call song (grid s) of
             (g', None) \<Rightarrow> s\<lparr>grid := g'\<rparr>
           | (g', Some a) \<Rightarrow>
               s\<lparr>grid := g',
                 pending := pending s @ [new_request ByDialog PlayIntent song a]\<rparr>))"

definition click_dialog_download :: "client \<Rightarrow> client" where
  "click_dialog_download s =
     (case dialog_song s of
        None \<Rightarrow> s
      | Some song \<Rightarrow>
          s\<lparr>pending := pending s @
               [new_request ByDialog DownloadIntent song (grid_handleDownload_call song)]\<rparr>)"

definition dismiss_dialog :: "client \<Rightarrow> client" where
  "dismiss_dialog s =
     (case dialog_song s of
        None \<Rightarrow> s
      | Some song \<Rightarrow> s\<lparr>grid := setSelectedSong_null (grid s)\<rparr>)"

definition resume :: "request \<Rightarrow> string settled \<Rightarrow> client \<Rightarrow> client" where
  "resume r outcome s =
     (case (req_intent r, req_origin r) of
        (PlayIntent, ByCard i) \<Rightarrow>
          (if i < length (cards s) then
             (case cards s ! i of (props, c) \<Rightarrow>
                (case handlePlayPause_resume (req_song r) outcome c (world s) of
                   (c', b') \<Rightarrow> s\<lparr>cards := (cards s)[i := (props, c')], world := b'\<rparr>))
           else s)
      | (PlayIntent, ByDialog) \<Rightarrow>
          (case grid_handlePlayPause_resume (req_song r) outcome (grid s) (world s) of
             (g', b') \<Rightarrow> s\<lparr>grid := g', world := b'\<rparr>)
      | (DownloadIntent, ByCard i) \<Rightarrow> s\<lparr>world := handleDownload_resume outcome (world s)\<rparr>
      | (DownloadIntent, ByDialog) \<Rightarrow>
          s\<lparr>world := grid_handleDownload_resume outcome (world s)\<rparr>)"

definition settle :: "nat \<Rightarrow> string settled \<Rightarrow> client \<Rightarrow> client" where
  "settle k outcome s =
     (if k < length (pending s)
      then resume (pending s ! k) outcome (s\<lparr>pending := remove_nth k (pending s)\<rparr>)
      else s)"

section \<open>Events, steps and runs\<close>

datatype event =
    PlayClick nat
  | DownloadClick nat
  | CardClick nat
  | MouseEnter nat
  | MouseLeave nat
  | DialogPlayClick
  | DialogDownloadClick
  | DialogDismiss
  | Settled nat "string settled"

fun step :: "client \<Rightarrow> event \<Rightarrow> client" where
  "step s (PlayClick i) = click_play i s"
| "step s (DownloadClick i) = click_download i s"
| "step s (CardClick i) = click_card i s"
| "step s (MouseEnter i) = hover i True s"
| "step s (MouseLeave i) = hover i False s"
| "step s DialogPlayClick = click_dialog_play s"
| "step s DialogDownloadClick = click_dialog_download s"
| "step s DialogDismiss = dismiss_dialog s"
| "step s (Settled k outcome) = settle k outcome s"

fun run :: "client \<Rightarrow> event list \<Rightarrow> client" where
  "run s [] = s"
| "run s (e # es) = run (step s e) es"

inductive reachable :: "SongCardProps list \<Rightarrow> browser \<Rightarrow> client \<Rightarrow> bool"
  for songs :: "SongCardProps list" and b :: browser where
  mounted: "reachable songs b (mount songs b)"
| stepped: "reachable songs b s \<Longrightarrow> reachable songs b (step s e)"

section \<open>What the client shows\<close>

definition view :: "client \<Rightarrow> grid_view" where
  "view s = SongGrid (store (world s)) (grid s) (cards s)"

lemmas wiring_defs = click_play_def click_download_def click_card_def hover_def
  click_dialog_play_def click_dialog_download_def dismiss_dialog_def settle_def resume_def
  dialog_song_def new_request_def

section \<open>Frame facts: what a step leaves alone\<close>

lemma songs_of_mount [simp]: "songs_of (mount songs b) = songs"
  by (simp add: songs_of_def mount_def comp_def)

lemma mount_sel [simp]:
  "pending (mount songs b) = []"
  "world (mount songs b) = b"
  "grid (mount songs b) = initial_grid"
  "length (cards (mount songs b)) = length songs"
  by (simp_all add: mount_def)

lemma cards_mount_nth [simp]:
  "i < length songs \<Longrightarrow> cards (mount songs b) ! i = (songs ! i, initial_card)"
  by (simp add: mount_def)

lemma length_songs_of [simp]: "length (songs_of s) = length (cards s)"
  by (simp add: songs_of_def)

lemma songs_of_nth [simp]: "i < length (cards s) \<Longrightarrow> songs_of s ! i = fst (cards s ! i)"
  by (simp add: songs_of_def)

lemma songs_of_resume [simp]: "songs_of (resume r outcome s) = songs_of s"
  by (auto simp: songs_of_def resume_def split: prod.splits intent.splits origin.splits)

lemma songs_of_step [simp]: "songs_of (step s e) = songs_of s"
  by (cases e)
     (auto simp: songs_of_def wiring_defs simp del: songs_of_resume
           split: prod.splits option.splits intent.splits origin.splits)

lemma songs_of_run [simp]: "songs_of (run s es) = songs_of s"
  by (induction es arbitrary: s) simp_all

lemma length_cards_step [simp]: "length (cards (step s e)) = length (cards s)"
  using songs_of_step [of s e] by (metis length_songs_of)

lemma run_append [simp]: "run s (es @ fs) = run (run s es) fs"
  by (induction es arbitrary: s) simp_all

lemma reachable_songs_of: "reachable songs b s \<Longrightarrow> songs_of s = songs"
  by (induction rule: reachable.induct) simp_all

lemma reachable_run: "reachable songs b s \<Longrightarrow> reachable songs b (run s es)"
  by (induction es arbitrary: s) (auto intro: reachable.stepped)

lemma reachable_iff_run: "reachable songs b s \<longleftrightarrow> (\<exists>es. s = run (mount songs b) es)"
proof
  assume "reachable songs b s"
  then show "\<exists>es. s = run (mount songs b) es"
  proof (induction rule: reachable.induct)
    case mounted
    have "mount songs b = run (mount songs b) []" by simp
    then show ?case ..
  next
    case (stepped s e)
    from stepped.IH obtain es where "s = run (mount songs b) es" ..
    then have "step s e = run (mount songs b) (es @ [e])" by simp
    then show ?case ..
  qed
next
  assume "\<exists>es. s = run (mount songs b) es"
  then show "reachable songs b s"
    by (auto intro: reachable_run reachable.mounted)
qed

end
