(* ===== verification/Client_Invariants.thy ===== *)
theory Client_Invariants
  imports Client_Machine
begin

text \<open>
  What holds in every reachable state of the client. \<open>client_inv\<close> relates the
  loading flags to the requests in flight: every request is for a song of the grid
  (for a card, the song of that card) and asks for that song's play URL; for every
  origin (a card or the dialog) exactly one play request is in flight while its
  loading flag is set and none while it is clear; the selected song is a song of the
  grid. \<open>store_ok\<close> says where the track of the store comes from: it is the track
  the store held when the grid was mounted, or a complete track written for a song of
  the grid.
\<close>

section \<open>The invariant of the client\<close>

definition is_play_by :: "origin \<Rightarrow> request \<Rightarrow> bool" where
  "is_play_by who r \<longleftrightarrow> req_intent r = PlayIntent \<and> req_origin r = who"

definition plays_by :: "origin \<Rightarrow> request list \<Rightarrow> nat" where
  "plays_by who rs = length (filter (is_play_by who) rs)"

definition request_ok :: "SongCardProps list \<Rightarrow> request \<Rightarrow> bool" where
  "request_ok songs r \<longleftrightarrow>
     req_arg r = song_id (req_song r) \<and>
     (case req_origin r of
        ByCard i \<Rightarrow> i < length songs \<and> songs ! i = req_song r
      | ByDialog \<Rightarrow> req_song r \<in> set songs)"

definition flag_of :: "client \<Rightarrow> origin \<Rightarrow> bool" where
  "flag_of s who =
     (case who of
        ByCard i \<Rightarrow> i < length (cards s) \<and> isLoading (snd (cards s ! i))
      | ByDialog \<Rightarrow> grid_isLoading (grid s))"

definition origins :: "client \<Rightarrow> origin list" where
  "origins s = ByDialog # map ByCard [0..<length (cards s)]"

definition flag_matches :: "client \<Rightarrow> origin \<Rightarrow> bool" where
  "flag_matches s who \<longleftrightarrow> plays_by who (pending s) = (if flag_of s who then 1 else 0)"

definition selected_ok :: "client \<Rightarrow> bool" where
  "selected_ok s =
     (case selectedSong (grid s) of None \<Rightarrow> True | Some song \<Rightarrow> song \<in> set (songs_of s))"

definition client_inv :: "client \<Rightarrow> bool" where
  "client_inv s \<longleftrightarrow>
     list_all (request_ok (songs_of s)) (pending s) \<and>
     list_all (flag_matches s) (origins s) \<and>
     selected_ok s"

subsection \<open>Counting the play requests of an origin\<close>

lemma plays_by_Nil [simp]: "plays_by who [] = 0"
  by (simp add: plays_by_def)

lemma plays_by_snoc [simp]:
  "plays_by who (rs @ [r]) = plays_by who rs + (if is_play_by who r then 1 else 0)"
  by (simp add: plays_by_def)

lemma plays_by_remove_nth:
  "k < length rs \<Longrightarrow>
     plays_by who (remove_nth k rs) = plays_by who rs - (if is_play_by who (rs ! k) then 1 else 0)"
  by (simp add: plays_by_def filter_remove_nth_length)

lemma plays_by_pos: "k < length rs \<Longrightarrow> is_play_by who (rs ! k) \<Longrightarrow> 0 < plays_by who rs"
  using filter_nth_pos [of k rs "is_play_by who"] by (simp add: plays_by_def)

lemma plays_by_zero_iff: "plays_by who rs = 0 \<longleftrightarrow> (\<forall>r \<in> set rs. \<not> is_play_by who r)"
  by (auto simp: plays_by_def filter_empty_conv)

lemma is_play_by_new_request [simp]:
  "is_play_by who (new_request who' what song a) \<longleftrightarrow> what = PlayIntent \<and> who' = who"
  by (simp add: is_play_by_def new_request_def)

lemma is_play_by_origin: "is_play_by who r \<Longrightarrow> req_origin r = who"
  by (simp add: is_play_by_def)

subsection \<open>The loading flag of an origin\<close>

lemma flag_of_ByDialog [simp]: "flag_of s ByDialog = grid_isLoading (grid s)"
  by (simp add: flag_of_def)

lemma flag_of_ByCard [simp]:
  "flag_of s (ByCard i) \<longleftrightarrow> i < length (cards s) \<and> isLoading (snd (cards s ! i))"
  by (simp add: flag_of_def)

lemma flag_of_pending_update [simp]: "flag_of (s\<lparr>pending := rs\<rparr>) = flag_of s"
  by (rule ext) (simp add: flag_of_def split: origin.splits)

lemma flag_of_world_update [simp]: "flag_of (s\<lparr>world := b\<rparr>) = flag_of s"
  by (rule ext) (simp add: flag_of_def split: origin.splits)

lemma flag_of_mount [simp]: "\<not> flag_of (mount songs b) who"
  by (cases who) (simp_all add: mount_def initial_grid_def initial_card_def)

subsection \<open>The invariant, as the proofs use it\<close>

lemma set_origins: "set (origins s) = insert ByDialog (ByCard ` {..<length (cards s)})"
  by (auto simp: origins_def)

lemma flag_matches_beyond:
  assumes "\<forall>r \<in> set (pending s). request_ok (songs_of s) r" and "length (cards s) \<le> i"
  shows "flag_matches s (ByCard i)"
proof -
  have "\<not> is_play_by (ByCard i) r" if "r \<in> set (pending s)" for r
    using assms that by (auto simp: request_ok_def is_play_by_def)
  then show ?thesis
    using assms(2) by (simp add: flag_matches_def plays_by_zero_iff)
qed

lemma client_inv_iff:
  "client_inv s \<longleftrightarrow>
     (\<forall>r \<in> set (pending s). request_ok (songs_of s) r) \<and>
     (\<forall>who. flag_matches s who) \<and> selected_ok s"
proof -
  have "flag_matches s who"
    if "\<forall>r \<in> set (pending s). request_ok (songs_of s) r"
      and "\<forall>who \<in> set (origins s). flag_matches s who" for who
  proof (cases who)
    case (ByCard i)
    with that flag_matches_beyond [of s i] show ?thesis
      by (cases "i < length (cards s)") (auto simp: set_origins)
  next
    case ByDialog
    with that show ?thesis by (simp add: set_origins)
  qed
  then show ?thesis
    by (auto simp: client_inv_def list_all_iff)
qed

lemma client_invI:
  assumes "\<And>r. r \<in> set (pending s) \<Longrightarrow> request_ok (songs_of s) r"
    and "\<And>who. flag_matches s who" and "selected_ok s"
  shows "client_inv s"
  using assms by (simp add: client_inv_iff)

lemma client_invD:
  assumes "client_inv s"
  shows "r \<in> set (pending s) \<Longrightarrow> request_ok (songs_of s) r"
    and "flag_matches s who" and "selected_ok s"
  using assms by (simp_all add: client_inv_iff)

lemma client_inv_mount: "client_inv (mount songs b)"
  by (rule client_invI) (simp_all add: flag_matches_def selected_ok_def initial_grid_def)

subsection \<open>Every handler keeps the invariant\<close>

lemma songs_of_ops [simp]:
  "songs_of (click_play i s) = songs_of s"
  "songs_of (click_download i s) = songs_of s"
  "songs_of (click_card i s) = songs_of s"
  "songs_of (hover i h s) = songs_of s"
  "songs_of (click_dialog_play s) = songs_of s"
  "songs_of (click_dialog_download s) = songs_of s"
  "songs_of (dismiss_dialog s) = songs_of s"
  "songs_of (settle k outcome s) = songs_of s"
  using songs_of_step [of s "PlayClick i"] songs_of_step [of s "DownloadClick i"]
    songs_of_step [of s "CardClick i"] songs_of_step [of s "MouseEnter i"]
    songs_of_step [of s "MouseLeave i"] songs_of_step [of s DialogPlayClick]
    songs_of_step [of s DialogDownloadClick] songs_of_step [of s DialogDismiss]
    songs_of_step [of s "Settled k outcome"]
  by (cases h; simp)+

lemma flag_of_card_update:
  "i < length (cards s) \<Longrightarrow>
     flag_of (s\<lparr>cards := (cards s)[i := (p, c')]\<rparr>) who =
       (if who = ByCard i then isLoading c' else flag_of s who)"
  by (cases who) (auto simp: nth_list_update)

lemma flag_of_grid_update:
  "flag_of (s\<lparr>grid := g\<rparr>) who =
     (if who = ByDialog then grid_isLoading g else flag_of s who)"
  by (cases who) auto

lemma dialog_song_selected: "dialog_song s = Some song \<Longrightarrow> selectedSong (grid s) = Some song"
  by (simp add: dialog_song_def split: if_splits)

lemma pending_resume [simp]: "pending (resume r outcome s) = pending s"
  by (auto simp: resume_def split: prod.splits intent.splits origin.splits)

lemma pending_click_play:
  "pending (click_play i s) = pending s @
     (if i < length (cards s) \<and> \<not> isLoading (snd (cards s ! i))
      then [new_request (ByCard i) PlayIntent (fst (cards s ! i)) (song_id (fst (cards s ! i)))]
      else [])"
  by (simp add: click_play_def handlePlayPause_call_def split: prod.splits)

lemma pending_click_download:
  "pending (click_download i s) = pending s @
     (if i < length (cards s)
      then [new_request (ByCard i) DownloadIntent (fst (cards s ! i)) (song_id (fst (cards s ! i)))]
      else [])"
  by (simp add: click_download_def handleDownload_call_def split: prod.splits)

lemma pending_click_card: "pending (click_card i s) = pending s"
  by (simp add: click_card_def split: prod.splits)

lemma pending_hover: "pending (hover i h s) = pending s"
  by (simp add: hover_def split: prod.splits)

lemma pending_click_dialog_play:
  "pending (click_dialog_play s) = pending s @
     (case dialog_song s of
        None \<Rightarrow> []
      | Some song \<Rightarrow>
          if grid_isLoading (grid s) then []
          else [new_request ByDialog PlayIntent song (song_id song)])"
  by (simp add: click_dialog_play_def grid_handlePlayPause_call_def split: option.splits)

lemma pending_click_dialog_download:
  "pending (click_dialog_download s) = pending s @
     (case dialog_song s of
        None \<Rightarrow> []
      | Some song \<Rightarrow> [new_request ByDialog DownloadIntent song (song_id song)])"
  by (simp add: click_dialog_download_def grid_handleDownload_call_def split: option.splits)

lemma pending_dismiss_dialog: "pending (dismiss_dialog s) = pending s"
  by (simp add: dismiss_dialog_def split: option.splits)

lemma pending_settle: "pending (settle k outcome s) = remove_nth k (pending s)"
  by (simp add: settle_def)

lemmas pending_ops = pending_click_play pending_click_download pending_click_card pending_hover
  pending_click_dialog_play pending_click_dialog_download pending_dismiss_dialog pending_settle

lemma flag_of_resume:
  "flag_of (resume r outcome s) who = (flag_of s who \<and> \<not> is_play_by who r)"
proof (cases "req_intent r")
  case PlayIntent
  show ?thesis
  proof (cases "req_origin r")
    case (ByCard i)
    with PlayIntent show ?thesis
      by (cases outcome; cases who)
         (auto simp: resume_def is_play_by_def nth_list_update split: prod.splits)
  next
    case ByDialog
    with PlayIntent show ?thesis
      by (cases outcome; cases who)
         (auto simp: resume_def is_play_by_def grid_handlePlayPause_resume_def)
  qed
next
  case DownloadIntent
  then show ?thesis
    by (cases "req_origin r") (auto simp: resume_def is_play_by_def)
qed

lemma flag_of_click_play:
  "flag_of (click_play i s) who \<longleftrightarrow> flag_of s who \<or> (who = ByCard i \<and> i < length (cards s))"
  by (cases who)
     (auto simp: click_play_def handlePlayPause_call_def nth_list_update split: prod.splits)

lemma flag_of_click_download: "flag_of (click_download i s) who = flag_of s who"
  by (simp add: click_download_def split: prod.splits)

lemma flag_of_click_card: "flag_of (click_card i s) who = flag_of s who"
  by (cases who) (auto simp: click_card_def grid_handleCardClick_def split: prod.splits)

lemma flag_of_hover: "flag_of (hover i h s) who = flag_of s who"
  by (cases who) (auto simp: hover_def nth_list_update split: prod.splits)

lemma flag_of_click_dialog_play:
  "flag_of (click_dialog_play s) who \<longleftrightarrow> flag_of s who \<or> (who = ByDialog \<and> dialog_song s \<noteq> None)"
  by (cases who)
     (auto simp: click_dialog_play_def grid_handlePlayPause_call_def split: option.splits)

lemma flag_of_click_dialog_download: "flag_of (click_dialog_download s) who = flag_of s who"
  by (simp add: click_dialog_download_def split: option.splits)

lemma flag_of_dismiss_dialog: "flag_of (dismiss_dialog s) who = flag_of s who"
  by (cases who) (auto simp: dismiss_dialog_def setSelectedSong_null_def split: option.splits)

lemma flag_of_settle:
  "flag_of (settle k outcome s) who \<longleftrightarrow>
     flag_of s who \<and> \<not> (k < length (pending s) \<and> is_play_by who (pending s ! k))"
  by (simp add: settle_def flag_of_resume)

lemmas flag_of_ops = flag_of_click_play flag_of_click_download flag_of_click_card flag_of_hover
  flag_of_click_dialog_play flag_of_click_dialog_download flag_of_dismiss_dialog flag_of_settle

lemma selected_resume [simp]: "selectedSong (grid (resume r outcome s)) = selectedSong (grid s)"
  by (cases "req_intent r"; cases "req_origin r"; cases outcome)
     (auto simp: resume_def grid_handlePlayPause_resume_def split: prod.splits)

lemma selected_ops:
  "selectedSong (grid (click_play i s)) = selectedSong (grid s)"
  "selectedSong (grid (click_download i s)) = selectedSong (grid s)"
  "selectedSong (grid (click_card i s)) =
     (if i < length (cards s) then Some (fst (cards s ! i)) else selectedSong (grid s))"
  "selectedSong (grid (hover i h s)) = selectedSong (grid s)"
  "selectedSong (grid (click_dialog_play s)) = selectedSong (grid s)"
  "selectedSong (grid (click_dialog_download s)) = selectedSong (grid s)"
  "selectedSong (grid (dismiss_dialog s)) =
     (if dialog_song s = None then selectedSong (grid s) else None)"
  "selectedSong (grid (settle k outcome s)) = selectedSong (grid s)"
  by (simp_all add: click_play_def click_download_def click_card_def hover_def
        click_dialog_play_def click_dialog_download_def dismiss_dialog_def settle_def
        handlePlayPause_call_def grid_handlePlayPause_call_def grid_handleCardClick_def
        setSelectedSong_null_def
      split: prod.splits option.splits)

lemma request_ok_card:
  "i < length (cards s) \<Longrightarrow>
     request_ok (songs_of s) (new_request (ByCard i) what (fst (cards s ! i)) (song_id (fst (cards s ! i))))"
  by (simp add: request_ok_def new_request_def)

lemma request_ok_dialog:
  "selected_ok s \<Longrightarrow> dialog_song s = Some song \<Longrightarrow>
     request_ok (songs_of s) (new_request ByDialog what song (song_id song))"
  by (auto simp: request_ok_def new_request_def selected_ok_def dest: dialog_song_selected)

lemma requests_ok_step:
  assumes "client_inv s" and "r \<in> set (pending (step s e))"
  shows "request_ok (songs_of s) r"
proof -
  note inv = client_invD [OF assms(1)]
  have old: "request_ok (songs_of s) r" if "r \<in> set (pending s)"
    using that by (rule inv(1))
  show ?thesis
  proof (cases e)
    case (Settled k outcome)
    with assms(2) set_remove_nth_subset [of k "pending s"] show ?thesis
      by (auto simp: pending_ops intro: old)
  qed (use assms(2) inv(3) in \<open>auto simp: pending_ops request_ok_card request_ok_dialog
         intro: old split: if_splits option.splits\<close>)
qed

lemma flag_matches_step:
  assumes "client_inv s"
  shows "flag_matches (step s e) who"
proof -
  have m: "plays_by who (pending s) = (if flag_of s who then 1 else 0)"
    using client_invD(2) [OF assms, of who] by (simp add: flag_matches_def)
  show ?thesis
  proof (cases e)
    case (Settled k outcome)
    with m plays_by_pos [of k "pending s" who] show ?thesis
      by (cases "k < length (pending s)")
         (auto simp: flag_matches_def pending_ops flag_of_ops plays_by_remove_nth)
  qed (use m in \<open>auto simp: flag_matches_def pending_ops flag_of_ops split: option.splits\<close>)
qed

lemma card_song_mem: "i < length (cards s) \<Longrightarrow> fst (cards s ! i) \<in> set (songs_of s)"
  using nth_mem [of i "songs_of s"] by simp

lemma selected_ok_step:
  assumes "selected_ok s"
  shows "selected_ok (step s e)"
  using assms
  by (cases e) (auto simp: selected_ok_def selected_ops card_song_mem split: option.splits)

lemma client_inv_step:
  assumes "client_inv s"
  shows "client_inv (step s e)"
proof (rule client_invI)
  fix r
  assume "r \<in> set (pending (step s e))"
  with assms show "request_ok (songs_of (step s e)) r"
    by (simp add: requests_ok_step)
next
  fix who
  from assms show "flag_matches (step s e) who"
    by (rule flag_matches_step)
next
  from assms show "selected_ok (step s e)"
    by (simp add: client_invD(3) selected_ok_step)
qed

lemma client_inv_run: "client_inv s \<Longrightarrow> client_inv (run s es)"
  by (induction es arbitrary: s) (simp_all add: client_inv_step)

lemma reachable_client_inv: "reachable songs b s \<Longrightarrow> client_inv s"
  by (induction rule: reachable.induct) (simp_all add: client_inv_mount client_inv_step)

text \<open>
  \<open>dialog_song\<close> tests for the empty list because the code returns the empty state
  before it looks at the selected song. In a state the client reaches the test is
  redundant: a selected song is one of the grid, so the grid is not empty.
\<close>

lemma dialog_song_inv: "client_inv s \<Longrightarrow> dialog_song s = selectedSong (grid s)"
  using client_invD(3) [of s]
  by (cases "selectedSong (grid s)") (auto simp: dialog_song_def selected_ok_def songs_of_def)

section \<open>What a step does to the browser\<close>

definition effect :: "request \<Rightarrow> string settled \<Rightarrow> browser \<Rightarrow> browser" where
  "effect r outcome b =
     (case (req_intent r, outcome) of
        (PlayIntent, Inr u) \<Rightarrow> play_track (mkTrack (req_song r) u) b
      | (PlayIntent, Inl e) \<Rightarrow> log_error ''Failed to play track:'' e b
      | (DownloadIntent, Inr u) \<Rightarrow> open_window u b
      | (DownloadIntent, Inl e) \<Rightarrow> log_error ''Failed to download track:'' e b)"

lemma effect_simps [simp]:
  "req_intent r = PlayIntent \<Longrightarrow> effect r (Inr u) b = play_track (mkTrack (req_song r) u) b"
  "req_intent r = PlayIntent \<Longrightarrow> effect r (Inl e) b = log_error ''Failed to play track:'' e b"
  "req_intent r = DownloadIntent \<Longrightarrow> effect r (Inr u) b = open_window u b"
  "req_intent r = DownloadIntent \<Longrightarrow> effect r (Inl e) b = log_error ''Failed to download track:'' e b"
  by (simp_all add: effect_def)

lemma world_resume:
  assumes "request_ok (songs_of s) r"
  shows "world (resume r outcome s) = effect r outcome (world s)"
proof (cases "req_intent r")
  case PlayIntent
  with assms show ?thesis
    by (cases "req_origin r"; cases outcome)
       (auto simp: resume_def request_ok_def grid_handlePlayPause_resume_def split: prod.splits)
next
  case DownloadIntent
  then show ?thesis
    by (cases "req_origin r"; cases outcome)
       (auto simp: resume_def handleDownload_resume_def grid_handleDownload_resume_def)
qed

lemma world_settle:
  assumes "client_inv s" and "k < length (pending s)"
  shows "world (settle k outcome s) = effect (pending s ! k) outcome (world s)"
proof -
  from assms have "request_ok (songs_of s) (pending s ! k)"
    by (simp add: client_invD(1))
  then have "request_ok (songs_of (s\<lparr>pending := remove_nth k (pending s)\<rparr>)) (pending s ! k)"
    by (simp add: songs_of_def)
  with assms(2) show ?thesis
    by (simp add: settle_def world_resume)
qed

lemma world_settle_beyond: "length (pending s) \<le> k \<Longrightarrow> settle k outcome s = s"
  by (simp add: settle_def)

lemma world_ui:
  "world (click_play i s) = world s"
  "world (click_download i s) = world s"
  "world (click_card i s) = world s"
  "world (hover i h s) = world s"
  "world (click_dialog_play s) = world s"
  "world (click_dialog_download s) = world s"
  "world (dismiss_dialog s) = world s"
  by (simp_all add: click_play_def click_download_def click_card_def hover_def
        click_dialog_play_def click_dialog_download_def dismiss_dialog_def
        handlePlayPause_call_def grid_handlePlayPause_call_def
      split: prod.splits option.splits)

fun is_settle :: "event \<Rightarrow> bool" where
  "is_settle (Settled k outcome) = True"
| "is_settle e = False"

lemma world_step_ui: "\<not> is_settle e \<Longrightarrow> world (step s e) = world s"
  by (cases e) (simp_all add: world_ui)

lemma store_effect:
  "store (effect r outcome b) =
     (case (req_intent r, outcome) of
        (PlayIntent, Inr u) \<Rightarrow> setTrack (mkTrack (req_song r) u) (store b)
      | _ \<Rightarrow> store b)"
  by (cases "req_intent r"; cases outcome) simp_all

section \<open>Where the track in the store comes from\<close>

definition written_by :: "SongCardProps list \<Rightarrow> Track \<Rightarrow> bool" where
  "written_by songs t =
     (case url t of None \<Rightarrow> False | Some u \<Rightarrow> list_ex (\<lambda>song. t = mkTrack song u) songs)"

definition store_ok :: "SongCardProps list \<Rightarrow> browser \<Rightarrow> client \<Rightarrow> bool" where
  "store_ok songs b s \<longleftrightarrow>
     track (store (world s)) = track (store b) \<or>
     (case track (store (world s)) of None \<Rightarrow> False | Some t \<Rightarrow> written_by songs t)"

lemma written_by_mkTrack [simp]: "song \<in> set songs \<Longrightarrow> written_by songs (mkTrack song u)"
  by (auto simp: written_by_def list_ex_iff)

lemma written_by_iff:
  "written_by songs t \<longleftrightarrow> (\<exists>song \<in> set songs. \<exists>u. t = mkTrack song u)"
  by (cases "url t") (auto simp: written_by_def list_ex_iff)

lemma request_ok_song_mem: "request_ok songs r \<Longrightarrow> req_song r \<in> set songs"
  by (cases "req_origin r") (auto simp: request_ok_def dest: nth_mem)

lemma store_ok_step:
  assumes "client_inv s" and "songs_of s = songs" and "store_ok songs b s"
  shows "store_ok songs b (step s e)"
proof (cases e)
  case (Settled k outcome)
  show ?thesis
  proof (cases "k < length (pending s)")
    case True
    with assms(1,2) have "req_song (pending s ! k) \<in> set songs"
      using client_invD(1) request_ok_song_mem by fastforce
    with assms True Settled show ?thesis
      by (auto simp: store_ok_def world_settle store_effect split: intent.splits sum.splits)
  next
    case False
    with assms(3) Settled show ?thesis by (simp add: world_settle_beyond)
  qed
qed (use assms(3) in \<open>simp_all add: store_ok_def world_ui\<close>)

lemma reachable_store_ok: "reachable songs b s \<Longrightarrow> store_ok songs b s"
proof (induction rule: reachable.induct)
  case mounted
  show ?case by (simp add: store_ok_def)
next
  case (stepped s e)
  then show ?case
    by (simp add: store_ok_step reachable_client_inv reachable_songs_of)
qed

lemma reachable_track:
  assumes "reachable songs b s"
  shows "track (store (world s)) = track (store b) \<or>
         (\<exists>song \<in> set songs. \<exists>u. track (store (world s)) = Some (mkTrack song u))"
  using reachable_store_ok [OF assms]
  by (auto simp: store_ok_def written_by_iff split: option.splits)

section \<open>A grid of two songs to try the client on\<close>

definition two_songs :: "SongCardProps list" where
  "two_songs = [demo_song ''X'', demo_song ''Y'']"

definition both_requested :: client where
  "both_requested = run (mount two_songs initial_browser) [PlayClick 0, PlayClick 1]"

lemmas eval_defs = mount_def wiring_defs mg_defs initial_card_def initial_grid_def
  initial_browser_def initial_store_def two_songs_def remove_nth_def

lemma both_requested_eq:
  "both_requested =
     \<lparr>cards = [(demo_song ''X'', \<lparr>isLoading = True, isHovered = False\<rparr>),
               (demo_song ''Y'', \<lparr>isLoading = True, isHovered = False\<rparr>)],
      grid = initial_grid, world = initial_browser,
      pending = [new_request (ByCard 0) PlayIntent (demo_song ''X'') ''X'',
                 new_request (ByCard 1) PlayIntent (demo_song ''Y'') ''Y'']\<rparr>"
  by (simp add: both_requested_def mount_def click_play_def mg_defs initial_card_def two_songs_def)

lemma reachable_both_requested: "reachable two_songs initial_browser both_requested"
  unfolding both_requested_def by (rule reachable_run) (rule reachable.mounted)

section \<open>Properties of the reachable states\<close>

text \<open>
  C5. In every reachable state and for every origin of requests (a card or the
  dialog), exactly one play request of that origin is in flight while its loading
  flag is set, and none while the flag is clear.
\<close>

theorem loading_flag_counts_requests:
  assumes "reachable songs b s"
  shows "plays_by who (pending s) = (if flag_of s who then 1 else 0)"
  using client_invD(2) [OF reachable_client_inv [OF assms], of who]
  by (simp add: flag_matches_def)

theorem loading_flag_counts_requests_witness:
  "reachable two_songs initial_browser both_requested
   \<and> flag_of both_requested (ByCard 1)
   \<and> plays_by (ByCard 1) (pending both_requested) = 1
   \<and> \<not> flag_of both_requested ByDialog
   \<and> plays_by ByDialog (pending both_requested) = 0"
proof -
  note r = reachable_both_requested
  have f: "flag_of both_requested (ByCard 1)" "\<not> flag_of both_requested ByDialog"
    by (simp_all add: both_requested_eq initial_grid_def)
  from r f loading_flag_counts_requests [OF r, of "ByCard 1"]
    loading_flag_counts_requests [OF r, of ByDialog]
  show ?thesis by simp
qed

text \<open>
  C33. Every request in flight is for a song of the grid and asks for the play URL of
  that song; a request of a card is for the song of that card.
\<close>

theorem requests_in_flight_ok:
  assumes "reachable songs b s" and "r \<in> set (pending s)"
  shows "request_ok songs r"
  using client_invD(1) [OF reachable_client_inv [OF assms(1)] assms(2)]
    reachable_songs_of [OF assms(1)]
  by simp

theorem requests_in_flight_ok_witness:
  "reachable two_songs initial_browser both_requested
   \<and> new_request (ByCard 1) PlayIntent (demo_song ''Y'') ''Y'' \<in> set (pending both_requested)
   \<and> request_ok two_songs (new_request (ByCard 1) PlayIntent (demo_song ''Y'') ''Y'')"
proof -
  note r = reachable_both_requested
  have m: "new_request (ByCard 1) PlayIntent (demo_song ''Y'') ''Y'' \<in> set (pending both_requested)"
    by (simp add: both_requested_eq)
  from r m requests_in_flight_ok [OF r m] show ?thesis by simp
qed

text \<open>
  C12. The track of the store is never partial and never foreign: in every reachable
  state a track that is not the one the store held when the grid was mounted has a
  resolved URL and mirrors one song of the grid in its identifier, title, artwork,
  prompt and creator name.
\<close>

theorem store_track_provenance:
  assumes "reachable songs b s" and "getTrack (store (world s)) = Some t"
    and "getTrack (store (world s)) \<noteq> getTrack (store b)"
  shows "\<exists>song \<in> set songs.
           track_id t = song_id song \<and> track_title t = title song
           \<and> artwork t = thumbnailUrl song \<and> track_prompt t = prompt song
           \<and> track_createdByUserName t = createdByUserName song \<and> url t \<noteq> None"
  using reachable_track [OF assms(1)] assms(2,3)
  by (auto simp: getTrack_def)

theorem store_track_provenance_witness:
  "reachable two_songs initial_browser (settle 1 (Inr ''https://cdn/y.mp3'') both_requested)
   \<and> getTrack (store (world (settle 1 (Inr ''https://cdn/y.mp3'') both_requested)))
       = Some (mkTrack (demo_song ''Y'') ''https://cdn/y.mp3'')
   \<and> getTrack (store (world (settle 1 (Inr ''https://cdn/y.mp3'') both_requested)))
       \<noteq> getTrack (store initial_browser)
   \<and> (\<exists>song \<in> set two_songs.
         track_id (mkTrack (demo_song ''Y'') ''https://cdn/y.mp3'') = song_id song
         \<and> track_title (mkTrack (demo_song ''Y'') ''https://cdn/y.mp3'') = title song)"
proof -
  let ?s = "settle 1 (Inr ''https://cdn/y.mp3'') both_requested"
  have r: "reachable two_songs initial_browser ?s"
    using reachable.stepped [OF reachable_both_requested, of "Settled 1 (Inr ''https://cdn/y.mp3'')"]
    by simp
  have t: "getTrack (store (world ?s)) = Some (mkTrack (demo_song ''Y'') ''https://cdn/y.mp3'')"
    by (simp add: both_requested_eq settle_def resume_def new_request_def)
  have n: "getTrack (store (world ?s)) \<noteq> getTrack (store initial_browser)"
    unfolding t by (simp add: initial_browser_def)
  from r t n store_track_provenance [OF r t n] show ?thesis by auto
qed

end
