(* ===== verification/Playback.thy ===== *)
theory Playback
  imports Client_Invariants
begin

text \<open>
  How playback is coordinated: what the settling of a play request does to the one
  track of the store, in which order concurrent requests take effect, what a
  failure leaves behind, which events can change the track at all, the store as a
  register that holds the last track written during a run (\<open>write_of\<close>,
  \<open>writes\<close>), what a settled download does, and what the loading guards of the
  card and of the grid let through.
\<close>

section \<open>Settling a play request\<close>

lemma settle_play_store:
  assumes "client_inv s" and "k < length (pending s)" and "req_intent (pending s ! k) = PlayIntent"
  shows "store (world (settle k (Inr u) s)) = setTrack (mkTrack (req_song (pending s ! k)) u) (store (world s))"
  using assms by (simp add: world_settle)

lemma settle_play_failed_world:
  assumes "client_inv s" and "k < length (pending s)" and "req_intent (pending s ! k) = PlayIntent"
  shows "world (settle k (Inl e) s) = log_error ''Failed to play track:'' e (world s)"
  using assms by (simp add: world_settle)

lemma settle_clears_flag:
  assumes "k < length (pending s)" and "req_intent (pending s ! k) = PlayIntent"
  shows "\<not> flag_of (settle k outcome s) (req_origin (pending s ! k))"
  using assms by (simp add: flag_of_settle is_play_by_def)

text \<open>
  C9. When a play request in flight resolves, the store holds the complete track of
  the request's song with the resolved URL, whatever it held before, and the loading
  flag of the card or dialog that issued the request is clear.
\<close>

theorem play_request_resolved:
  assumes "reachable songs b s" and "k < length (pending s)"
    and "req_intent (pending s ! k) = PlayIntent"
  shows "getTrack (store (world (settle k (Inr u) s))) = Some (mkTrack (req_song (pending s ! k)) u)
         \<and> \<not> flag_of (settle k (Inr u) s) (req_origin (pending s ! k))"
  using assms settle_clears_flag [of k s]
  by (simp add: settle_play_store reachable_client_inv)

theorem play_request_resolved_witness:
  "reachable two_songs initial_browser both_requested
   \<and> (0::nat) < length (pending both_requested)
   \<and> req_intent (pending both_requested ! 0) = PlayIntent
   \<and> getTrack (store (world (settle 0 (Inr ''https://cdn/x.mp3'') both_requested)))
       = Some (mkTrack (demo_song ''X'') ''https://cdn/x.mp3'')
   \<and> \<not> flag_of (settle 0 (Inr ''https://cdn/x.mp3'') both_requested) (ByCard 0)"
proof -
  note r = reachable_both_requested
  have k: "(0::nat) < length (pending both_requested)"
    and p: "req_intent (pending both_requested ! 0) = PlayIntent"
    by (simp_all add: both_requested_eq new_request_def)
  from r k p play_request_resolved [OF r k p, of "''https://cdn/x.mp3''"]
  show ?thesis by (simp add: both_requested_eq new_request_def)
qed

text \<open>
  C10. When a play request in flight fails, the store is left untouched, the loading
  flag of its origin is cleared and one line with the text of the thrown value is
  added to the console; no window is opened.
\<close>

theorem play_request_failed:
  assumes "reachable songs b s" and "k < length (pending s)"
    and "req_intent (pending s ! k) = PlayIntent"
  shows "store (world (settle k (Inl e) s)) = store (world s)
         \<and> \<not> flag_of (settle k (Inl e) s) (req_origin (pending s ! k))
         \<and> console_error (world (settle k (Inl e) s))
             = console_error (world s) @ [(''Failed to play track:'', error_text e)]
         \<and> window_open (world (settle k (Inl e) s)) = window_open (world s)"
  using assms settle_clears_flag [of k s]
  by (simp add: settle_play_failed_world reachable_client_inv)

theorem play_request_failed_witness:
  "reachable two_songs initial_browser both_requested
   \<and> (1::nat) < length (pending both_requested)
   \<and> req_intent (pending both_requested ! 1) = PlayIntent
   \<and> store (world (settle 1 (Inl (ErrorObj ''expired'')) both_requested)) = initial_store
   \<and> console_error (world (settle 1 (Inl (ErrorObj ''expired'')) both_requested))
       = [(''Failed to play track:'', ''expired'')]
   \<and> \<not> flag_of (settle 1 (Inl (ErrorObj ''expired'')) both_requested) (ByCard 1)"
proof -
  note r = reachable_both_requested
  have k: "(1::nat) < length (pending both_requested)"
    and p: "req_intent (pending both_requested ! 1) = PlayIntent"
    by (simp_all add: both_requested_eq new_request_def)
  from r k p play_request_failed [OF r k p, of "ErrorObj ''expired''"]
  show ?thesis by (simp add: both_requested_eq new_request_def initial_browser_def)
qed

section \<open>Concurrent requests: the last completion wins\<close>

text \<open>
  C4. Of two play requests in flight that both resolve, the one that resolves second
  determines the track, whichever was issued first: after request \<open>k\<close> and then
  request \<open>j\<close> have resolved, the store holds the track of request \<open>j\<close>.
\<close>

theorem last_completion_wins:
  assumes "reachable songs b s" and "j < length (pending s)" and "k < length (pending s)"
    and "j \<noteq> k" and "req_intent (pending s ! j) = PlayIntent"
    and "req_intent (pending s ! k) = PlayIntent"
  shows "getTrack (store (world
           (run s [Settled k (Inr uk), Settled (if j < k then j else j - 1) (Inr uj)])))
         = Some (mkTrack (req_song (pending s ! j)) uj)"
proof -
  let ?s1 = "settle k (Inr uk) s" and ?j = "if j < k then j else j - 1"
  have inv1: "client_inv ?s1"
    using client_inv_step [OF reachable_client_inv [OF assms(1)], of "Settled k (Inr uk)"] by simp
  have j: "?j < length (pending ?s1)" and nth: "pending ?s1 ! ?j = pending s ! j"
    using assms(2,4) by (simp_all add: pending_settle length_remove_nth_less nth_remove_nth)
  from inv1 j nth assms(5) show ?thesis
    by (simp add: settle_play_store)
qed

theorem last_completion_wins_witness:
  "map_option track_id (getTrack (store (world
      (run both_requested [Settled 1 (Inr ''https://cdn/y.mp3''), Settled 0 (Inr ''https://cdn/x.mp3'')]))))
   = Some ''X''"
proof -
  have k: "(0::nat) < length (pending both_requested)" "(1::nat) < length (pending both_requested)"
    and p: "req_intent (pending both_requested ! 0) = PlayIntent"
      "req_intent (pending both_requested ! 1) = PlayIntent"
    by (simp_all add: both_requested_eq new_request_def)
  from last_completion_wins [OF reachable_both_requested k(1) k(2) _ p(1) p(2),
      of "''https://cdn/y.mp3''" "''https://cdn/x.mp3''"]
  show ?thesis by (simp add: both_requested_eq new_request_def)
qed

text \<open>
  The scenario of the specification: play is requested for X and then for Y. When
  Y resolves first and X second, the track is X; when X resolves first and Y second,
  the track is Y. In both cases no card is left loading.
\<close>

lemma completion_order_scenario:
  "map_option track_id (getTrack (store (world
      (run (mount two_songs initial_browser)
         [PlayClick 0, PlayClick 1, Settled 1 (Inr ''uy''), Settled 0 (Inr ''ux'')])))) = Some ''X''
   \<and> map_option track_id (getTrack (store (world
      (run (mount two_songs initial_browser)
         [PlayClick 0, PlayClick 1, Settled 0 (Inr ''ux''), Settled 0 (Inr ''uy'')])))) = Some ''Y''
   \<and> map (isLoading \<circ> snd) (cards
      (run (mount two_songs initial_browser)
         [PlayClick 0, PlayClick 1, Settled 1 (Inr ''uy''), Settled 0 (Inr ''ux'')])) = [False, False]"
  by (simp add: eval_defs getTrack_def play_track_def setTrack_def)

section \<open>Which events change the track\<close>

lemma store_step_cases:
  assumes "client_inv s"
  shows "store (world (step s e)) =
           (case e of
              Settled k (Inr u) \<Rightarrow>
                if k < length (pending s) \<and> req_intent (pending s ! k) = PlayIntent
                then setTrack (mkTrack (req_song (pending s ! k)) u) (store (world s))
                else store (world s)
            | _ \<Rightarrow> store (world s))"
proof (cases e)
  case (Settled k outcome)
  with assms show ?thesis
    by (cases "k < length (pending s)"; cases outcome; cases "req_intent (pending s ! k)")
       (simp_all add: world_settle world_settle_beyond)
qed (simp_all add: world_ui)

text \<open>
  C22. Only the successful settling of a play request changes the store: clicks,
  hovering, opening and closing the dialog, downloads and failed requests leave the
  track as it is.
\<close>

theorem only_play_success_writes:
  assumes "reachable songs b s" and "store (world (step s e)) \<noteq> store (world s)"
  shows "\<exists>k u. e = Settled k (Inr u) \<and> k < length (pending s)
               \<and> req_intent (pending s ! k) = PlayIntent"
  using assms(2) store_step_cases [OF reachable_client_inv [OF assms(1)], of e]
  by (auto split: event.splits sum.splits if_splits)

theorem only_play_success_writes_witness:
  "reachable two_songs initial_browser both_requested
   \<and> store (world (step both_requested (Settled 0 (Inr ''ux'')))) \<noteq> store (world both_requested)
   \<and> (\<exists>k u. Settled 0 (Inr ''ux'') = Settled k (Inr u) \<and> k < length (pending both_requested)
              \<and> req_intent (pending both_requested ! k) = PlayIntent)"
proof -
  note r = reachable_both_requested
  have c: "store (world (step both_requested (Settled 0 (Inr ''ux'')))) \<noteq> store (world both_requested)"
    by (simp add: both_requested_eq eval_defs setTrack_def)
  from r c only_play_success_writes [OF r c] show ?thesis by blast
qed

section \<open>The store is a register\<close>

fun write_of :: "client \<Rightarrow> event \<Rightarrow> Track option" where
  "write_of s (Settled k (Inr u)) =
     (if k < length (pending s) \<and> req_intent (pending s ! k) = PlayIntent
      then Some (mkTrack (req_song (pending s ! k)) u) else None)"
| "write_of s e = None"

fun writes :: "client \<Rightarrow> event list \<Rightarrow> Track list" where
  "writes s [] = []"
| "writes s (e # es) = (case write_of s e of None \<Rightarrow> [] | Some t \<Rightarrow> [t]) @ writes (step s e) es"

lemma store_step_write:
  assumes "client_inv s"
  shows "store (world (step s e)) =
           (case write_of s e of None \<Rightarrow> store (world s) | Some t \<Rightarrow> setTrack t (store (world s)))"
proof (cases e)
  case (Settled k outcome)
  then show ?thesis
    using store_step_cases [OF assms, of e] by (cases outcome) simp_all
qed (simp_all add: world_ui)

lemma track_run:
  assumes "client_inv s"
  shows "getTrack (store (world (run s es)))
           = (if writes s es = [] then getTrack (store (world s)) else Some (last (writes s es)))"
  using assms
proof (induction es arbitrary: s)
  case Nil
  then show ?case by simp
next
  case (Cons e es)
  from Cons.prems have "client_inv (step s e)"
    by (rule client_inv_step)
  from Cons.IH [OF this] store_step_write [OF Cons.prems, of e] show ?case
    by (cases "write_of s e") simp_all
qed

text \<open>
  C16. The store is a register: after any sequence of events its track is the one
  written last in that sequence, by the latest play request that resolved, and the
  track it held before when no play request resolved.
\<close>

theorem track_is_last_write:
  assumes "reachable songs b s"
  shows "getTrack (store (world (run s es)))
           = (if writes s es = [] then getTrack (store (world s)) else Some (last (writes s es)))"
  by (rule track_run [OF reachable_client_inv [OF assms]])

theorem track_is_last_write_witness:
  "reachable two_songs initial_browser both_requested
   \<and> writes both_requested [Settled 1 (Inr ''uy''), DownloadClick 0, Settled 0 (Inr ''ux'')]
       = [mkTrack (demo_song ''Y'') ''uy'', mkTrack (demo_song ''X'') ''ux'']
   \<and> getTrack (store (world
        (run both_requested [Settled 1 (Inr ''uy''), DownloadClick 0, Settled 0 (Inr ''ux'')])))
       = Some (mkTrack (demo_song ''X'') ''ux'')"
proof -
  note r = reachable_both_requested
  have w: "writes both_requested [Settled 1 (Inr ''uy''), DownloadClick 0, Settled 0 (Inr ''ux'')]
             = [mkTrack (demo_song ''Y'') ''uy'', mkTrack (demo_song ''X'') ''ux'']"
    by (simp add: both_requested_eq eval_defs)
  from r w track_is_last_write [OF r,
      of "[Settled 1 (Inr ''uy''), DownloadClick 0, Settled 0 (Inr ''ux'')]"]
  show ?thesis by simp
qed

section \<open>Downloads\<close>

lemma resume_download:
  assumes "req_intent r = DownloadIntent"
  shows "resume r outcome s = s\<lparr>world := handleDownload_resume outcome (world s)\<rparr>"
  using assms by (cases "req_origin r") (simp_all add: resume_def grid_handleDownload_resume_eq)

text \<open>
  C23. When a download request in flight settles, from a card or from the dialog, the
  request leaves the requests in flight and the browser opens the resolved URL in a
  new window, or writes the failure to the console; the cards, the grid with its
  loading flags and the store are as before.
\<close>

theorem download_request_settled:
  assumes "k < length (pending s)" and "req_intent (pending s ! k) = DownloadIntent"
  shows "settle k outcome s =
           s\<lparr>pending := remove_nth k (pending s),
             world := (case outcome of
                         Inr u \<Rightarrow> open_window u (world s)
                       | Inl e \<Rightarrow> log_error ''Failed to download track:'' e (world s))\<rparr>
         \<and> store (world (settle k outcome s)) = store (world s)"
  using assms
  by (cases outcome) (simp_all add: settle_def resume_download handleDownload_resume_def)

theorem download_request_settled_witness:
  "0 < length (pending (step (mount two_songs initial_browser) (DownloadClick 1)))
   \<and> window_open (world (settle 0 (Inr ''https://cdn/y.mp3'')
        (step (mount two_songs initial_browser) (DownloadClick 1))))
       = [(''https://cdn/y.mp3'', ''_blank'')]
   \<and> pending (settle 0 (Inr ''https://cdn/y.mp3'')
        (step (mount two_songs initial_browser) (DownloadClick 1))) = []
   \<and> getTrack (store (world (settle 0 (Inr ''https://cdn/y.mp3'')
        (step (mount two_songs initial_browser) (DownloadClick 1))))) = None"
proof -
  let ?s = "step (mount two_songs initial_browser) (DownloadClick 1)"
  have p: "pending ?s = [new_request (ByCard 1) DownloadIntent (demo_song ''Y'') ''Y'']"
    by (simp add: eval_defs)
  then have k: "0 < length (pending ?s)" and i: "req_intent (pending ?s ! 0) = DownloadIntent"
    by (simp_all add: new_request_def)
  from k download_request_settled [OF k i, of "Inr ''https://cdn/y.mp3''"] show ?thesis
    by (simp add: eval_defs open_window_def getTrack_def)
qed

section \<open>The loading guards\<close>

lemma update_same_card: "i < length xs \<Longrightarrow> xs ! i = (p, c) \<Longrightarrow> xs[i := (p, c)] = xs"
  by (simp add: list_update_same_conv)

text \<open>
  C25. The play handlers are not re-entrant. A play click on a card that is loading
  does nothing at all: no request is issued and no state changes. The guard of the
  dialog belongs to the grid, not to a song: while a play request of the dialog is
  in flight, a play click in the dialog does nothing, also when the dialog has since
  been opened on another song.
\<close>

theorem play_click_while_loading:
  "(flag_of s (ByCard i) \<longrightarrow> step s (PlayClick i) = s)
   \<and> (grid_isLoading (grid s) \<longrightarrow> step s DialogPlayClick = s)"
proof -
  have "step s (PlayClick i) = s" if "flag_of s (ByCard i)"
    using that by (cases "cards s ! i") (simp add: click_play_def update_same_card)
  moreover have "step s DialogPlayClick = s" if "grid_isLoading (grid s)"
    using that
    by (cases "dialog_song s") (simp_all add: click_dialog_play_def grid_handlePlayPause_call_def)
  ultimately show ?thesis by simp
qed

definition dialog_reopened :: client where
  "dialog_reopened = run (mount two_songs initial_browser)
     [PlayClick 0, CardClick 0, DialogPlayClick, DialogDismiss, CardClick 1]"

lemma dialog_reopened_eq:
  "dialog_reopened =
     \<lparr>cards = [(demo_song ''X'', \<lparr>isLoading = True, isHovered = False\<rparr>),
               (demo_song ''Y'', initial_card)],
      grid = \<lparr>selectedSong = Some (demo_song ''Y''), grid_isLoading = True\<rparr>,
      world = initial_browser,
      pending = [new_request (ByCard 0) PlayIntent (demo_song ''X'') ''X'',
                 new_request ByDialog PlayIntent (demo_song ''X'') ''X'']\<rparr>"
  by (simp add: dialog_reopened_def eval_defs)

theorem play_click_while_loading_witness:
  "flag_of dialog_reopened (ByCard 0) \<and> grid_isLoading (grid dialog_reopened)
   \<and> selectedSong (grid dialog_reopened) = Some (demo_song ''Y'')
   \<and> map (song_id \<circ> req_song) (pending (run dialog_reopened [PlayClick 0, DialogPlayClick]))
       = [''X'', ''X'']"
proof -
  have f: "flag_of dialog_reopened (ByCard 0)" and l: "grid_isLoading (grid dialog_reopened)"
    by (simp_all add: dialog_reopened_eq)
  with play_click_while_loading [of dialog_reopened 0]
  have "run dialog_reopened [PlayClick 0, DialogPlayClick] = dialog_reopened"
    by simp
  with f l show ?thesis
    by (simp add: dialog_reopened_eq new_request_def mg_defs)
qed

section \<open>The empty grid\<close>

text \<open>
  C37. A grid that is mounted with no songs shows the empty state and offers no
  transition: every event leaves it as it is.
\<close>

theorem empty_grid_inert:
  "view (mount [] b) = EmptyState \<and> step (mount [] b) e = mount [] b"
  by (cases e) (simp_all add: view_def SongGrid_def mount_def wiring_defs)

section \<open>Every request can settle\<close>

lemma pending_drain:
  "length outcomes = length (pending s) \<Longrightarrow> pending (run s (map (Settled 0) outcomes)) = []"
proof (induction outcomes arbitrary: s)
  case Nil
  then show ?case by simp
next
  case (Cons outcome outcomes)
  then obtain r rs where rs: "pending s = r # rs"
    by (cases "pending s") auto
  with Cons.prems have "length outcomes = length (pending (settle 0 outcome s))"
    by (simp add: pending_settle)
  then show ?case
    using Cons.IH by simp
qed

lemma no_pending_no_flag:
  assumes "client_inv s" and "pending s = []"
  shows "\<not> flag_of s who"
  using client_invD(2) [OF assms(1), of who] assms(2)
  by (simp add: flag_matches_def split: if_splits)

text \<open>
  C34. Requests never block each other: from any reachable state, settling the
  requests in flight one after the other, with any outcomes, leaves no request in
  flight and no loading flag set, on any card or on the dialog.
\<close>

theorem all_requests_settle:
  assumes "reachable songs b s" and "length outcomes = length (pending s)"
  shows "pending (run s (map (Settled 0) outcomes)) = []
         \<and> (\<forall>who. \<not> flag_of (run s (map (Settled 0) outcomes)) who)"
  using assms
  by (simp add: pending_drain no_pending_no_flag client_inv_run reachable_client_inv)

theorem all_requests_settle_witness:
  "reachable two_songs initial_browser both_requested
   \<and> length [Inl (ErrorObj ''expired''), Inr ''uy''] = length (pending both_requested)
   \<and> pending (run both_requested (map (Settled 0) [Inl (ErrorObj ''expired''), Inr ''uy''])) = []
   \<and> (\<forall>who. \<not> flag_of (run both_requested
              (map (Settled 0) [Inl (ErrorObj ''expired''), Inr ''uy''])) who)"
proof -
  note r = reachable_both_requested
  have n: "length [Inl (ErrorObj ''expired''), Inr ''uy''] = length (pending both_requested)"
    by (simp add: both_requested_eq)
  from r n all_requests_settle [OF r n] show ?thesis by blast
qed

section \<open>What the cards show\<close>

lemma view_cards:
  assumes "view s = Library cvs d" and "i < length (cards s)"
  shows "cvs ! i = SongCard (store (world s)) (snd (cards s ! i)) (fst (cards s ! i))"
  using assms by (auto simp: view_def SongGrid_def split: if_splits prod.splits)

text \<open>
  A card shows the spinner exactly while a play request of that card is in
  flight.
\<close>

lemma spinner_iff_request_in_flight:
  assumes "reachable songs b s" and "view s = Library cvs d" and "i < length (cards s)"
  shows "(cv_icon (cvs ! i) = Loader2Icon) = (\<exists>r \<in> set (pending s). is_play_by (ByCard i) r)"
proof -
  have "plays_by (ByCard i) (pending s) = (if flag_of s (ByCard i) then 1 else 0)"
    using client_invD(2) [OF reachable_client_inv [OF assms(1)], of "ByCard i"]
    by (simp add: flag_matches_def)
  then have "isLoading (snd (cards s ! i)) \<longleftrightarrow> (\<exists>r \<in> set (pending s). is_play_by (ByCard i) r)"
    using assms(3) plays_by_zero_iff [of "ByCard i" "pending s"] by (auto split: if_splits)
  then show ?thesis
    by (simp add: view_cards [OF assms(2,3)] mg_view Let_def)
qed

lemma spinner_iff_request_in_flight_example:
  "reachable two_songs initial_browser (step (mount two_songs initial_browser) (PlayClick 1))
   \<and> map cv_icon (case view (step (mount two_songs initial_browser) (PlayClick 1)) of
         Library cvs d \<Rightarrow> cvs | EmptyState \<Rightarrow> []) = [PlayIcon, Loader2Icon]
   \<and> (\<exists>r \<in> set (pending (step (mount two_songs initial_browser) (PlayClick 1))).
         is_play_by (ByCard 1) r)"
proof -
  let ?s = "step (mount two_songs initial_browser) (PlayClick 1)"
  have r: "reachable two_songs initial_browser ?s"
    by (rule reachable.stepped) (rule reachable.mounted)
  have v: "view ?s = Library
       (map (\<lambda>(props, c). SongCard (store (world ?s)) c props) (cards ?s)) None"
    by (simp add: view_def SongGrid_def eval_defs)
  have i: "1 < length (cards ?s)"
    by (simp add: eval_defs)
  from spinner_iff_request_in_flight [OF r v i] r show ?thesis
    by (simp add: eval_defs mg_view view_def)
qed

end
