(* ===== verification/Playback_Spec.thy ===== *)
theory Playback_Spec
  imports Playback
begin

text \<open>
  The playback controller as the specification describes it, and the proof that the
  client implements it. The machine of the specification has no loading flags and no
  queue of promises: its state is which origins (a card or the dialog) are resolving a
  play URL, and for which song, together with the current track. A play intent moves
  an origin that is not resolving to resolving; a resolution writes the track and
  leaves resolving; a failure only leaves resolving; everything else changes nothing.
  The phase of an item (idle, resolving, active) is derived from that state.

  \<open>abs_client\<close> maps a state of the client to a state of this machine and
  \<open>label_of\<close> an event of the client to an action of the machine. The refinement
  lemmas show that every step of the client is the step of the machine on the
  abstracted state, so every run of the client is a run of the machine, and that what
  the cards and the dialog show is a function of the abstract state.
\<close>

section \<open>The machine of the specification\<close>

datatype phase = Idle | Resolving | Active

record player =
  resolving :: "(origin \<times> SongCardProps) list"
  current :: "Track option"

datatype action =
    APlay origin SongCardProps
  | AResolve origin string
  | AFail origin thrown
  | ASkip

definition resolving_song :: "player \<Rightarrow> origin \<Rightarrow> SongCardProps option" where
  "resolving_song a who = map_of (resolving a) who"

definition leave :: "origin \<Rightarrow> player \<Rightarrow> player" where
  "leave who a = a\<lparr>resolving := filter (\<lambda>p. fst p \<noteq> who) (resolving a)\<rparr>"

fun spec_step :: "player \<Rightarrow> action \<Rightarrow> player" where
  "spec_step a (APlay who song) =
     (case resolving_song a who of
        None \<Rightarrow> a\<lparr>resolving := resolving a @ [(who, song)]\<rparr>
      | Some busy \<Rightarrow> a)"
| "spec_step a (AResolve who u) =
     (case resolving_song a who of
        None \<Rightarrow> a
      | Some song \<Rightarrow> (leave who a)\<lparr>current := Some (mkTrack song u)\<rparr>)"
| "spec_step a (AFail who e) =
     (case resolving_song a who of
        None \<Rightarrow> a
      | Some song \<Rightarrow> leave who a)"
| "spec_step a ASkip = a"

definition spec_run :: "player \<Rightarrow> action list \<Rightarrow> player" where
  "spec_run = foldl spec_step"

definition initial_player :: "Track option \<Rightarrow> player" where
  "initial_player t = \<lparr>resolving = [], current = t\<rparr>"

definition phase_of :: "player \<Rightarrow> origin \<Rightarrow> string \<Rightarrow> phase" where
  "phase_of a who i =
     (if resolving_song a who \<noteq> None then Resolving
      else (case current a of
              None \<Rightarrow> Idle
            | Some t \<Rightarrow> if track_id t = i \<and> url t \<noteq> None then Active else Idle))"

fun phase_icon :: "phase \<Rightarrow> icon" where
  "phase_icon Resolving = Loader2Icon"
| "phase_icon Active = PauseIcon"
| "phase_icon Idle = PlayIcon"

section \<open>From the client to the machine\<close>

definition is_play :: "request \<Rightarrow> bool" where
  "is_play r \<longleftrightarrow> req_intent r = PlayIntent"

definition abs_client :: "client \<Rightarrow> player" where
  "abs_client s =
     \<lparr>resolving = map (\<lambda>r. (req_origin r, req_song r)) (filter is_play (pending s)),
      current = getTrack (store (world s))\<rparr>"

fun label_of :: "client \<Rightarrow> event \<Rightarrow> action" where
  "label_of s (PlayClick i) =
     (if i < length (cards s) then APlay (ByCard i) (fst (cards s ! i)) else ASkip)"
| "label_of s DialogPlayClick =
     (case dialog_song s of None \<Rightarrow> ASkip | Some song \<Rightarrow> APlay ByDialog song)"
| "label_of s (Settled k outcome) =
     (if k < length (pending s) \<and> is_play (pending s ! k) then
        (case outcome of
           Inr u \<Rightarrow> AResolve (req_origin (pending s ! k)) u
         | Inl e \<Rightarrow> AFail (req_origin (pending s ! k)) e)
      else ASkip)"
| "label_of s e = ASkip"

fun labels :: "client \<Rightarrow> event list \<Rightarrow> action list" where
  "labels s [] = []"
| "labels s (e # es) = label_of s e # labels (step s e) es"

definition url_not_empty :: "Track option \<Rightarrow> bool" where
  "url_not_empty t = (case t of None \<Rightarrow> True | Some t' \<Rightarrow> url t' \<noteq> Some [])"

section \<open>The machine alone\<close>

lemma spec_run_simps [simp]:
  "spec_run a [] = a"
  "spec_run a (l # ls) = spec_run (spec_step a l) ls"
  "spec_run a (ls @ ls') = spec_run (spec_run a ls) ls'"
  by (simp_all add: spec_run_def)

lemma resolving_song_leave [simp]: "resolving_song (leave who a) who = None"
  by (simp add: resolving_song_def leave_def)

lemma resolving_song_leave_other:
  "who' \<noteq> who \<Longrightarrow> resolving_song (leave who a) who' = resolving_song a who'"
  by (simp add: resolving_song_def leave_def map_of_filter_fst_other)

lemma current_leave [simp]: "current (leave who a) = current a"
  by (simp add: leave_def)

lemma phase_of_resolving:
  "phase_of a who i = Resolving \<longleftrightarrow> resolving_song a who \<noteq> None"
  by (auto simp: phase_of_def split: option.splits)

subsection \<open>Abstraction of the requests in flight\<close>

lemma is_play_by_iff: "is_play_by who r \<longleftrightarrow> is_play r \<and> req_origin r = who"
  by (simp add: is_play_by_def is_play_def)

lemma filter_origin_is_play:
  "filter (\<lambda>r. is_play r \<and> req_origin r = who) rs = filter (is_play_by who) rs"
  by (rule filter_cong) (simp_all add: is_play_by_iff)

lemma resolving_song_abs:
  "resolving_song (abs_client s) who =
     (case filter (is_play_by who) (pending s) of [] \<Rightarrow> None | r # rs \<Rightarrow> Some (req_song r))"
  by (simp add: resolving_song_def abs_client_def map_of_map_filter filter_origin_is_play)

lemma resolving_song_None_iff:
  assumes "client_inv s"
  shows "resolving_song (abs_client s) who = None \<longleftrightarrow> \<not> flag_of s who"
  using client_invD(2) [OF assms, of who]
  by (auto simp: resolving_song_abs flag_matches_def plays_by_def split: list.splits if_splits)

lemma plays_by_one:
  assumes "client_inv s" and "k < length (pending s)" and "is_play (pending s ! k)"
  shows "length (filter (is_play_by (req_origin (pending s ! k))) (pending s)) = 1"
proof -
  from assms(2,3) have "0 < plays_by (req_origin (pending s ! k)) (pending s)"
    by (intro plays_by_pos) (simp_all add: is_play_by_iff)
  with client_invD(2) [OF assms(1), of "req_origin (pending s ! k)"] show ?thesis
    by (simp add: flag_matches_def plays_by_def split: if_splits)
qed

lemma resolving_song_settled:
  assumes "client_inv s" and "k < length (pending s)" and "is_play (pending s ! k)"
  shows "resolving_song (abs_client s) (req_origin (pending s ! k)) = Some (req_song (pending s ! k))"
  using filter_single_nth [OF plays_by_one [OF assms] assms(2)] assms(3)
  by (simp add: resolving_song_abs is_play_by_iff)

lemma resolving_leave_settled:
  assumes "client_inv s" and "k < length (pending s)" and "is_play (pending s ! k)"
  shows "resolving (leave (req_origin (pending s ! k)) (abs_client s))
           = resolving (abs_client (s\<lparr>pending := remove_nth k (pending s)\<rparr>))"
proof -
  let ?who = "req_origin (pending s ! k)"
  have "is_play_by ?who (pending s ! k)"
    using assms(3) by (simp add: is_play_by_iff)
  then have "remove_nth k (pending s) = filter (\<lambda>r. \<not> is_play_by ?who r) (pending s)"
    by (rule remove_nth_unique [OF plays_by_one [OF assms] assms(2)])
  then have "filter is_play (remove_nth k (pending s))
               = filter (\<lambda>r. req_origin r \<noteq> ?who) (filter is_play (pending s))"
    by (auto simp: is_play_by_iff intro: filter_cong)
  then show ?thesis
    by (simp add: leave_def abs_client_def filter_map comp_def)
qed

subsection \<open>Every step of the client is a step of the machine\<close>

lemma abs_client_sel [simp]:
  "resolving (abs_client s) = map (\<lambda>r. (req_origin r, req_song r)) (filter is_play (pending s))"
  "current (abs_client s) = getTrack (store (world s))"
  by (simp_all add: abs_client_def)

lemma abs_client_eqI:
  assumes "filter is_play (pending s') = filter is_play (pending s)"
    and "store (world s') = store (world s)"
  shows "abs_client s' = abs_client s"
  using assms by (simp add: abs_client_def)

lemma abs_ui:
  "abs_client (click_download i s) = abs_client s"
  "abs_client (click_card i s) = abs_client s"
  "abs_client (hover i h s) = abs_client s"
  "abs_client (click_dialog_download s) = abs_client s"
  "abs_client (dismiss_dialog s) = abs_client s"
  by (rule abs_client_eqI;
      simp add: pending_ops world_ui is_play_def new_request_def split: option.splits)+

lemma abs_play:
  assumes "pending s' = pending s @ (if flag_of s who then [] else [new_request who PlayIntent song a])"
    and "world s' = world s" and "client_inv s"
  shows "abs_client s' = spec_step (abs_client s) (APlay who song)"
proof (cases "flag_of s who")
  case True
  then obtain busy where "resolving_song (abs_client s) who = Some busy"
    using resolving_song_None_iff [OF assms(3), of who] by auto
  with True assms(1,2) show ?thesis
    by (simp add: abs_client_def)
next
  case False
  then have "resolving_song (abs_client s) who = None"
    by (simp add: resolving_song_None_iff [OF assms(3)])
  with False assms(1,2) show ?thesis
    by (simp add: abs_client_def is_play_def new_request_def)
qed

lemma abs_click_play:
  assumes "client_inv s"
  shows "abs_client (click_play i s) = spec_step (abs_client s) (label_of s (PlayClick i))"
proof (cases "i < length (cards s)")
  case True
  then have "abs_client (click_play i s)
               = spec_step (abs_client s) (APlay (ByCard i) (fst (cards s ! i)))"
    by (intro abs_play [where a = "song_id (fst (cards s ! i))", OF _ _ assms])
       (simp_all add: pending_click_play world_ui)
  with True show ?thesis by simp
next
  case False
  then have "abs_client (click_play i s) = abs_client s"
    by (intro abs_client_eqI) (simp_all add: pending_click_play world_ui)
  with False show ?thesis by simp
qed

lemma abs_click_dialog_play:
  assumes "client_inv s"
  shows "abs_client (click_dialog_play s) = spec_step (abs_client s) (label_of s DialogPlayClick)"
proof (cases "dialog_song s")
  case None
  then have "abs_client (click_dialog_play s) = abs_client s"
    by (intro abs_client_eqI) (simp_all add: pending_click_dialog_play world_ui)
  with None show ?thesis by simp
next
  case (Some song)
  then have "abs_client (click_dialog_play s) = spec_step (abs_client s) (APlay ByDialog song)"
    by (intro abs_play [where a = "song_id song", OF _ _ assms])
       (simp_all add: pending_click_dialog_play world_ui)
  with Some show ?thesis by simp
qed

lemma abs_settle_play:
  assumes "client_inv s" and "k < length (pending s)" and "is_play (pending s ! k)"
  shows "abs_client (settle k outcome s) =
           (case outcome of
              Inr u \<Rightarrow> (leave (req_origin (pending s ! k)) (abs_client s))
                         \<lparr>current := Some (mkTrack (req_song (pending s ! k)) u)\<rparr>
            | Inl e \<Rightarrow> leave (req_origin (pending s ! k)) (abs_client s))"
proof -
  have "resolving (abs_client (settle k outcome s))
          = resolving (leave (req_origin (pending s ! k)) (abs_client s))"
    using resolving_leave_settled [OF assms] by (simp add: pending_settle)
  moreover have "req_intent (pending s ! k) = PlayIntent"
    using assms(3) by (simp add: is_play_def)
  ultimately show ?thesis
    by (cases outcome) (simp_all add: world_settle [OF assms(1,2)])
qed

lemma abs_settle:
  assumes "client_inv s"
  shows "abs_client (settle k outcome s) = spec_step (abs_client s) (label_of s (Settled k outcome))"
proof (cases "k < length (pending s)")
  case False
  then show ?thesis
    by (simp add: world_settle_beyond)
next
  case k: True
  show ?thesis
  proof (cases "is_play (pending s ! k)")
    case True
    with k show ?thesis
      by (cases outcome)
         (simp_all add: abs_settle_play [OF assms] resolving_song_settled [OF assms])
  next
    case False
    then have "req_intent (pending s ! k) = DownloadIntent"
      by (cases "req_intent (pending s ! k)") (simp_all add: is_play_def)
    with k False have "abs_client (settle k outcome s) = abs_client s"
      by (intro abs_client_eqI)
         (simp_all add: pending_settle filter_remove_nth_other world_settle [OF assms]
            store_effect)
    with k False show ?thesis by simp
  qed
qed

lemma abs_step:
  assumes "client_inv s"
  shows "abs_client (step s e) = spec_step (abs_client s) (label_of s e)"
  by (cases e) (simp_all add: abs_ui abs_click_play abs_click_dialog_play abs_settle assms)

lemma abs_run:
  "client_inv s \<Longrightarrow> abs_client (run s es) = spec_run (abs_client s) (labels s es)"
  by (induction es arbitrary: s) (simp_all add: abs_step client_inv_step)

lemma abs_mount: "abs_client (mount songs b) = initial_player (getTrack (store b))"
  by (simp add: abs_client_def initial_player_def)

section \<open>The client implements the machine\<close>

text \<open>
  C6. Every run of the mounted grid is a run of the specification's machine: the
  abstraction of the state the client reaches by a sequence of events is the state the
  machine reaches from its initial state by the actions of these events. In particular
  the loading flags guard play intents exactly as the machine's resolving origins do,
  and a settled request writes the track of the song its origin was resolving.
\<close>

theorem client_refines_spec:
  "abs_client (run (mount songs b) es)
     = spec_run (initial_player (getTrack (store b))) (labels (mount songs b) es)"
  using abs_run [OF client_inv_mount, of songs b es] by (simp add: abs_mount)

section \<open>What is shown is the phase\<close>

lemma isPlaying_url:
  assumes "url_not_empty (getTrack st)"
  shows "isPlaying st i \<longleftrightarrow>
           (case getTrack st of None \<Rightarrow> False | Some t \<Rightarrow> track_id t = i \<and> url t \<noteq> None)"
proof (cases "track st")
  case None
  then show ?thesis by (simp add: getTrack_def)
next
  case (Some t)
  with assms have "truthy (url t) \<longleftrightarrow> url t \<noteq> None"
    by (cases "url t") (simp_all add: url_not_empty_def getTrack_def)
  with Some show ?thesis by (simp add: getTrack_def)
qed

lemma button_icon_phase:
  assumes "client_inv s" and "url_not_empty (getTrack (store (world s)))"
  shows "button_icon (flag_of s who) (isPlaying (store (world s)) i)
           = phase_icon (phase_of (abs_client s) who i)"
proof -
  have r: "resolving_song (abs_client s) who = None \<longleftrightarrow> \<not> flag_of s who"
    by (rule resolving_song_None_iff [OF assms(1)])
  show ?thesis
    unfolding isPlaying_url [OF assms(2)]
    by (cases "flag_of s who"; cases "getTrack (store (world s))")
       (simp_all add: phase_of_def button_icon_def r)
qed

lemma view_dialog:
  assumes "view s = Library cvs d"
  shows "d = map_option (Dialog (store (world s)) (grid s)) (selectedSong (grid s))"
  using assms by (cases "selectedSong (grid s)") (simp_all add: view_def SongGrid_def split: if_splits)

lemma icon_SongCard:
  "cv_icon (SongCard st c props) = button_icon (isLoading c) (isPlaying st (song_id props))"
  by (simp add: SongCard_def Let_def button_icon_def)

lemma icon_Dialog:
  "dv_icon (Dialog st g song) = button_icon (grid_isLoading g) (isPlaying st (song_id song))"
  by (simp add: Dialog_def grid_isPlaying_eq button_icon_def)

text \<open>
  C35. What a card and the dialog show is the phase of the specification: as long as
  the URL of the current track is not the empty string, the icon of a card's button is
  the icon of the card's phase in the abstract state, and the icon of the dialog's
  button is the icon of the dialog's phase for the selected song.
\<close>

theorem icon_shows_phase:
  assumes "reachable songs b s" and "view s = Library cvs d" and "i < length (cards s)"
    and "url_not_empty (getTrack (store (world s)))"
  shows "cv_icon (cvs ! i)
           = phase_icon (phase_of (abs_client s) (ByCard i) (song_id (fst (cards s ! i))))
         \<and> map_option dv_icon d
           = map_option (\<lambda>song. phase_icon (phase_of (abs_client s) ByDialog (song_id song)))
               (selectedSong (grid s))"
proof -
  note inv = reachable_client_inv [OF assms(1)]
  note phase = button_icon_phase [OF inv assms(4)]
  have "cv_icon (cvs ! i)
          = button_icon (flag_of s (ByCard i))
              (isPlaying (store (world s)) (song_id (fst (cards s ! i))))"
    using assms(3) by (simp add: view_cards [OF assms(2,3)] icon_SongCard)
  moreover have "map_option dv_icon d
      = map_option (\<lambda>song. button_icon (flag_of s ByDialog)
          (isPlaying (store (world s)) (song_id song))) (selectedSong (grid s))"
    by (simp add: view_dialog [OF assms(2)] option.map_comp comp_def icon_Dialog)
  ultimately show ?thesis
    by (simp only: phase)
qed

theorem icon_shows_phase_witness:
  "reachable two_songs initial_browser both_requested
   \<and> url_not_empty (getTrack (store (world both_requested)))
   \<and> phase_of (abs_client both_requested) (ByCard 1) ''Y'' = Resolving
   \<and> map cv_icon (case view both_requested of Library cvs d \<Rightarrow> cvs | EmptyState \<Rightarrow> [])
       = [Loader2Icon, Loader2Icon]"
proof -
  note r = reachable_both_requested
  have v: "view both_requested = Library
       (map (\<lambda>(props, c). SongCard (store (world both_requested)) c props)
          (cards both_requested)) None"
    by (simp add: view_def SongGrid_def both_requested_eq initial_grid_def)
  have i: "1 < length (cards both_requested)"
    by (simp add: both_requested_eq)
  have u: "url_not_empty (getTrack (store (world both_requested)))"
    by (simp add: both_requested_eq url_not_empty_def initial_browser_def)
  from icon_shows_phase [OF r v i u] r u show ?thesis
    by (simp add: both_requested_eq view_def mg_view initial_grid_def phase_of_def
          resolving_song_def is_play_def new_request_def)
qed

section \<open>A card that becomes active without resolving\<close>

lemma dialog_requested:
  "run (mount two_songs initial_browser) [CardClick 0, DialogPlayClick]
     = \<lparr>cards = [(demo_song ''X'', initial_card), (demo_song ''Y'', initial_card)],
        grid = \<lparr>selectedSong = Some (demo_song ''X''), grid_isLoading = True\<rparr>,
        world = initial_browser,
        pending = [new_request ByDialog PlayIntent (demo_song ''X'') ''X'']\<rparr>"
  by (simp add: mount_def two_songs_def click_card_def click_dialog_play_def dialog_song_def
        mg_defs initial_grid_def)

lemma dialog_resolved:
  "abs_client (run (mount two_songs initial_browser)
       [CardClick 0, DialogPlayClick, Settled 0 (Inr u)])
     = \<lparr>resolving = [], current = Some (mkTrack (demo_song ''X'') u)\<rparr>"
proof -
  have "run (mount two_songs initial_browser) [CardClick 0, DialogPlayClick, Settled 0 (Inr u)]
          = settle 0 (Inr u) (run (mount two_songs initial_browser) [CardClick 0, DialogPlayClick])"
    by simp
  then show ?thesis
    by (simp only: dialog_requested)
       (simp add: abs_client_def settle_def resume_def new_request_def
          grid_handlePlayPause_resume_def is_play_def)
qed

text \<open>
  A card can become active without ever resolving: when the dialog is opened on
  the song of card 0 and the dialog's play request resolves, card 0 goes from idle to
  active directly, while the dialog passes through resolving. The phases of card 0 and
  of the dialog after each event of that run are as stated.
\<close>

lemma active_without_resolving:
  "map (\<lambda>es. phase_of (abs_client (run (mount two_songs initial_browser) es)) (ByCard 0) ''X'')
     [[], [CardClick 0], [CardClick 0, DialogPlayClick],
      [CardClick 0, DialogPlayClick, Settled 0 (Inr ''u'')]]
     = [Idle, Idle, Idle, Active]
   \<and> map (\<lambda>es. phase_of (abs_client (run (mount two_songs initial_browser) es)) ByDialog ''X'')
     [[], [CardClick 0], [CardClick 0, DialogPlayClick],
      [CardClick 0, DialogPlayClick, Settled 0 (Inr ''u'')]]
     = [Idle, Idle, Resolving, Active]"
proof -
  let ?m = "mount two_songs initial_browser"
  have 0: "abs_client (run ?m []) = initial_player None"
    by (simp add: abs_mount initial_browser_def)
  have 1: "abs_client (run ?m [CardClick 0]) = initial_player None"
    using 0 by (simp add: abs_ui)
  have 2: "abs_client (run ?m [CardClick 0, DialogPlayClick])
             = \<lparr>resolving = [(ByDialog, demo_song ''X'')], current = None\<rparr>"
    by (simp only: dialog_requested)
       (simp add: abs_client_def is_play_def new_request_def initial_browser_def)
  show ?thesis
    by (simp only: list.map 0 1 2 dialog_resolved)
       (simp add: phase_of_def resolving_song_def initial_player_def)
qed

end
