(* ===== verification/Client_Bounds.thy ===== *)
theory Client_Bounds
  imports Playback_Spec
begin

text \<open>
  How many requests can be in flight. The play handlers are guarded by their loading
  flags, so the play requests in flight are bounded by the number of places a play
  intent can come from: one per card and one for the dialog. The bound is reached,
  with two requests for one song, since the card of a song and the dialog opened on
  it have a guard each. The download handlers have no guard: every download intent
  puts one more request in flight.
\<close>

section \<open>Lists with at most one element per key\<close>

lemma distinct_map_if_filter_le_1:
  assumes "\<And>k. length (filter (\<lambda>x. f x = k) xs) \<le> 1"
  shows "distinct (map f xs)"
  using assms
proof (induction xs)
  case Nil
  then show ?case by simp
next
  case (Cons x xs)
  have tail: "length (filter (\<lambda>y. f y = k) xs) \<le> 1" for k
    using Cons.prems [of k] by (simp split: if_splits)
  have "filter (\<lambda>y. f y = f x) xs = []"
    using Cons.prems [of "f x"] by simp
  then have "f x \<notin> f ` set xs"
    by (auto simp: filter_empty_conv)
  with Cons.IH [OF tail] show ?case by simp
qed

lemma length_le_if_distinct_keys:
  assumes "distinct (map f xs)" and "f ` set xs \<subseteq> set ks"
  shows "length xs \<le> length ks"
proof -
  have "length xs = card (set (map f xs))"
    using assms(1) by (simp add: distinct_card del: set_map)
  also have "\<dots> \<le> card (set ks)"
    using assms(2) by (intro card_mono) simp_all
  also have "\<dots> \<le> length ks"
    by (rule card_length)
  finally show ?thesis .
qed

section \<open>Play requests are bounded\<close>

lemma play_origins_distinct:
  assumes "client_inv s"
  shows "distinct (map req_origin (filter is_play (pending s)))"
proof (rule distinct_map_if_filter_le_1)
  fix who
  have "filter (\<lambda>r. req_origin r = who) (filter is_play (pending s))
          = filter (is_play_by who) (pending s)"
    by (simp add: filter_origin_is_play)
  with client_invD(2) [OF assms, of who]
  show "length (filter (\<lambda>r. req_origin r = who) (filter is_play (pending s))) \<le> 1"
    by (simp add: flag_matches_def plays_by_def split: if_splits)
qed

lemma play_origins_known:
  assumes "client_inv s"
  shows "req_origin ` set (filter is_play (pending s)) \<subseteq> set (origins s)"
proof
  fix who
  assume "who \<in> req_origin ` set (filter is_play (pending s))"
  then obtain r where r: "r \<in> set (pending s)" and who: "req_origin r = who"
    by auto
  show "who \<in> set (origins s)"
  proof (cases who)
    case (ByCard i)
    with client_invD(1) [OF assms r] who have "i < length (cards s)"
      by (simp add: request_ok_def length_songs_of)
    with ByCard show ?thesis
      by (simp add: set_origins)
  next
    case ByDialog
    then show ?thesis
      by (simp add: set_origins)
  qed
qed

lemma plays_in_flight:
  assumes "client_inv s"
  shows "length (filter is_play (pending s)) \<le> length (cards s) + 1"
  using length_le_if_distinct_keys [OF play_origins_distinct [OF assms] play_origins_known [OF assms]]
  by (simp add: origins_def)

lemma length_cards_reachable: "reachable songs b s \<Longrightarrow> length (cards s) = length songs"
  using reachable_songs_of [of songs b s] length_songs_of [of s] by simp

text \<open>
  C20. The play requests in flight are bounded by the grid: in every reachable state
  there are at most as many as the grid has songs, plus one for the dialog, and they
  come from different cards.
\<close>

theorem play_requests_bounded:
  assumes "reachable songs b s"
  shows "length (filter is_play (pending s)) \<le> length songs + 1
         \<and> distinct (map req_origin (filter is_play (pending s)))"
  using plays_in_flight [OF reachable_client_inv [OF assms]]
    play_origins_distinct [OF reachable_client_inv [OF assms]] length_cards_reachable [OF assms]
  by simp

theorem play_requests_bounded_witness:
  "reachable two_songs initial_browser both_requested
   \<and> length (filter is_play (pending both_requested)) = 2
   \<and> length (filter is_play (pending (step both_requested (PlayClick 0)))) = 2
   \<and> length two_songs + 1 = 3"
proof -
  note r = reachable_both_requested
  from r play_requests_bounded [OF r] show ?thesis
    by (simp add: both_requested_eq is_play_def new_request_def two_songs_def click_play_def
          mg_defs)
qed

section \<open>The bound is reached\<close>

abbreviation play_request_of :: "SongCardProps list \<Rightarrow> nat \<Rightarrow> request" where
  "play_request_of songs i \<equiv>
     new_request (ByCard i) PlayIntent (songs ! i) (song_id (songs ! i))"

lemma plays_by_map_cards:
  "plays_by who (map (play_request_of songs) [0..<n])
     = (case who of ByCard i \<Rightarrow> if i < n then 1 else 0 | ByDialog \<Rightarrow> 0)"
  by (induction n) (simp_all split: origin.splits)

lemma reachable_not_loading:
  assumes "reachable songs b s" and "plays_by who (pending s) = 0"
  shows "\<not> flag_of s who"
  using client_invD(2) [OF reachable_client_inv [OF assms(1)], of who] assms(2)
  by (simp add: flag_matches_def split: if_splits)

lemma pending_play_clicks:
  assumes "n \<le> length songs"
  shows "pending (run (mount songs b) (map PlayClick [0..<n])) = map (play_request_of songs) [0..<n]"
  using assms
proof (induction n)
  case 0
  then show ?case by simp
next
  case (Suc n)
  let ?s = "run (mount songs b) (map PlayClick [0..<n])"
  have r: "reachable songs b ?s"
    by (rule reachable_run) (rule reachable.mounted)
  from Suc have p: "pending ?s = map (play_request_of songs) [0..<n]"
    by simp
  have "\<not> flag_of ?s (ByCard n)"
    by (rule reachable_not_loading [OF r]) (simp add: p plays_by_map_cards)
  moreover have "fst (cards ?s ! n) = songs ! n" and "n < length (cards ?s)"
    using Suc.prems reachable_songs_of [OF r] length_cards_reachable [OF r]
    by (simp_all flip: songs_of_nth)
  ultimately show ?case
    by (simp add: p pending_click_play)
qed

text \<open>
  C21. The bound of the play requests is reached, and the guard is one per card and
  one for the dialog, not one per song: after a play click on every card and a play
  click in the dialog opened on the first card, one play request per card and one of
  the dialog are in flight, and two of them resolve the URL of the first song.
\<close>

theorem play_bound_reached:
  assumes "songs \<noteq> []"
  shows "pending (run (mount songs b)
                   (map PlayClick [0..<length songs] @ [CardClick 0, DialogPlayClick]))
           = map (play_request_of songs) [0..<length songs]
             @ [new_request ByDialog PlayIntent (songs ! 0) (song_id (songs ! 0))]
         \<and> length (filter is_play (pending (run (mount songs b)
                   (map PlayClick [0..<length songs] @ [CardClick 0, DialogPlayClick]))))
           = length songs + 1"
proof -
  let ?s = "run (mount songs b) (map PlayClick [0..<length songs])"
  have r: "reachable songs b ?s"
    by (rule reachable_run) (rule reachable.mounted)
  have p: "pending ?s = map (play_request_of songs) [0..<length songs]"
    by (simp add: pending_play_clicks)
  have "\<not> flag_of ?s ByDialog"
    by (rule reachable_not_loading [OF r]) (simp add: p plays_by_map_cards)
  then have l: "\<not> grid_isLoading (grid (click_card 0 ?s))"
    using flag_of_click_card [of 0 ?s ByDialog] by simp
  have c: "0 < length (cards ?s)" "fst (cards ?s ! 0) = songs ! 0"
    using assms reachable_songs_of [OF r] length_cards_reachable [OF r]
    by (simp_all flip: songs_of_nth)
  then have d: "dialog_song (click_card 0 ?s) = Some (songs ! 0)"
    using length_cards_step [of ?s "CardClick 0"] by (simp add: dialog_song_def selected_ops)
  have "pending (run ?s [CardClick 0, DialogPlayClick])
          = map (play_request_of songs) [0..<length songs]
            @ [new_request ByDialog PlayIntent (songs ! 0) (song_id (songs ! 0))]"
    using l d by (simp add: pending_click_dialog_play pending_click_card p)
  then show ?thesis
    by (simp add: is_play_def new_request_def comp_def)
qed

theorem play_bound_reached_witness:
  "two_songs \<noteq> []
   \<and> map (\<lambda>r. (req_origin r, song_id (req_song r)))
       (pending (run (mount two_songs initial_browser)
                   [PlayClick 0, PlayClick 1, CardClick 0, DialogPlayClick]))
     = [(ByCard 0, ''X''), (ByCard 1, ''Y''), (ByDialog, ''X'')]"
proof -
  have n: "two_songs \<noteq> []"
    by (simp add: two_songs_def)
  have u: "map PlayClick [0..<length two_songs] = [PlayClick 0, PlayClick 1]"
    by (simp add: two_songs_def upt_rec)
  from n play_bound_reached [OF n, of initial_browser] show ?thesis
    by (simp add: u new_request_def two_songs_def mg_defs upt_rec)
qed

section \<open>Download requests are not\<close>

abbreviation download_request_of :: "client \<Rightarrow> nat \<Rightarrow> request" where
  "download_request_of s i \<equiv>
     new_request (ByCard i) DownloadIntent (fst (cards s ! i)) (song_id (fst (cards s ! i)))"

lemma click_download_eq:
  assumes "i < length (cards s)"
  shows "click_download i s = s\<lparr>pending := pending s @ [download_request_of s i]\<rparr>"
  using assms by (simp add: click_download_def handleDownload_call_def split: prod.splits)

lemma run_download_clicks:
  assumes "i < length (cards s)"
  shows "run s (replicate n (DownloadClick i))
           = s\<lparr>pending := pending s @ replicate n (download_request_of s i)\<rparr>"
  using assms
proof (induction n arbitrary: s)
  case 0
  then show ?case by simp
next
  case (Suc n)
  let ?s = "s\<lparr>pending := pending s @ [download_request_of s i]\<rparr>"
  from Suc.prems Suc.IH [of ?s] show ?case
    by (simp add: click_download_eq replicate_app_Cons_same)
qed

text \<open>
  C24. The download handler has no guard: \<open>n\<close> download intents on one card put \<open>n\<close>
  requests for the song of that card in flight, whatever is in flight already, and
  change nothing else of the client: no loading flag is set and none of the new
  requests is a play request.
\<close>

theorem downloads_not_guarded:
  assumes "i < length (cards s)"
  shows "run s (replicate n (DownloadClick i))
           = s\<lparr>pending := pending s @ replicate n (download_request_of s i)\<rparr>
         \<and> length (pending (run s (replicate n (DownloadClick i)))) = length (pending s) + n
         \<and> filter is_play (pending (run s (replicate n (DownloadClick i))))
             = filter is_play (pending s)"
  by (simp add: run_download_clicks [OF assms] is_play_def new_request_def)

theorem downloads_not_guarded_witness:
  "0 < length (cards (mount two_songs initial_browser))
   \<and> length (pending (run (mount two_songs initial_browser) (replicate 5 (DownloadClick 0)))) = 5"
proof -
  have i: "0 < length (cards (mount two_songs initial_browser))"
    by (simp add: two_songs_def)
  from i downloads_not_guarded [OF i, of 5] show ?thesis
    by simp
qed

end
