(* ===== verification/Dom_Events.thy ===== *)
theory Dom_Events
  imports Client_Bounds
begin

text \<open>
  Clicks as the browser delivers them. In the markup of \<open>song-card.tsx\<close> the play
  button and the download item sit inside the card, and the card has a click handler of
  its own (\<open>onClick={handleCardClick}\<close>), so a click on one of the inner elements
  reaches the card's handler too unless the inner handler stops it. Both inner
  handlers begin with \<open>e.stopPropagation()\<close>. The play button is disabled while its
  card is loading (\<open>disabled={isLoading}\<close>); that a disabled button delivers no
  click, neither to its own handler nor to the card's, is what browsers do and is
  assumed here, the sources only set the attribute.

  \<open>dispatch_click\<close> is the delivery of one click on an element of card \<open>i\<close>: the
  handler of the element runs with a fresh event, then the card's handler unless the
  event was stopped. The handlers are \<open>handlePlayPause_event\<close> and
  \<open>handleDownload_event\<close>, the parts of \<open>handlePlayPause\<close> and \<open>handleDownload\<close>
  up to their \<open>await\<close> with the event they receive. The lemmas show that this
  delivery is the step of \<open>Client_Machine\<close> for the corresponding event, which is
  what lets the rest of the development treat play, download and card clicks as
  separate events; and that opening and closing the dialog, and entering and leaving a
  card, bring the client back to where it was.
\<close>

section \<open>Events and their propagation\<close>

record mouse_event =
  propagationStopped :: bool

definition fresh_event :: mouse_event where
  "fresh_event = \<lparr>propagationStopped = False\<rparr>"

definition stopPropagation :: "mouse_event \<Rightarrow> mouse_event" where
  "stopPropagation e = e\<lparr>propagationStopped := True\<rparr>"

datatype target = PlayButton | DownloadItem | CardSurface

section \<open>The handlers with their event\<close>

definition handlePlayPause_event ::
  "mouse_event \<Rightarrow> SongCardProps \<Rightarrow> card_state \<Rightarrow> mouse_event \<times> card_state \<times> string option" where
  "handlePlayPause_event e props c = (stopPropagation e, handlePlayPause_call props c)"

definition handleDownload_event :: "mouse_event \<Rightarrow> SongCardProps \<Rightarrow> mouse_event \<times> string" where
  "handleDownload_event e props = (stopPropagation e, handleDownload_call props)"

section \<open>Delivery of a click\<close>

definition bubble :: "mouse_event \<Rightarrow> nat \<Rightarrow> client \<Rightarrow> client" where
  "bubble e i s = (if propagationStopped e then s else click_card i s)"

definition dispatch_click :: "nat \<Rightarrow> target \<Rightarrow> client \<Rightarrow> client" where
  "dispatch_click i tg s =
     (if i < length (cards s) then
        (case cards s ! i of (props, c) \<Rightarrow>
           (case tg of
              PlayButton \<Rightarrow>
                if cv_disabled (SongCard (store (world s)) c props) then s
                else
                  (case handlePlayPause_event fresh_event props c of
                     (e, c', None) \<Rightarrow>
                       bubble e i (s\<lparr>cards := (cards s)[i := (props, c')]\<rparr>)
                   | (e, c', Some a) \<Rightarrow>
                       bubble e i
                         (s\<lparr>cards := (cards s)[i := (props, c')],
                            pending := pending s @ [new_request (ByCard i) PlayIntent props a]\<rparr>))
            | DownloadItem \<Rightarrow>
                (case handleDownload_event fresh_event props of
                   (e, a) \<Rightarrow>
                     bubble e i
                       (s\<lparr>pending := pending s @ [new_request (ByCard i) DownloadIntent props a]\<rparr>))
            | CardSurface \<Rightarrow> bubble fresh_event i s))
      else s)"

fun event_of :: "nat \<Rightarrow> target \<Rightarrow> event" where
  "event_of i PlayButton = PlayClick i"
| "event_of i DownloadItem = DownloadClick i"
| "event_of i CardSurface = CardClick i"

section \<open>Delivery is the step of the machine\<close>

lemma bubble_simps [simp]:
  "bubble (stopPropagation e) i s = s"
  "bubble fresh_event i s = click_card i s"
  by (simp_all add: bubble_def stopPropagation_def fresh_event_def)

lemma disabled_SongCard [simp]: "cv_disabled (SongCard st c props) = isLoading c"
  by (simp add: SongCard_def Let_def)

lemma click_play_loading:
  assumes "i < length (cards s)" and "isLoading (snd (cards s ! i))"
  shows "click_play i s = s"
  using assms by (cases "cards s ! i") (simp add: click_play_def update_same_card)

lemma dispatch_PlayButton: "dispatch_click i PlayButton s = click_play i s"
proof (cases "i < length (cards s)")
  case False
  then show ?thesis
    by (simp add: dispatch_click_def click_play_def)
next
  case True
  show ?thesis
  proof (cases "isLoading (snd (cards s ! i))")
    case loading: True
    with True show ?thesis
      by (cases "cards s ! i") (simp add: dispatch_click_def click_play_loading)
  next
    case False
    with True show ?thesis
      by (cases "cards s ! i")
         (simp add: dispatch_click_def click_play_def handlePlayPause_event_def)
  qed
qed

lemma dispatch_DownloadItem: "dispatch_click i DownloadItem s = click_download i s"
  by (cases "cards s ! i")
     (simp add: dispatch_click_def click_download_def handleDownload_event_def)

lemma dispatch_CardSurface: "dispatch_click i CardSurface s = click_card i s"
  by (cases "cards s ! i") (simp add: dispatch_click_def click_card_def)

lemma selected_click_play [simp]: "selectedSong (grid (click_play i s)) = selectedSong (grid s)"
  by (simp add: click_play_def split: prod.splits option.splits)

lemma selected_click_download [simp]:
  "selectedSong (grid (click_download i s)) = selectedSong (grid s)"
  by (simp add: click_download_def split: prod.splits)

text \<open>
  C19. A click on the play button, on the download item or on the card itself, delivered
  with propagation as the handlers leave it, is exactly the step of the client for a
  play, a download or a card click. In particular a click on the play button or the
  download item never opens the dialog. For the disabled play button this rests on
  the browser delivering no click from it; for the enabled one and for the download
  item it rests on \<open>e.stopPropagation()\<close>.
\<close>

theorem dispatch_is_step:
  "dispatch_click i tg s = step s (event_of i tg)
   \<and> selectedSong (grid (dispatch_click i PlayButton s)) = selectedSong (grid s)
   \<and> selectedSong (grid (dispatch_click i DownloadItem s)) = selectedSong (grid s)"
  by (cases tg) (simp_all add: dispatch_PlayButton dispatch_DownloadItem dispatch_CardSurface)

section \<open>There and back\<close>

lemma open_close:
  assumes "i < length (cards s)"
  shows "dismiss_dialog (click_card i s) = s\<lparr>grid := (grid s)\<lparr>selectedSong := None\<rparr>\<rparr>"
proof -
  from assms have "cards s \<noteq> []"
    by auto
  with assms show ?thesis
    by (cases "cards s ! i")
       (simp add: click_card_def dismiss_dialog_def dialog_song_def mg_defs)
qed

lemma enter_leave:
  assumes "i < length (cards s)"
  shows "hover i False (hover i True s)
           = s\<lparr>cards := (cards s)[i := (fst (cards s ! i), (snd (cards s ! i))\<lparr>isHovered := False\<rparr>)]\<rparr>"
  using assms by (cases "cards s ! i") (simp add: hover_def mg_defs)

text \<open>
  C36. Opening the dialog on a card and dismissing it brings a client with no dialog
  back to the state it was in, and in between the dialog is the one of that card's
  song; entering a card that is not hovered and leaving it does the same. Neither
  touches the store or the requests in flight.
\<close>

theorem open_close_roundtrip:
  assumes "i < length (cards s)" and "selectedSong (grid s) = None"
    and "\<not> isHovered (snd (cards s ! i))"
  shows "run s [CardClick i, DialogDismiss] = s
         \<and> dialog_song (step s (CardClick i)) = Some (fst (cards s ! i))
         \<and> run s [MouseEnter i, MouseLeave i] = s"
proof -
  have "(grid s)\<lparr>selectedSong := None\<rparr> = grid s"
    using assms(2) by simp
  moreover have "(snd (cards s ! i))\<lparr>isHovered := False\<rparr> = snd (cards s ! i)"
    using assms(3) by simp
  moreover from assms(1) have "cards s \<noteq> []"
    by auto
  then have "dialog_song (click_card i s) = Some (fst (cards s ! i))"
    using assms(1) by (cases "cards s ! i") (simp add: click_card_def dialog_song_def mg_defs)
  ultimately show ?thesis
    using assms(1) by (simp add: open_close enter_leave)
qed

theorem open_close_roundtrip_witness:
  "run both_requested [CardClick 1, DialogDismiss] = both_requested
   \<and> map_option song_id (dialog_song (step both_requested (CardClick 1))) = Some ''Y''
   \<and> run both_requested [MouseEnter 1, MouseLeave 1] = both_requested"
proof -
  have i: "1 < length (cards both_requested)"
    and n: "selectedSong (grid both_requested) = None"
    and h: "\<not> isHovered (snd (cards both_requested ! 1))"
    by (simp_all add: both_requested_eq initial_grid_def)
  from open_close_roundtrip [OF i n h] show ?thesis
    by (simp add: both_requested_eq)
qed

end
