(* ===== verification/Card_Phases.thy ===== *)
theory Card_Phases
  imports Client_Bounds
begin

text \<open>
  The life of one card as a labelled transition system. The specification draws the
  controller of a card as a diagram of three phases; \<open>spec_edge\<close> is that diagram,
  with every edge labelled by what causes it, seen from the card: a play intent on the
  card itself, the resolution or the failure of the card's own request, or the
  resolution of a request of another origin. \<open>card_edge\<close> is the diagram the code
  has: the edges of the specification and three more. \<open>cause_of\<close> reads the cause
  off an event of the client and \<open>card_phase\<close> the phase of a card off its state.
  The lemmas show that every step of a reachable client moves every card along an
  edge of \<open>card_edge\<close> with the cause of the event, and that each of the three
  additional edges is taken by a run.
\<close>

section \<open>The diagram of the specification and the diagram of the code\<close>

datatype cause = OwnIntent | OwnResolved | OwnFailed | OtherResolved | Quiet

inductive spec_edge :: "phase \<Rightarrow> cause \<Rightarrow> phase \<Rightarrow> bool" where
  intent: "spec_edge Idle OwnIntent Resolving"
| reentrant: "spec_edge Resolving OwnIntent Resolving"
| resolved: "spec_edge Resolving OwnResolved Active"
| failed: "spec_edge Resolving OwnFailed Idle"
| demoted: "spec_edge Active OtherResolved Idle"
| unaffected: "spec_edge p OtherResolved p"
| quiet: "spec_edge p Quiet p"

inductive card_edge :: "phase \<Rightarrow> cause \<Rightarrow> phase \<Rightarrow> bool" where
  specified: "spec_edge p c q \<Longrightarrow> card_edge p c q"
| again: "card_edge Active OwnIntent Resolving"
| failed_active: "card_edge Resolving OwnFailed Active"
| promoted: "card_edge Idle OtherResolved Active"

code_pred spec_edge .

code_pred card_edge .

inductive_simps spec_edge_simps:
  "spec_edge p OwnIntent q"
  "spec_edge p OwnResolved q"
  "spec_edge p OwnFailed q"
  "spec_edge p OtherResolved q"
  "spec_edge p Quiet q"

inductive_simps card_edge_simps:
  "card_edge p OwnIntent q"
  "card_edge p OwnResolved q"
  "card_edge p OwnFailed q"
  "card_edge p OtherResolved q"
  "card_edge p Quiet q"


section \<open>Phases and causes of the client\<close>

definition card_phase :: "client \<Rightarrow> nat \<Rightarrow> phase" where
  "card_phase s i = phase_of (abs_client s) (ByCard i) (song_id (fst (cards s ! i)))"

fun cause_of :: "client \<Rightarrow> nat \<Rightarrow> event \<Rightarrow> cause" where
  "cause_of s i (PlayClick j) = (if j = i \<and> i < length (cards s) then OwnIntent else Quiet)"
| "cause_of s i (Settled k outcome) =
     (if k < length (pending s) \<and> is_play (pending s ! k) then
        (case outcome of
           Inr u \<Rightarrow> if req_origin (pending s ! k) = ByCard i then OwnResolved else OtherResolved
         | Inl e \<Rightarrow> if req_origin (pending s ! k) = ByCard i then OwnFailed else Quiet)
      else Quiet)"
| "cause_of s i e = Quiet"

lemmas phase_defs = phase_of_def resolving_song_def abs_client_def is_play_def

section \<open>The edges by their cause\<close>

lemma card_edge_iff:
  "card_edge p OwnIntent q \<longleftrightarrow> q = Resolving"
  "card_edge p OwnResolved q \<longleftrightarrow> p = Resolving \<and> q = Active"
  "card_edge p OwnFailed q \<longleftrightarrow> p = Resolving \<and> q \<noteq> Resolving"
  "card_edge p OtherResolved q \<longleftrightarrow> (p = Resolving \<longleftrightarrow> q = Resolving)"
  "card_edge p Quiet q \<longleftrightarrow> p = q"
  by (cases p; cases q; simp add: card_edge_simps spec_edge_simps)+

lemma spec_edge_iff:
  "spec_edge p OwnIntent q \<longleftrightarrow> p \<noteq> Active \<and> q = Resolving"
  "spec_edge p OwnResolved q \<longleftrightarrow> p = Resolving \<and> q = Active"
  "spec_edge p OwnFailed q \<longleftrightarrow> p = Resolving \<and> q = Idle"
  "spec_edge p OtherResolved q \<longleftrightarrow> p = q \<or> (p = Active \<and> q = Idle)"
  "spec_edge p Quiet q \<longleftrightarrow> p = q"
  by (cases p; cases q; simp add: spec_edge_simps)+

lemma card_edge_not_specified:
  "card_edge p c q \<and> \<not> spec_edge p c q \<longleftrightarrow>
     (p, c, q) \<in> {(Active, OwnIntent, Resolving), (Resolving, OwnFailed, Active),
                   (Idle, OtherResolved, Active)}"
  by (cases c; cases p; cases q; simp add: card_edge_iff spec_edge_iff)

section \<open>The phase of an origin under the steps of the machine\<close>

lemma resolving_song_play:
  "resolving_song (spec_step a (APlay who' song)) who
     = (if who = who' \<and> resolving_song a who = None then Some song else resolving_song a who)"
  by (auto simp: resolving_song_def map_of_append map_add_def split: option.splits)

lemma current_play [simp]: "current (spec_step a (APlay who' song)) = current a"
  by (simp split: option.splits)

lemma phase_play:
  "phase_of (spec_step a (APlay who' song)) who i
     = (if who = who' then Resolving else phase_of a who i)"
  by (auto simp: phase_of_def resolving_song_play simp del: spec_step.simps)

lemma phase_leave_other:
  "who' \<noteq> who \<Longrightarrow> phase_of (leave who' a) who i = phase_of a who i"
  by (simp add: phase_of_def resolving_song_leave_other)

lemma phase_leave_not_resolving [simp]: "phase_of (leave who a) who i \<noteq> Resolving"
  by (simp add: phase_of_resolving)

lemma phase_resolved_own:
  "phase_of ((leave who a)\<lparr>current := Some (mkTrack song u)\<rparr>) who i
     = (if song_id song = i then Active else Idle)"
  by (simp add: phase_of_def resolving_song_def leave_def mkTrack_def)

lemma phase_resolved_other:
  "who' \<noteq> who \<Longrightarrow>
   phase_of ((leave who' a)\<lparr>current := t\<rparr>) who i = Resolving \<longleftrightarrow> phase_of a who i = Resolving"
  using resolving_song_leave_other [of who who' a]
  by (simp add: phase_of_resolving resolving_song_def)

section \<open>Every step follows the diagram of the code\<close>

lemma card_song_step: "i < length (cards s) \<Longrightarrow> fst (cards (step s e) ! i) = fst (cards s ! i)"
  using songs_of_step [of s e] songs_of_nth [of i s] songs_of_nth [of i "step s e"] by simp

lemma card_phase_step:
  assumes "client_inv s" and "i < length (cards s)"
  shows "card_phase (step s e) i
           = phase_of (spec_step (abs_client s) (label_of s e)) (ByCard i) (song_id (fst (cards s ! i)))"
  by (simp add: card_phase_def abs_step [OF assms(1)] card_song_step [OF assms(2)])

lemma card_phase_quiet:
  assumes "client_inv s" and "i < length (cards s)"
    and "label_of s e = ASkip \<or> (\<exists>song. label_of s e = APlay ByDialog song)"
  shows "card_phase (step s e) i = card_phase s i"
  unfolding card_phase_step [OF assms(1,2)] using assms(3)
  by (auto simp: card_phase_def phase_play simp del: spec_step.simps) simp

lemma card_phase_click:
  assumes "client_inv s" and "i < length (cards s)"
  shows "card_edge (card_phase s i) (cause_of s i (PlayClick j)) (card_phase (step s (PlayClick j)) i)"
proof (cases "j < length (cards s)")
  case True
  then show ?thesis
    unfolding card_phase_step [OF assms] using assms(2)
    by (auto simp: phase_play card_edge_iff card_phase_def simp del: spec_step.simps)
next
  case False
  then have "label_of s (PlayClick j) = ASkip" by simp
  with card_phase_quiet [OF assms, of "PlayClick j"] False assms(2) show ?thesis
    by (auto simp: card_edge_iff simp del: step.simps)
qed

lemma request_song_id:
  assumes "client_inv s" and "k < length (pending s)" and "req_origin (pending s ! k) = ByCard i"
  shows "song_id (req_song (pending s ! k)) = song_id (fst (cards s ! i))"
  using client_invD(1) [OF assms(1), of "pending s ! k"] assms(2,3)
  by (auto simp: request_ok_def)

lemma card_phase_settle:
  assumes "client_inv s" and "i < length (cards s)"
  shows "card_edge (card_phase s i) (cause_of s i (Settled k outcome))
           (card_phase (step s (Settled k outcome)) i)"
proof (cases "k < length (pending s) \<and> is_play (pending s ! k)")
  case False
  then have "label_of s (Settled k outcome) = ASkip" by auto
  with card_phase_quiet [OF assms, of "Settled k outcome"] False show ?thesis
    by (auto simp: card_edge_iff simp del: step.simps)
next
  case True
  let ?r = "pending s ! k"
  from True have k: "k < length (pending s)" and p: "is_play ?r" by simp_all
  note song = resolving_song_settled [OF assms(1) k p]
  show ?thesis
  proof (cases "req_origin ?r = ByCard i")
    case own: True
    with song have "card_phase s i = Resolving"
      by (simp add: card_phase_def phase_of_resolving)
    with own k p song request_song_id [OF assms(1) k own] show ?thesis
      unfolding card_phase_step [OF assms]
      by (cases outcome) (simp_all add: card_edge_iff phase_resolved_own)
  next
    case other: False
    with k p song show ?thesis
      unfolding card_phase_step [OF assms]
      by (cases outcome)
         (simp_all add: card_edge_iff phase_resolved_other phase_leave_other card_phase_def)
  qed
qed

text \<open>
  C7. Every card follows the diagram of the code: whatever event a reachable client
  takes, the phase of each card before and after it are joined by an edge of
  \<open>card_edge\<close> that carries the cause of the event for that card. A play intent
  on the card leads to resolving from every phase, the card's own resolution from
  resolving to active, its own failure from resolving to idle or to active, the
  resolution of another origin keeps a resolving card resolving and moves the others
  between idle and active, and nothing else changes the phase of the card.
\<close>

theorem card_follows_diagram:
  assumes "reachable songs b s" and "i < length songs"
  shows "card_edge (card_phase s i) (cause_of s i e) (card_phase (step s e) i)"
proof -
  note inv = reachable_client_inv [OF assms(1)]
  from assms have i: "i < length (cards s)"
    by (simp add: length_cards_reachable)
  show ?thesis
  proof (cases "\<exists>j. e = PlayClick j \<or> (\<exists>k outcome. e = Settled k outcome)")
    case True
    with card_phase_click [OF inv i] card_phase_settle [OF inv i] show ?thesis
      by auto
  next
    case False
    then have "cause_of s i e = Quiet"
      and "label_of s e = ASkip \<or> (\<exists>song. label_of s e = APlay ByDialog song)"
      by (cases e; simp split: option.splits)+
    with card_phase_quiet [OF inv i, of e] show ?thesis
      by (simp add: card_edge_iff del: step.simps)
  qed
qed

theorem card_follows_diagram_witness:
  "reachable two_songs initial_browser (run (mount two_songs initial_browser) [CardClick 0, DialogPlayClick])
   \<and> 0 < length two_songs
   \<and> card_edge Idle OtherResolved Active \<and> \<not> spec_edge Idle OtherResolved Active"
proof -
  let ?s = "run (mount two_songs initial_browser) [CardClick 0, DialogPlayClick]"
  have r: "reachable two_songs initial_browser ?s"
    by (rule reachable_run) (rule reachable.mounted)
  have i: "0 < length two_songs"
    by (simp add: two_songs_def)
  have "card_phase ?s 0 = Idle" and "cause_of ?s 0 (Settled 0 (Inr ''u'')) = OtherResolved"
    and "card_phase (step ?s (Settled 0 (Inr ''u''))) 0 = Active"
    by (simp_all add: card_phase_def phase_defs eval_defs getTrack_def)
  with card_follows_diagram [OF r i, of "Settled 0 (Inr ''u'')"] r i show ?thesis
    by (simp add: spec_edge_iff)
qed

section \<open>The edges the specification does not have\<close>

lemma edges_beyond_specification:
  "map (\<lambda>(es, e). (card_phase (run (mount two_songs initial_browser) es) 0,
                    cause_of (run (mount two_songs initial_browser) es) 0 e,
                    card_phase (run (mount two_songs initial_browser) (es @ [e])) 0))
     [([PlayClick 0, Settled 0 (Inr ''u'')], PlayClick 0),
      ([PlayClick 0, Settled 0 (Inr ''u''), PlayClick 0], Settled 0 (Inl (ErrorObj ''down''))),
      ([CardClick 0, DialogPlayClick], Settled 0 (Inr ''u''))]
   = [(Active, OwnIntent, Resolving), (Resolving, OwnFailed, Active),
      (Idle, OtherResolved, Active)]"
  by (simp add: card_phase_def phase_defs eval_defs getTrack_def)

end
