(* ===== verification/Spec2Isabelle.thy ===== *)
theory Spec2Isabelle
  imports Server_Calls Dom_Events Card_Phases
begin

text \<open>
  \<^bold>\<open>A verification library for the song library front end.\<close>

  The program is the home page of a music generation service. On the server,
  \<open>HomePage\<close> and \<open>HomeSongsFetcher\<close> check the session, query the songs the viewer
  may see, sign their thumbnails and hand the resulting list to the client. On the
  client, \<open>SongGrid\<close> shows the list as cards (\<open>SongCard\<close>) with a detail
  dialog; cards and dialog resolve a play URL on demand and write the resulting track
  to the one shared player store, from which each of them derives whether it is the
  one that plays.

  \<^bold>\<open>Theories, in the order of the data flow.\<close>
  \<^item> \<open>MG_Prelude\<close>: the JavaScript notions the code relies on (\<open>string | null\<close> and
    its truthiness, \<open>??\<close>, thrown values and the text logged for them, settled
    promises and \<open>Promise.all\<close>), the descending order \<open>order_by_desc\<close> of the
    query with the tie order this model chooses, lemmas on lists, and the theorem
    collections \<open>mg_defs\<close>, \<open>mg_view\<close> and \<open>mg_frame\<close>.
  \<^item> \<open>Song_Model\<close>: the data. \<open>song_row\<close> (the fields \<open>home-songs-fetcher.tsx\<close>
    reads of a row), \<open>SongCardProps\<close> (the interface of \<open>song-card.tsx\<close>),
    \<open>Track\<close> and \<open>mkTrack\<close> (the object both play handlers pass to \<open>setTrack\<close>),
    \<open>session\<close>.
  \<^item> \<open>Visibility\<close>: the query of \<open>HomeSongsFetcher\<close>: \<open>where_clause\<close> with its two
    branches and \<open>findMany\<close> over a table given as a list of rows; \<open>visible\<close> is the
    rule of the specification and \<open>VisibilityFilter\<close> its filter;
    \<open>query_result\<close> is what the call asks of the database, with any order among
    rows of one creation time. Shown: the clause is the rule; the result is exactly
    the visible rows with their multiplicities, most recent first; every answer that
    meets the query is the list of the specification up to the order of ties, and is
    that list when the creation times differ; own rows are always returned, foreign
    unpublished rows never.
  \<^item> \<open>Projector\<close>: the rest of \<open>HomeSongsFetcher\<close>: \<open>resolve_thumbnail\<close>,
    \<open>project\<close>, \<open>songsWithThumbnails\<close> (the \<open>Promise.all\<close>) and the component over
    its environment \<open>server_env\<close> (session, table, signer). Shown: the batch is
    positional, a row without a key never reaches the signer, the batch depends on the
    signer through the rows' keys only, one failing signature rejects the whole batch
    with that signer's error, no session means a redirect. \<open>conforms\<close> is the
    view-level song of the specification as a relation between a row and the props
    made of it; every projected song conforms to its row.
  \<^item> \<open>Player_Store\<close>: the store \<open>usePlayerStore\<close> (one optional track, replaced as a
    whole), modelled from the specification because its module is not among the
    sources, and \<open>browser\<close>, the effects of the handlers: the store, the console lines
    and the opened windows.
  \<^item> \<open>Song_Card\<close>: \<open>SongCard\<close>: its state, \<open>isCurrentTrack\<close> and \<open>isPlaying\<close>, its
    handlers and its render function. Each asynchronous handler is two functions, the
    part before its \<open>await\<close> (\<open>_call\<close>) and the part after it (\<open>_resume\<close>, which
    takes the outcome). Shown: when a card plays, non-reentrancy, the effect of a
    resolved and of a failed request, downloads, what the button and the texts show.
  \<^item> \<open>Song_Grid\<close>: \<open>SongGrid\<close>: its state, handlers (prefix \<open>grid_\<close>), the dialog
    and the render function. Shown: dialog and cards agree on what plays, the shape of
    the rendered grid, the sections of the dialog.
  \<^item> \<open>Client_Machine\<close>: the client as a state machine: the mounted cards, the grid,
    the browser and the requests in flight; \<open>event\<close>, \<open>step\<close>, \<open>run\<close>,
    \<open>reachable\<close>. An event is a user action or the settling of one request in flight,
    in any order, so the runs are all interleavings of the handlers' parts.
  \<^item> \<open>Client_Invariants\<close>: \<open>client_inv\<close> and \<open>store_ok\<close> with the characteristic
    equations of the handlers. Shown for every reachable state: a loading flag is set
    exactly while one play request of its origin is in flight; requests are for songs
    of the grid; a track written to the store is complete and mirrors a song of the
    grid.
  \<^item> \<open>Playback\<close>: the coordination of playback. Shown: what a settled play request
    does, last completion wins (in general and on the specification's scenario), only
    a resolved play request changes the track, the track after a run is the last one
    written in it, what a settled download does, the loading guards of card and dialog,
    the empty grid, every request can settle, the spinner shows exactly the requests in
    flight.
  \<^item> \<open>Playback_Spec\<close>: the playback controller of the specification as a machine
    of its own (\<open>player\<close>, \<open>action\<close>, \<open>spec_step\<close>, the derived \<open>phase_of\<close>),
    the abstraction \<open>abs_client\<close> of a client state and the action \<open>label_of\<close> of
    an event. Shown: every step and every run of the client is one of the machine, and
    what cards and dialog show is the phase of the abstract state.
  \<^item> \<open>Client_Bounds\<close>: how many requests can be in flight. Shown: the play
    requests in flight come from different origins, so there are at most as many as
    the grid has songs and one more for the dialog; the bound is reached, with two
    requests for one song, because the guards belong to the cards and to the grid and
    not to the songs; downloads have no such bound, \<open>n\<close> clicks put \<open>n\<close>
    requests in flight.
  \<^item> \<open>Card_Phases\<close>: the life of one card as a labelled transition system:
    \<open>spec_edge\<close>, the diagram of the specification with its edges labelled by
    their \<open>cause\<close>, \<open>card_edge\<close>, the diagram of the code, \<open>card_phase\<close> and
    \<open>cause_of\<close>. Shown: every step of a reachable client moves every card along an
    edge of \<open>card_edge\<close>; the code has exactly three edges the specification does
    not draw (a play intent on an active card, a failure that returns to active, a
    card that becomes active by the resolution of another origin), and each is taken
    by a run.
  \<^item> \<open>Dom_Events\<close>: how a click reaches the handlers of a card: the event with
    its \<open>propagationStopped\<close> flag, \<open>stopPropagation\<close>, the handlers of
    \<open>song-card.tsx\<close> with their event (\<open>handlePlayPause_event\<close>,
    \<open>handleDownload_event\<close>), \<open>bubble\<close> to the card's own handler and
    \<open>dispatch_click\<close> for the three targets. Shown: delivery is the step of
    \<open>Client_Machine\<close>, so a click on play or download never opens the dialog and
    a disabled button delivers nothing; opening and dismissing the dialog, and entering
    and leaving a card, are round trips.
  \<^item> \<open>Home_Page\<close>: \<open>HomePage\<close> with its own session check, and the buttons
    \<open>Upgrade\<close> and \<open>CreateSong\<close>.
  \<^item> \<open>Server_Calls\<close>: \<open>HomePage\<close> and \<open>HomeSongsFetcher\<close> once more, written
    call by call in the state monad over the log of the calls made (\<open>server_call\<close>,
    \<open>await\<close>, the functions with the suffix \<open>_io\<close>). The functions of
    \<open>Projector\<close> and \<open>Home_Page\<close> are their results without the log (lemma
    \<open>io_agrees_with_pure\<close>, which ties two readings of the same lines and says
    nothing of the code by itself). Shown: the calls are the
    page's session read, the fetcher's session read, the query, and the signatures of
    the non-empty keys of the result in its order, whatever the signer answers; the
    query is made for the signed-in user only and a signature is requested for keys of
    visible rows only; the number of calls is bounded by the size of the table.
  \<^item> This theory: the properties that span server and client: the grid shows the
    visible songs, the cards mark the viewer's own songs, the player plays visible
    songs only, and every song the client holds, in a card, in a request in flight or
    in the dialog, conforms to a row the query returned.

  \<^bold>\<open>How the model corresponds to the code.\<close> Records carry the source's field
  names (\<open>id\<close> is \<open>song_id\<close>, \<open>db_id\<close>, \<open>track_id\<close>; the rows' fields have the
  prefix \<open>db_\<close>). A \<open>Date\<close> is its time value, an \<open>int\<close>. A rejected promise or a
  thrown value is \<open>Inl\<close> of a \<open>thrown\<close>; \<open>try\<close>/\<open>catch\<close>/\<open>finally\<close> are the
  branches of the \<open>_resume\<close> functions. React state is updated at the end of the
  handler part that sets it, so a handler part sees the state the previous part left.
  Markup is modelled by what it shows (records \<open>card_view\<close>, \<open>dialog_view\<close>,
  \<open>grid_view\<close>), not by its elements and classes.

  \<^bold>\<open>Choices and bounds.\<close> There is no fuel and no bound: every function is total
  and structurally recursive, lists are of any length. The signer is a function of the
  key during one render. In \<open>Server_Calls\<close> the log records when a call
  is issued, not when it settles: the callbacks of \<open>songs.map\<close> run one after the
  other up to their \<open>await\<close>, so the signatures are requested in the order of the
  rows and all of them are requested before any outcome is looked at. The sources
  have no loop and no recursion, only \<open>map\<close> over a list, so there is nothing whose
  termination would have to be shown.

  \<^bold>\<open>Assumptions.\<close> Where the sources leave a behaviour to their environment
  the model takes one and says so.
  \<^item> The order of rows of one creation time. The code gives the database one sort
    key; \<open>findMany\<close> keeps ties in the order of the table, as the specification
    asks. The theorems that speak of the rendered list speak of it as
    \<open>findMany uid table\<close> and use of its order only that it is descending;
    \<open>query_result_determined\<close> says how far every answer of the database agrees
    with it.
  \<^item> Which rejection \<open>Promise.all\<close> reports. \<open>promise_all\<close> reports the leftmost,
    the runtime the first in time. The properties use only that a rejection is
    reported and that it is one of the signer's.
  \<^item> The store. \<open>usePlayerStore\<close> is not among the sources; \<open>setTrack\<close> replaces
    the one track as a whole, as the specification says, and does not throw.
  \<^item> Closures. A handler part reads the state as it is when the part runs, not as
    it was when the component was last rendered.
  \<^item> Elements that are not there. \<open>click_play\<close>, \<open>click_download\<close>,
    \<open>click_card\<close> and \<open>hover\<close> do nothing for an index beyond the cards, and
    \<open>settle\<close> nothing for a request that is not in flight; these are not events of
    the program. \<open>dialog_song\<close> tests for the empty list, which no reachable state
    needs (\<open>dialog_song_inv\<close>).
  \<^item> The disabled button. The sources set \<open>disabled={isLoading}\<close>; that a
    disabled button delivers no click is the browser's behaviour, assumed in
    \<open>dispatch_click\<close>.
  \<^item> \<open>button_icon\<close> is not code. The card and the dialog each have their own
    conditional for the icon, written out in \<open>SongCard\<close> and \<open>Dialog\<close>.

  \<^bold>\<open>Not modelled.\<close> The session provider, the database, the URL signer, the
  server actions \<open>getPlayUrl\<close> and \<open>queueSong\<close> and the checkout client are outside
  the sources and appear as inputs. Styling, class names, hover transitions and the
  dropdown menu's open state are left out: whether a click on the menu's trigger
  reaches the card is decided by the menu component, which is not among the sources,
  so \<open>Dom_Events\<close> has the three targets whose handlers the sources define. A
  refetch of the list while the grid is mounted is not modelled: which cards keep
  their state when the list changes is decided by React from the \<open>key\<close> of each
  card, not by code of the sources, and the songs of a mounted grid are fixed here.
  The import lines and the closing lines of the six files are all of the sources that
  no definition translates.

  \<^bold>\<open>Plan for the next steps.\<close> The machine of the specification with a guard
  per song instead of per origin, as a second abstract machine, to characterise the
  runs on which the two agree (those that never have the dialog and a card, or the
  dialog on two songs, resolving at once); the server's log extended with the time a
  call settles, so that which of several rejections \<open>Promise.all\<close> reports is a
  function of the run.
\<close>

section \<open>From the table to the grid\<close>

lemma rendered_songs:
  assumes "HomeSongsFetcher env = Rendered ps" and "getSession env = Inr (Some s)"
    and "song_table env = Inr table"
  shows "ps = map (\<lambda>song. project (user_id s) song (thumbnail_of (getPreSignedUrl env) song))
               (findMany (user_id s) table)"
  using assms by (auto simp: HomeSongsFetcher_Rendered_iff songsWithThumbnails_Inr_iff)

text \<open>
  C27. The songs of the rendered grid are exactly the rows of the table that are
  visible to the signed-in viewer, each once per row, most recent first.
\<close>

theorem grid_shows_visible_songs:
  assumes "HomeSongsFetcher env = Rendered ps" and "getSession env = Inr (Some s)"
    and "song_table env = Inr table"
  shows "mset (map song_id ps) = image_mset db_id (filter_mset (visible (user_id s)) (mset table))
         \<and> descending createdAt ps"
proof -
  note ps = rendered_songs [OF assms]
  have "mset (map song_id ps) = image_mset db_id (mset (findMany (user_id s) table))"
    by (simp add: ps comp_def flip: mset_map)
  moreover have "descending createdAt ps"
    using descending_order_by_desc [of db_createdAt "filter (visible (user_id s)) table"]
    by (simp add: ps findMany_filter sorted_wrt_map)
  ultimately show ?thesis
    by (simp add: findMany_filter)
qed

theorem grid_shows_visible_songs_witness:
  "HomeSongsFetcher (env_of (Some \<lparr>user_id = ''B''\<rparr>) scenario_table signer_down)
     = Rendered (map (\<lambda>song. project ''B'' song None)
                 [row ''S4'' ''B'' False 40, row ''S3'' ''B'' True 30, row ''S2'' ''A'' True 20])
   \<and> mset (map song_id (map (\<lambda>song. project ''B'' song None)
                 [row ''S4'' ''B'' False 40, row ''S3'' ''B'' True 30, row ''S2'' ''A'' True 20]))
       = {#''S4'', ''S3'', ''S2''#}"
proof -
  let ?env = "env_of (Some \<lparr>user_id = ''B''\<rparr>) scenario_table signer_down"
  have q: "findMany ''B'' scenario_table
             = [row ''S4'' ''B'' False 40, row ''S3'' ''B'' True 30, row ''S2'' ''A'' True 20]"
    by (simp add: findMany_def scenario_table_def visible_def order_by_desc_def)
  have r: "HomeSongsFetcher ?env = Rendered (map (\<lambda>song. project ''B'' song None)
                 [row ''S4'' ''B'' False 40, row ''S3'' ''B'' True 30, row ''S2'' ''A'' True 20])"
    by (simp add: HomeSongsFetcher_def q mg_defs)
  from r grid_shows_visible_songs [OF r, of "\<lparr>user_id = ''B''\<rparr>" scenario_table]
  show ?thesis by simp
qed

section \<open>Own songs\<close>

text \<open>
  C28. The cards of the rendered grid mark the viewer's own songs and no others: the
  card of a row says You and carries the badge Your Song exactly when the row belongs
  to the signed-in viewer; the card of another user's row shows that user's name.
\<close>

theorem own_songs_marked:
  assumes "HomeSongsFetcher env = Rendered ps" and "getSession env = Inr (Some s)"
    and "song_table env = Inr table"
  shows "map (\<lambda>p. YourSongBadge \<in> set (cv_badges (SongCard st c p))) ps
           = map (\<lambda>song. db_userId song = user_id s) (findMany (user_id s) table)
         \<and> map (\<lambda>p. cv_owner (SongCard st c p)) ps
           = map (\<lambda>song. if db_userId song = user_id s then Some ''You''
                          else (case db_user song of None \<Rightarrow> None | Some u \<Rightarrow> name u))
               (findMany (user_id s) table)"
  by (simp add: rendered_songs [OF assms] SongCard_def project_def Let_def comp_def)

theorem own_songs_marked_witness:
  "HomeSongsFetcher (env_of (Some \<lparr>user_id = ''A''\<rparr>) scenario_table signer_down)
     = Rendered (map (\<lambda>song. project ''A'' song None)
                 [row ''S3'' ''B'' True 30, row ''S2'' ''A'' True 20, row ''S1'' ''A'' False 10])
   \<and> map (\<lambda>p. YourSongBadge \<in> set (cv_badges (SongCard initial_store initial_card p)))
       (map (\<lambda>song. project ''A'' song None)
          [row ''S3'' ''B'' True 30, row ''S2'' ''A'' True 20, row ''S1'' ''A'' False 10])
       = [False, True, True]"
proof -
  let ?env = "env_of (Some \<lparr>user_id = ''A''\<rparr>) scenario_table signer_down"
  have q: "findMany ''A'' scenario_table
             = [row ''S3'' ''B'' True 30, row ''S2'' ''A'' True 20, row ''S1'' ''A'' False 10]"
    by (simp add: findMany_def scenario_table_def visible_def order_by_desc_def)
  have r: "HomeSongsFetcher ?env = Rendered (map (\<lambda>song. project ''A'' song None)
                 [row ''S3'' ''B'' True 30, row ''S2'' ''A'' True 20, row ''S1'' ''A'' False 10])"
    by (simp add: HomeSongsFetcher_def q mg_defs)
  from r own_songs_marked [OF r, of "\<lparr>user_id = ''A''\<rparr>" scenario_table initial_store initial_card]
  show ?thesis by (simp add: q)
qed

section \<open>The songs of the client\<close>

lemma rendered_conform:
  assumes "HomeSongsFetcher env = Rendered ps" and "getSession env = Inr (Some s)"
    and "song_table env = Inr table"
  shows "list_all2 (conforms (user_id s)) (findMany (user_id s) table) ps"
  using assms
  by (auto simp: HomeSongsFetcher_Rendered_iff intro: songsWithThumbnails_conform
      simp del: songsWithThumbnails_Inr_iff)

text \<open>
  C17. The songs of the client are view-level songs of visible rows and stay so: in
  every state the grid reaches after it was rendered, its cards hold, in the order of
  the query, songs that conform to the rows the query returned, with no play URL and
  the own-song flag of the viewer; the song of every request in flight and the song
  of the dialog are among them. No event changes a song in place.
\<close>

theorem songs_conform_to_rows:
  assumes "HomeSongsFetcher env = Rendered ps" and "getSession env = Inr (Some s)"
    and "song_table env = Inr table" and "reachable ps b c"
  shows "list_all2 (conforms (user_id s)) (findMany (user_id s) table) (songs_of c)
         \<and> (\<forall>r \<in> set (pending c).
               \<exists>song \<in> set (findMany (user_id s) table). conforms (user_id s) song (req_song r))
         \<and> (\<forall>p. selectedSong (grid c) = Some p \<longrightarrow>
               (\<exists>song \<in> set (findMany (user_id s) table). conforms (user_id s) song p))"
proof -
  note rows = rendered_conform [OF assms(1-3)]
  note inv = reachable_client_inv [OF assms(4)]
  have songs: "songs_of c = ps"
    by (rule reachable_songs_of [OF assms(4)])
  have mem: "\<exists>song \<in> set (findMany (user_id s) table). conforms (user_id s) song p"
    if "p \<in> set ps" for p
    using list_all2_mem_right [OF rows that] .
  have "req_song r \<in> set ps" if "r \<in> set (pending c)" for r
    using client_invD(1) [OF inv that] by (simp add: songs request_ok_song_mem)
  moreover have "p \<in> set ps" if "selectedSong (grid c) = Some p" for p
    using client_invD(3) [OF inv] that by (simp add: selected_ok_def songs)
  ultimately show ?thesis
    using rows mem by (simp add: songs)
qed

theorem songs_conform_to_rows_witness:
  "HomeSongsFetcher (env_of (Some \<lparr>user_id = ''A''\<rparr>) keyed_table signer_up)
     = Rendered (map (\<lambda>song. project ''A'' song (thumbnail_of signer_up song))
                 (findMany ''A'' keyed_table))
   \<and> map (\<lambda>p. (song_id p, thumbnailUrl p, isOwnSong p, playUrl p))
       (songs_of (run (mount (map (\<lambda>song. project ''A'' song (thumbnail_of signer_up song))
                                 (findMany ''A'' keyed_table)) initial_browser)
                   [PlayClick 1, CardClick 0, Settled 0 (Inr ''u'')]))
       = [(''S3'', None, Some False, None),
          (''S2'', Some ''https://cdn/k2'', Some True, None),
          (''S1'', Some ''https://cdn/k1'', Some True, None)]"
proof -
  let ?env = "env_of (Some \<lparr>user_id = ''A''\<rparr>) keyed_table signer_up"
  let ?ps = "map (\<lambda>song. project ''A'' song (thumbnail_of signer_up song)) (findMany ''A'' keyed_table)"
  let ?c = "run (mount ?ps initial_browser) [PlayClick 1, CardClick 0, Settled 0 (Inr ''u'')]"
  have ok: "list_all (signed_ok signer_up) (findMany ''A'' keyed_table)"
    by (simp add: findMany_keyed_table signed_ok_def resolve_thumbnail_def signer_up_def)
  have r: "HomeSongsFetcher ?env = Rendered ?ps"
    by (simp add: HomeSongsFetcher_def songsWithThumbnails_ok [OF ok])
  have c: "reachable ?ps initial_browser ?c"
    by (rule reachable_run) (rule reachable.mounted)
  have t: "map (\<lambda>song. (db_id song, thumbnail_of signer_up song,
                       Some (db_userId song = ''A''), None :: string option))
             (findMany ''A'' keyed_table)
           = [(''S3'', None, Some False, None), (''S2'', Some ''https://cdn/k2'', Some True, None),
              (''S1'', Some ''https://cdn/k1'', Some True, None)]"
    by (simp add: findMany_keyed_table thumbnail_of_def resolve_thumbnail_def signer_up_def)
  from songs_conform_to_rows [OF r _ _ c, of "\<lparr>user_id = ''A''\<rparr>" keyed_table] r t
  show ?thesis
    by (simp add: reachable_songs_of [OF c] comp_def)
qed

section \<open>From the table to the player\<close>

text \<open>
  C26. Whatever the viewer does in the rendered grid, the track of the player is the
  track it held before or the track of a song that is visible to the viewer: the
  player never plays a song the query did not return.
\<close>

theorem player_plays_visible_songs:
  assumes "HomeSongsFetcher env = Rendered ps" and "getSession env = Inr (Some s)"
    and "song_table env = Inr table" and "reachable ps b c"
  shows "track (store (world c)) = track (store b) \<or>
         (\<exists>t song. track (store (world c)) = Some t \<and> song \<in> set table
            \<and> visible (user_id s) song \<and> track_id t = db_id song \<and> url t \<noteq> None)"
proof -
  note ps = rendered_songs [OF assms(1-3)]
  from reachable_track [OF assms(4)] show ?thesis
  proof
    assume "track (store (world c)) = track (store b)"
    then show ?thesis ..
  next
    assume "\<exists>p \<in> set ps. \<exists>u. track (store (world c)) = Some (mkTrack p u)"
    then obtain p u where p: "p \<in> set ps" and t: "track (store (world c)) = Some (mkTrack p u)"
      by blast
    from p obtain song where "song \<in> set (findMany (user_id s) table)" "song_id p = db_id song"
      by (auto simp: ps)
    with t show ?thesis
      by (auto simp: findMany_set)
  qed
qed

theorem player_plays_visible_songs_witness:
  "HomeSongsFetcher (env_of (Some \<lparr>user_id = ''A''\<rparr>) scenario_table signer_down)
     = Rendered (map (\<lambda>song. project ''A'' song None)
                 [row ''S3'' ''B'' True 30, row ''S2'' ''A'' True 20, row ''S1'' ''A'' False 10])
   \<and> map_option track_id (track (store (world
         (run (mount (map (\<lambda>song. project ''A'' song None)
                 [row ''S3'' ''B'' True 30, row ''S2'' ''A'' True 20, row ''S1'' ''A'' False 10])
               initial_browser)
            [PlayClick 0, Settled 0 (Inr ''https://cdn/s3.mp3'')])))) = Some ''S3''
   \<and> row ''S3'' ''B'' True 30 \<in> set scenario_table \<and> visible ''A'' (row ''S3'' ''B'' True 30)"
proof -
  let ?env = "env_of (Some \<lparr>user_id = ''A''\<rparr>) scenario_table signer_down"
  let ?ps = "map (\<lambda>song. project ''A'' song None)
               [row ''S3'' ''B'' True 30, row ''S2'' ''A'' True 20, row ''S1'' ''A'' False 10]"
  let ?c = "run (mount ?ps initial_browser) [PlayClick 0, Settled 0 (Inr ''https://cdn/s3.mp3'')]"
  have q: "findMany ''A'' scenario_table
             = [row ''S3'' ''B'' True 30, row ''S2'' ''A'' True 20, row ''S1'' ''A'' False 10]"
    by (simp add: findMany_def scenario_table_def visible_def order_by_desc_def)
  have r: "HomeSongsFetcher ?env = Rendered ?ps"
    by (simp add: HomeSongsFetcher_def q mg_defs)
  have c: "reachable ?ps initial_browser ?c"
    by (rule reachable_run) (rule reachable.mounted)
  have t: "map_option track_id (track (store (world ?c))) = Some ''S3''"
    by (simp add: eval_defs)
  from player_plays_visible_songs [OF r _ _ c, of "\<lparr>user_id = ''A''\<rparr>" scenario_table] r t
  show ?thesis by (simp add: scenario_table_def visible_def)
qed


end
